(* ===== verification/Prelude.thy ===== *)
theory Prelude
  imports Main "HOL-Library.Word" "HOL-Library.AList" "HOL-Library.Sublist"
begin

text \<open>
  Shared vocabulary of the development: the machine integers and the associative
  containers of Go as the model reads them, the result types, and the lemmas about
  association lists and words that the components share.

  \<^item> \<open>uint64\<close> and \<open>int64\<close> are both 64-bit words: Go's conversions between the two types
    keep the bits, so the difference is only in how a value is read (\<open>uint\<close>/\<open>unat\<close> against
    \<open>sint\<close>) and compared (\<open><\<close> against \<open><s\<close>).
  \<^item> A Go map is an association list with distinct keys. The list order stands for the order in
    which a \<open>range\<close> loop over that map happens to visit it, which Go leaves open: a theorem about
    every such list is a theorem about every iteration order.
  \<^item> A function that returns \<open>(T, error)\<close> is modelled with the sum \<open>error + T\<close>, one that
    returns an \<open>error\<close> only with \<open>error option\<close>.
\<close>

section \<open>Machine integers\<close>

type_synonym uint64 = "64 word"
type_synonym int64 = "64 word"

named_theorems word_facts \<open>unsigned and signed readings of 64-bit arithmetic\<close>

lemma unat_add_64 [word_facts]:
  "unat (a + b) = (unat a + unat b) mod 2 ^ 64" for a b :: uint64
  by (simp add: unat_word_ariths)

lemma unat_mult_64 [word_facts]:
  "unat (a * b) = (unat a * unat b) mod 2 ^ 64" for a b :: uint64
  by (simp add: unat_word_ariths)

lemma unat_lt_64: "unat a < 2 ^ 64" for a :: uint64
  by (rule order_less_le_trans [OF unsigned_less]) simp

lemma uint_lt_64: "uint a < 2 ^ 64" for a :: uint64
  by (rule order_less_le_trans [OF unsigned_less]) simp

lemma uint_of_int_64: "0 \<le> i \<Longrightarrow> i < 2 ^ 64 \<Longrightarrow> uint (of_int i :: uint64) = i"
  by (simp add: uint_word_of_int)

lemma of_int_eq_iff_64: "0 \<le> i \<Longrightarrow> i < 2 ^ 64 \<Longrightarrow> of_int i = c \<longleftrightarrow> i = uint c" for c :: uint64
  by (auto simp: uint_of_int_64)

lemma sint_range_64: "- (2 ^ 63) \<le> sint a \<and> sint a < 2 ^ 63" for a :: int64
  using sint_ge [of a] sint_lt [of a] by simp

lemma sint_add_64: "sint (a + b) = sint a + sint b"
  if "- (2 ^ 63) \<le> sint a + sint b" "sint a + sint b < 2 ^ 63" for a b :: int64
  using that by (simp add: sint_word_ariths signed_take_bit_int_eq_self)

lemma sint_diff_64: "sint (a - b) = sint a - sint b"
  if "- (2 ^ 63) \<le> sint a - sint b" "sint a - sint b < 2 ^ 63" for a b :: int64
  using that by (simp add: sint_word_ariths signed_take_bit_int_eq_self)

lemma sint_minus_64: "sint (- a) = - sint a"
  if "sint a \<noteq> - (2 ^ 63)" for a :: int64
proof -
  have "sint (0 - a) = sint (0 :: int64) - sint a"
    using that sint_range_64 [of a] by (intro sint_diff_64) auto
  then show ?thesis by simp
qed

lemma sint_0_iff_64: "sint a = 0 \<longleftrightarrow> a = 0" for a :: int64
  by (metis signed_0 word_eq_iff_signed)

lemma uint_eq_sint_64: "uint a = sint a" if "0 \<le> sint a" for a :: int64
proof -
  have "uint a = take_bit 64 (sint a)"
    by (simp add: uint_sint)
  also have "\<dots> = sint a"
    using that sint_range_64 [of a] by (simp add: take_bit_int_eq_self)
  finally show ?thesis .
qed

lemma sint_of_int_64: "0 \<le> k \<Longrightarrow> k < 2 ^ 63 \<Longrightarrow> sint (of_int k :: int64) = k"
  by (simp add: signed_of_int signed_take_bit_int_eq_self)

lemma sint_uint_64: "uint x < 2 ^ 63 \<Longrightarrow> sint x = uint x" for x :: uint64
proof -
  assume "uint x < 2 ^ 63"
  then have "- (2 ^ 63) \<le> uint x" "uint x < 2 ^ 63" using uint_ge_0 [of x] by linarith+
  then have "signed_take_bit 63 (uint x) = uint x" by (rule signed_take_bit_int_eq_self)
  then show ?thesis by (simp add: sint_uint)
qed

section \<open>Association lists as Go maps\<close>

type_synonym ('k, 'v) gomap = "('k \<times> 'v) list"

named_theorems gomap_simps \<open>lookups after the map operations\<close>

text \<open>Reading a missing key of a map yields the zero value of the element type.\<close>

definition mget :: "'v \<Rightarrow> ('k, 'v) gomap \<Rightarrow> 'k \<Rightarrow> 'v" where
  "mget d m k = (case map_of m k of None \<Rightarrow> d | Some v \<Rightarrow> v)"

definition mhas :: "('k, 'v) gomap \<Rightarrow> 'k \<Rightarrow> bool" where
  "mhas m k = (map_of m k \<noteq> None)"

definition mput :: "'k \<Rightarrow> 'v \<Rightarrow> ('k, 'v) gomap \<Rightarrow> ('k, 'v) gomap" where
  "mput k v m = AList.update k v m"

definition mkeys :: "('k, 'v) gomap \<Rightarrow> 'k list" where
  "mkeys m = map fst m"

definition wf_map :: "('k, 'v) gomap \<Rightarrow> bool" where
  "wf_map m = distinct (map fst m)"

lemma map_of_mput [gomap_simps]: "map_of (mput k v m) = (map_of m)(k \<mapsto> v)"
  by (simp add: mput_def update_conv')

lemma wf_mput [gomap_simps, intro]: "wf_map m \<Longrightarrow> wf_map (mput k v m)"
  by (simp add: wf_map_def mput_def distinct_update)

lemma wf_Nil [gomap_simps]: "wf_map []"
  by (simp add: wf_map_def)

lemma wf_filter [intro]: "wf_map m \<Longrightarrow> wf_map (filter P m)"
  unfolding wf_map_def by (induction m) auto

lemma mget_mput [gomap_simps]: "mget d (mput k v m) k' = (if k' = k then v else mget d m k')"
  by (simp add: mget_def gomap_simps)

lemma mget_Nil [gomap_simps]: "mget d [] k = d"
  by (simp add: mget_def)

lemma mget_Cons: "mget d ((k, v) # m) k' = (if k' = k then v else mget d m k')"
  by (simp add: mget_def)

lemma mget_notin: "k \<notin> fst ` set m \<Longrightarrow> mget d m k = d"
  by (simp add: mget_def map_of_eq_None_iff [THEN iffD2])

lemma mget_in: "wf_map m \<Longrightarrow> (k, v) \<in> set m \<Longrightarrow> mget d m k = v"
  by (simp add: mget_def wf_map_def)

lemma mhas_mput [gomap_simps]: "mhas (mput k v m) k' = (k' = k \<or> mhas m k')"
  by (simp add: mhas_def gomap_simps)

lemma set_keys_mput: "fst ` set (mput k v m) = insert k (fst ` set m)"
  by (metis dom_map_of_conv_image_fst dom_fun_upd map_of_mput option.distinct(1))

lemma keys_filter:
  assumes "wf_map m" "\<not> P d"
  shows "set (map fst (filter (\<lambda>(k, v). P v) m)) = {k. P (mget d m k)}"
proof (intro set_eqI iffI)
  fix k assume "k \<in> set (map fst (filter (\<lambda>(k, v). P v) m))"
  then obtain v where "(k, v) \<in> set m" "P v" by auto
  then show "k \<in> {k. P (mget d m k)}" using mget_in [OF assms(1)] by simp
next
  fix k assume k: "k \<in> {k. P (mget d m k)}"
  then obtain v where "map_of m k = Some v" "P v"
    using assms(2) by (auto simp: mget_def split: option.splits)
  then show "k \<in> set (map fst (filter (\<lambda>(k, v). P v) m))"
    by (auto simp: image_iff dest!: map_of_SomeD)
qed

text \<open>Two maps with the same lookups differ at most in their iteration order.\<close>

lemma map_of_eq_perm:
  assumes "wf_map m" "wf_map m'" "map_of m = map_of m'"
  shows "set m = set m'"
  using assms unfolding wf_map_def by (metis map_of_inject_set)

lemma map_of_filter:
  assumes "wf_map m"
  shows "map_of (filter P m) k =
    (case map_of m k of None \<Rightarrow> None | Some v \<Rightarrow> if P (k, v) then Some v else None)"
  using assms unfolding wf_map_def
proof (induction m)
  case Nil
  then show ?case by simp
next
  case (Cons kv m)
  then show ?case
    by (cases kv) (auto simp: map_of_eq_None_iff image_iff split: option.splits)
qed

lemma map_of_map_snd: "map_of (map (\<lambda>(k, v). (k, f v)) m) k = map_option f (map_of m k)"
  by (induction m) auto

lemma wf_map_map_snd: "wf_map (map (\<lambda>(k, v). (k, f v)) m) = wf_map m"
  by (simp add: wf_map_def case_prod_beta' comp_def)

text \<open>
  The loop \<open>for k, v := range m { result[k] = \<dots> }\<close> into a fresh map, skipping the entries for
  which \<open>f\<close> yields \<open>None\<close>.
\<close>

definition range_put :: "('k \<Rightarrow> 'v \<Rightarrow> 'w option) \<Rightarrow> ('k, 'v) gomap \<Rightarrow> ('k, 'w) gomap" where
  "range_put f m = fold (\<lambda>(k, v) r. case f k v of None \<Rightarrow> r | Some w \<Rightarrow> mput k w r) m []"

lemma range_put_fold:
  fixes f :: "'k \<Rightarrow> 'v \<Rightarrow> 'w option"
  assumes "wf_map m" "wf_map r" "\<forall>k \<in> fst ` set m. map_of r k = None"
  defines "res \<equiv> fold (\<lambda>(k, v) r. case f k v of None \<Rightarrow> r | Some w \<Rightarrow> mput k w r) m r"
  shows "wf_map res \<and> (\<forall>k. map_of res k =
    (case map_of r k of Some w \<Rightarrow> Some w | None \<Rightarrow> Option.bind (map_of m k) (f k)))"
  using assms(1-3) unfolding res_def
proof (induction m arbitrary: r)
  case Nil
  then show ?case by (auto split: option.splits)
next
  case (Cons kv m)
  obtain k v where kv: "kv = (k, v)" by (cases kv)
  have m: "wf_map m" "k \<notin> fst ` set m"
    using Cons.prems(1) by (auto simp: wf_map_def kv)
  then have none: "map_of m k = None" by (simp add: map_of_eq_None_iff)
  let ?r = "case f k v of None \<Rightarrow> r | Some w \<Rightarrow> mput k w r"
  have "wf_map ?r" "\<forall>k \<in> fst ` set m. map_of ?r k = None"
    using Cons.prems m by (auto simp: kv map_of_mput split: option.splits)
  from Cons.IH [OF m(1) this] show ?case
    using Cons.prems(3) none by (auto simp: kv map_of_mput split: option.splits)
qed

lemma range_put_wf: "wf_map m \<Longrightarrow> wf_map (range_put f m)"
  using range_put_fold [of m "[]" f] by (simp add: range_put_def wf_Nil)

lemma range_put_lookup:
  "wf_map m \<Longrightarrow> map_of (range_put f m) k = Option.bind (map_of m k) (f k)"
  using range_put_fold [of m "[]" f] by (simp add: range_put_def wf_Nil)

lemma mput_new: "k \<notin> fst ` set m \<Longrightarrow> mput k v m = m @ [(k, v)]"
  unfolding mput_def by (induction m) auto

text \<open>Updating in place: \<open>for k, v := range m { r[k] = g k v r[k] }\<close>.\<close>

definition range_update :: "'w \<Rightarrow> ('k \<Rightarrow> 'v \<Rightarrow> 'w \<Rightarrow> 'w) \<Rightarrow> ('k, 'v) gomap \<Rightarrow> ('k, 'w) gomap \<Rightarrow> ('k, 'w) gomap" where
  "range_update d g m r = fold (\<lambda>(k, v) r. mput k (g k v (mget d r k)) r) m r"

lemma range_update_wf: "wf_map r \<Longrightarrow> wf_map (range_update d g m r)"
  unfolding range_update_def by (induction m arbitrary: r) auto

lemma range_update_lookup:
  "wf_map m \<Longrightarrow> map_of (range_update d g m r) k =
    (case map_of m k of None \<Rightarrow> map_of r k | Some v \<Rightarrow> Some (g k v (mget d r k)))"
  unfolding range_update_def
proof (induction m arbitrary: r)
  case Nil
  then show ?case by simp
next
  case (Cons kv m)
  obtain k' v where kv: "kv = (k', v)" by (cases kv)
  have m: "wf_map m" "map_of m k' = None"
    using Cons.prems by (auto simp: wf_map_def kv map_of_eq_None_iff)
  show ?case
    using Cons.IH [OF m(1)] m(2) by (auto simp: kv gomap_simps split: option.splits)
qed

lemma mget_range_update:
  "wf_map m \<Longrightarrow> mget d (range_update d g m r) k =
    (case map_of m k of None \<Rightarrow> mget d r k | Some v \<Rightarrow> g k v (mget d r k))"
  by (simp add: mget_def range_update_lookup split: option.splits)

text \<open>Loops that stop at the first error.\<close>

fun first_error :: "('a \<Rightarrow> 'e option) \<Rightarrow> 'a list \<Rightarrow> 'e option" where
  "first_error f [] = None"
| "first_error f (x # xs) = (case f x of Some e \<Rightarrow> Some e | None \<Rightarrow> first_error f xs)"

lemma first_error_None: "first_error f xs = None \<longleftrightarrow> (\<forall>x \<in> set xs. f x = None)"
  by (induction xs) (auto split: option.splits)

lemma first_error_Some: "first_error f xs = Some e \<Longrightarrow> \<exists>x \<in> set xs. f x = Some e"
  by (induction xs) (auto split: option.splits)

fun map_result :: "('a \<Rightarrow> 'e + 'b) \<Rightarrow> 'a list \<Rightarrow> 'e + 'b list" where
  "map_result f [] = Inr []"
| "map_result f (x # xs) =
     (case f x of Inl e \<Rightarrow> Inl e
      | Inr y \<Rightarrow> (case map_result f xs of Inl e \<Rightarrow> Inl e | Inr ys \<Rightarrow> Inr (y # ys)))"

lemma map_result_Inr:
  "map_result f xs = Inr ys \<longleftrightarrow> list_all2 (\<lambda>x y. f x = Inr y) xs ys"
proof (induction xs arbitrary: ys)
  case Nil
  then show ?case by auto
next
  case (Cons x xs)
  show ?case
    by (cases "f x"; cases "map_result f xs"; cases ys) (auto simp flip: Cons.IH)
qed

definition is_ok :: "'e + 'a \<Rightarrow> bool" where
  "is_ok r = (case r of Inl _ \<Rightarrow> False | Inr _ \<Rightarrow> True)"

lemma is_ok_simps [simp]: "is_ok (Inr x)" "\<not> is_ok (Inl e)"
  by (simp_all add: is_ok_def)

end
