(* ===== verification/GoStrings.thy ===== *)
theory GoStrings
  imports Prelude "HOL-Library.Char_ord" "HOL-Library.List_Lexorder"
begin

text \<open>
  The part of Go's packages \<open>strings\<close>, \<open>strconv\<close> and \<open>fmt\<close> that the repository calls, on
  byte strings (\<open>string\<close> is a list of 8-bit characters, as a Go string is a list of bytes).
  Case folding and trimming act on ASCII: identifiers that pass \<open>ValidAssetID\<close> are ASCII.

  The main results are the splitting laws (\<open>join (split s) = s\<close>, the number of pieces) and the
  round trip between printing an integer in decimal and \<open>strconv.ParseInt\<close>.
\<close>

section \<open>Package strings\<close>

definition HasPrefix :: "string \<Rightarrow> string \<Rightarrow> bool" where
  "HasPrefix s p = prefix p s"

definition HasSuffix :: "string \<Rightarrow> string \<Rightarrow> bool" where
  "HasSuffix s p = suffix p s"

definition TrimPrefix :: "string \<Rightarrow> string \<Rightarrow> string" where
  "TrimPrefix s p = (if prefix p s then drop (length p) s else s)"

fun contains_at :: "string \<Rightarrow> string \<Rightarrow> bool" where
  "contains_at [] p = (p = [])"
| "contains_at (c # s) p = (prefix p (c # s) \<or> contains_at s p)"

definition Contains :: "string \<Rightarrow> string \<Rightarrow> bool" where
  "Contains s p = contains_at s p"

text \<open>\<open>strings.Split\<close> and \<open>strings.Join\<close> for a one-character separator.\<close>

fun Split :: "char \<Rightarrow> string \<Rightarrow> string list" where
  "Split c [] = [[]]"
| "Split c (x # xs) =
     (if x = c then [] # Split c xs
      else (case Split c xs of [] \<Rightarrow> [[x]] | y # ys \<Rightarrow> (x # y) # ys))"

fun Join :: "string list \<Rightarrow> string \<Rightarrow> string" where
  "Join [] sep = []"
| "Join [x] sep = x"
| "Join (x # y # ys) sep = x @ sep @ Join (y # ys) sep"

definition ascii_lower :: "char \<Rightarrow> char" where
  "ascii_lower c = (if 65 \<le> (of_char c :: nat) \<and> (of_char c :: nat) \<le> 90 then char_of ((of_char c :: nat) + 32) else c)"

definition ToLower :: "string \<Rightarrow> string" where
  "ToLower s = map ascii_lower s"

definition EqualFold :: "string \<Rightarrow> string \<Rightarrow> bool" where
  "EqualFold s t = (ToLower s = ToLower t)"

definition is_space :: "char \<Rightarrow> bool" where
  "is_space c = ((of_char c :: nat) \<in> {9, 10, 11, 12, 13, 32})"

definition TrimSpace :: "string \<Rightarrow> string" where
  "TrimSpace s = rev (dropWhile is_space (rev (dropWhile is_space s)))"

lemma Contains_iff: "Contains s p \<longleftrightarrow> sublist p s"
  unfolding Contains_def
  by (induction s p rule: contains_at.induct) (auto simp: sublist_Cons_right)

lemma Split_nonempty [simp]: "Split c s \<noteq> []"
  by (induction s) (auto split: list.splits)

lemma Split_Cons_other:
  "x \<noteq> c \<Longrightarrow> Split c (x # xs) = (x # hd (Split c xs)) # tl (Split c xs)"
  by (cases "Split c xs") auto

lemma length_Split: "length (Split c s) = Suc (count_list s c)"
proof (induction s)
  case (Cons x s)
  then show ?case by (cases "Split c s") auto
qed simp

lemma Join_Split: "Join (Split c s) [c] = s"
proof (induction s)
  case (Cons x s)
  then show ?case
    by (cases "Split c s"; cases "tl (Split c s)") auto
qed simp

lemma Split_notin: "c \<notin> set s \<Longrightarrow> Split c s = [s]"
  by (induction s) auto

lemma Split_append_sep: "c \<notin> set s \<Longrightarrow> Split c (s @ c # t) = s # Split c t"
  by (induction s) auto

lemma Split_Join:
  assumes "xs \<noteq> []" "\<forall>x \<in> set xs. c \<notin> set x"
  shows "Split c (Join xs [c]) = xs"
  using assms by (induction xs "[c]" rule: Join.induct) (auto simp: Split_notin Split_append_sep)

lemma Split_pieces: "x \<in> set (Split c s) \<Longrightarrow> c \<notin> set x \<and> set x \<subseteq> set s"
proof (induction s arbitrary: x)
  case (Cons a s)
  then show ?case by (cases "Split c s") (force split: if_splits)+
qed simp

lemma TrimPrefix_append [simp]: "TrimPrefix (p @ s) p = s"
  by (simp add: TrimPrefix_def)

lemma HasPrefix_append [simp]: "HasPrefix (p @ s) p"
  by (simp add: HasPrefix_def)

lemma EqualFold_refl [simp]: "EqualFold s s"
  by (simp add: EqualFold_def)

section \<open>Decimal integers\<close>

definition is_digit :: "char \<Rightarrow> bool" where
  "is_digit c = (48 \<le> (of_char c :: nat) \<and> (of_char c :: nat) \<le> 57)"

definition digit_val :: "char \<Rightarrow> nat" where
  "digit_val c = of_char c - 48"

definition digit_char :: "nat \<Rightarrow> char" where
  "digit_char d = char_of (48 + d)"

fun show_nat :: "nat \<Rightarrow> string" where
  "show_nat n = (if n < 10 then [digit_char n] else show_nat (n div 10) @ [digit_char (n mod 10)])"

declare show_nat.simps [simp del]

definition show_int :: "int \<Rightarrow> string" where
  "show_int i = (if i < 0 then CHR ''-'' # show_nat (nat (- i)) else show_nat (nat i))"

text \<open>\<open>fmt\<close>'s \<open>%d\<close> of a \<open>uint64\<close> and of an \<open>int64\<close>.\<close>

definition FormatUint :: "uint64 \<Rightarrow> string" where
  "FormatUint n = show_nat (unat n)"

definition FormatInt :: "int64 \<Rightarrow> string" where
  "FormatInt n = show_int (sint n)"

text \<open>
  \<open>strconv\<close> in base 10 and 64 bits: the digits are read left to right; a character that is not a
  digit is a syntax error, and the first prefix that exceeds the range is a range error.
\<close>

datatype num_error = ErrSyntax | ErrRange

fun parse_digits :: "nat \<Rightarrow> string \<Rightarrow> num_error + nat" where
  "parse_digits n [] = Inr n"
| "parse_digits n (c # cs) =
     (if \<not> is_digit c then Inl ErrSyntax
      else if n * 10 + digit_val c \<ge> 2 ^ 64 then Inl ErrRange
      else parse_digits (n * 10 + digit_val c) cs)"

definition ParseUint :: "string \<Rightarrow> num_error + uint64" where
  "ParseUint s =
     (if s = [] then Inl ErrSyntax
      else case parse_digits 0 s of Inl e \<Rightarrow> Inl e | Inr n \<Rightarrow> Inr (of_nat n))"

definition split_sign :: "string \<Rightarrow> bool \<times> string" where
  "split_sign s = (case s of [] \<Rightarrow> (False, [])
     | c # cs \<Rightarrow> if c = CHR ''+'' then (False, cs) else if c = CHR ''-'' then (True, cs) else (False, s))"

definition ParseInt :: "string \<Rightarrow> num_error + int64" where
  "ParseInt s =
     (if s = [] then Inl ErrSyntax
      else let (neg, ds) = split_sign s in
        (case ParseUint ds of Inl e \<Rightarrow> Inl e
         | Inr un \<Rightarrow>
             if \<not> neg \<and> un \<ge> 2 ^ 63 then Inl ErrRange
             else if neg \<and> un > 2 ^ 63 then Inl ErrRange
             else Inr (if neg then - un else un)))"

lemma digit_val_char [simp]: "d < 10 \<Longrightarrow> digit_val (digit_char d) = d"
  by (simp add: digit_val_def digit_char_def)

lemma is_digit_char [simp]: "d < 10 \<Longrightarrow> is_digit (digit_char d)"
  by (simp add: is_digit_def digit_char_def)

lemma digit_val_lt: "is_digit c \<Longrightarrow> digit_val c < 10"
  by (auto simp: is_digit_def digit_val_def)

lemma is_digit_not_sign: "is_digit c \<Longrightarrow> c \<noteq> CHR ''-'' \<and> c \<noteq> CHR ''+''"
  by (auto simp: is_digit_def)

lemma show_nat_digits: "\<forall>c \<in> set (show_nat n). is_digit c"
proof (induction n rule: show_nat.induct)
  case (1 n)
  show ?case
  proof (cases "n < 10")
    case True
    then show ?thesis by (simp add: show_nat.simps [of n])
  next
    case False
    with "1.IH" show ?thesis by (auto simp: show_nat.simps [of n])
  qed
qed

lemma show_nat_nonempty [simp]: "show_nat n \<noteq> []"
  by (subst show_nat.simps) simp

lemma parse_digits_append:
  "parse_digits n s = Inr m \<Longrightarrow> parse_digits n (s @ t) = parse_digits m t"
  by (induction n s rule: parse_digits.induct) (auto split: if_splits)

lemma parse_show_nat: "n < 2 ^ 64 \<Longrightarrow> parse_digits 0 (show_nat n) = Inr n"
proof (induction n rule: show_nat.induct)
  case (1 n)
  show ?case
  proof (cases "n < 10")
    case True
    then show ?thesis by (simp add: show_nat.simps [of n])
  next
    case False
    from 1(2) have "n div 10 < 2 ^ 64" by simp
    with "1.IH" False have "parse_digits 0 (show_nat (n div 10)) = Inr (n div 10)" by simp
    from parse_digits_append [OF this, of "[digit_char (n mod 10)]"] False 1(2)
    show ?thesis by (simp add: show_nat.simps [of n])
  qed
qed

lemma ParseUint_FormatUint: "ParseUint (FormatUint n) = Inr n"
  using unat_lt_64 [of n] by (simp add: ParseUint_def FormatUint_def parse_show_nat)

lemma split_sign_show_nat [simp]: "split_sign (show_nat n) = (False, show_nat n)"
  using show_nat_digits [of n] is_digit_not_sign
  by (auto simp: split_sign_def split: list.splits)

lemma parse_digits_bound: "parse_digits n s = Inr m \<Longrightarrow> n < 2 ^ 64 \<Longrightarrow> m < 2 ^ 64"
  by (induction n s rule: parse_digits.induct) (auto split: if_splits)

lemma ParseUint_show_nat: "n < 2 ^ 64 \<Longrightarrow> ParseUint (show_nat n) = Inr (of_nat n)"
  by (simp add: ParseUint_def parse_show_nat)

lemma ParseInt_show_nat:
  assumes "k < 2 ^ 63"
  shows "ParseInt (show_nat k) = Inr (of_nat k)"
proof -
  have "\<not> (2 ^ 63 \<le> (of_nat k :: uint64))"
    using assms by (simp add: word_le_nat_alt unat_of_nat take_bit_nat_eq_self)
  then show ?thesis
    using assms by (simp add: ParseInt_def ParseUint_show_nat)
qed

lemma ParseInt_minus_show_nat:
  assumes "k \<le> 2 ^ 63"
  shows "ParseInt (CHR ''-'' # show_nat k) = Inr (- of_nat k)"
proof -
  have "(of_nat k :: uint64) \<le> 2 ^ 63"
    using assms by (simp add: word_le_nat_alt unat_of_nat take_bit_nat_eq_self)
  then show ?thesis
    using assms by (simp add: ParseInt_def split_sign_def ParseUint_show_nat)
qed

lemma ParseInt_FormatInt: "ParseInt (FormatInt n) = Inr n"
proof (cases "sint n < 0")
  case True
  then obtain k where k: "sint n = - int k"
    by (metis int_nat_eq minus_equation_iff neg_less_0_iff_less order_less_imp_le)
  then have "k \<le> 2 ^ 63"
    using sint_range_64 [of n] by auto
  moreover have "n = - of_nat k"
    using arg_cong [OF k, of "of_int :: int \<Rightarrow> int64"] by simp
  moreover have "FormatInt n = CHR ''-'' # show_nat k"
    using True k by (simp add: FormatInt_def show_int_def)
  ultimately show ?thesis
    by (metis ParseInt_minus_show_nat)
next
  case False
  then obtain k where k: "sint n = int k"
    by (metis nonneg_int_cases not_le)
  then have "k < 2 ^ 63"
    using sint_range_64 [of n] by auto
  moreover have "n = of_nat k"
    using arg_cong [OF k, of "of_int :: int \<Rightarrow> int64"] by simp
  moreover have "FormatInt n = show_nat k"
    using k by (simp add: FormatInt_def show_int_def)
  ultimately show ?thesis
    by (metis ParseInt_show_nat)
qed

lemma FormatInt_chars: "\<forall>c \<in> set (FormatInt n). is_digit c \<or> c = CHR ''-''"
  using show_nat_digits by (auto simp: FormatInt_def show_int_def)

lemma FormatInt_nonempty [simp]: "FormatInt n \<noteq> []"
  by (simp add: FormatInt_def show_int_def)

section \<open>String order\<close>

text \<open>Go's string order, byte by byte, and sorting by it (\<open>sort.Slice\<close> with \<open><\<close>).\<close>

fun string_less :: "string \<Rightarrow> string \<Rightarrow> bool" where
  "string_less s [] = False"
| "string_less [] (y # ys) = True"
| "string_less (x # xs) (y # ys) =
     ((of_char x :: nat) < of_char y \<or> x = y \<and> string_less xs ys)"

fun string_insert :: "string \<Rightarrow> string list \<Rightarrow> string list" where
  "string_insert s [] = [s]"
| "string_insert s (t # ts) = (if string_less t s then t # string_insert s ts else s # t # ts)"

definition string_sort :: "string list \<Rightarrow> string list" where
  "string_sort ss = foldr string_insert ss []"

lemma string_less_irrefl [simp]: "\<not> string_less s s"
  by (induction s) auto

lemma string_less_trans: "string_less s t \<Longrightarrow> string_less t u \<Longrightarrow> string_less s u"
  by (induction s t arbitrary: u rule: string_less.induct) (auto elim: string_less.elims)

lemma string_less_total: "s \<noteq> t \<Longrightarrow> string_less s t \<or> string_less t s"
proof (induction s t rule: string_less.induct)
  case (1 s)
  then show ?case by (cases s) auto
next
  case (3 x xs y ys)
  consider "(of_char x :: nat) < of_char y" | "x = y" | "(of_char y :: nat) < of_char x"
    using linorder_neqE_nat of_char_eq_iff by metis
  with 3 show ?case by cases auto
qed simp

lemma set_string_insert [simp]: "set (string_insert s ts) = insert s (set ts)"
  by (induction ts) auto

lemma set_string_sort [simp]: "set (string_sort ss) = set ss"
  by (induction ss) (auto simp: string_sort_def)

lemma sorted_string_insert:
  "sorted_wrt string_less ts \<Longrightarrow> s \<notin> set ts \<Longrightarrow> sorted_wrt string_less (string_insert s ts)"
  by (induction ts) (auto dest: string_less_total intro: string_less_trans)

lemma sorted_string_sort: "distinct ss \<Longrightarrow> sorted_wrt string_less (string_sort ss)"
  by (induction ss) (auto simp: string_sort_def sorted_string_insert set_string_sort [unfolded string_sort_def])

text \<open>A strictly sorted list is determined by its set, so sorting distinct strings is canonical.\<close>

lemma sorted_string_unique:
  "sorted_wrt string_less xs \<Longrightarrow> sorted_wrt string_less ys \<Longrightarrow> set xs = set ys \<Longrightarrow> xs = ys"
proof (induction xs arbitrary: ys)
  case (Cons x xs)
  then obtain y zs where ys: "ys = y # zs" by (cases ys) auto
  have "x = y"
  proof (rule ccontr)
    assume ne: "x \<noteq> y"
    have "x \<in> set (y # zs)" "y \<in> set (x # xs)" using Cons.prems(3) ys by auto
    then have "string_less y x" "string_less x y" using ne Cons.prems(1,2) ys by auto
    then show False using string_less_trans [of x y x] by simp
  qed
  moreover have "x \<notin> set xs" "y \<notin> set zs" using Cons.prems(1,2) ys by auto
  ultimately have "set xs = set zs" using Cons.prems(3) ys by (metis insert_ident list.set(2))
  moreover have "sorted_wrt string_less xs" "sorted_wrt string_less zs" using Cons.prems(1,2) ys by simp_all
  ultimately show ?case using Cons.IH [of zs] \<open>x = y\<close> ys by simp
qed simp

lemma string_sort_cong: "distinct xs \<Longrightarrow> distinct ys \<Longrightarrow> set xs = set ys \<Longrightarrow> string_sort xs = string_sort ys"
  by (intro sorted_string_unique sorted_string_sort) auto

lemma distinct_string_sort: "distinct ss \<Longrightarrow> distinct (string_sort ss)"
proof -
  have "distinct xs" if "sorted_wrt string_less xs" for xs
    using that by (induction xs) auto
  then show "distinct ss \<Longrightarrow> distinct (string_sort ss)" using sorted_string_sort by blast
qed

end
