(* ===== verification/GoErrors.thy ===== *)
theory GoErrors
  imports GoStrings
begin

text \<open>
  Error values: \<open>src/errors/error.go\<close> over Go's \<open>errors\<close> and \<open>fmt.Errorf\<close>.

  An \<open>error\<close> is a plain string (\<open>errors.New\<close>, \<open>fmt.Errorf\<close> without \<open>%w\<close>), a message around a
  wrapped error (\<open>fmt.Errorf\<close> with \<open>: %w\<close> at its end), a \<open>strconv.NumError\<close>, or the package's own
  \<open>TypedError\<close>. The quoted input in the text of a \<open>NumError\<close> is exact for printable input without
  quotes and backslashes; nothing depends on that text.
\<close>

type_synonym ErrorType = string

definition NotFoundError :: ErrorType where "NotFoundError = ''NotFound''"
definition InvalidInputError :: ErrorType where "InvalidInputError = ''InvalidInput''"
definition InternalError :: ErrorType where "InternalError = ''Internal''"
definition ErrAccessDenied :: ErrorType where "ErrAccessDenied = ''AccessDenied''"
definition InvalidDataErr :: ErrorType where "InvalidDataErr = ''DataInvalid''"
definition RateLimitErr :: ErrorType where "RateLimitErr = ''RateLimit''"
definition DeprecatedErr :: ErrorType where "DeprecatedErr = ''Deprecated''"

lemmas error_type_defs = NotFoundError_def InvalidInputError_def InternalError_def
  ErrAccessDenied_def InvalidDataErr_def RateLimitErr_def DeprecatedErr_def

definition all_error_types :: "ErrorType list" where
  "all_error_types = [NotFoundError, InvalidInputError, InternalError, ErrAccessDenied,
     InvalidDataErr, RateLimitErr, DeprecatedErr]"

datatype error =
    ErrorString string
  | WrapError string error
  | NumError string string num_error
  | TypedError ErrorType error

fun num_error_text :: "num_error \<Rightarrow> string" where
  "num_error_text ErrSyntax = ''invalid syntax''"
| "num_error_text ErrRange = ''value out of range''"

fun Error :: "error \<Rightarrow> string" where
  "Error (ErrorString m) = m"
| "Error (WrapError m e) = m @ '': '' @ Error e"
| "Error (NumError f n e) = ''strconv.'' @ f @ '': parsing '' @ [CHR 34] @ n @ [CHR 34] @ '': '' @ num_error_text e"
| "Error (TypedError t e) = Error e"

fun Unwrap :: "error \<Rightarrow> error option" where
  "Unwrap (TypedError t e) = Some e"
| "Unwrap (WrapError m e) = Some e"
| "Unwrap _ = None"

text \<open>\<open>Is\<close> looks at the outermost value only: it does not unwrap.\<close>

fun Is :: "error \<Rightarrow> ErrorType \<Rightarrow> bool" where
  "Is (TypedError t e) typ = (t = typ)"
| "Is _ typ = False"

definition New :: "ErrorType \<Rightarrow> string \<Rightarrow> error" where
  "New t m = TypedError t (ErrorString m)"

definition Newf :: "ErrorType \<Rightarrow> string \<Rightarrow> error" where
  "Newf t formatted = TypedError t (ErrorString formatted)"

definition NewInternal :: "string \<Rightarrow> error" where
  "NewInternal m = TypedError InternalError (ErrorString m)"

definition NewRateLimit :: "string \<Rightarrow> error" where
  "NewRateLimit m = TypedError RateLimitErr (ErrorString (''Rate Limit: '' @ m))"

definition NewAssetNotFound :: "string \<Rightarrow> error" where
  "NewAssetNotFound assetID = TypedError NotFoundError (ErrorString (''asset '' @ assetID @ '' not found''))"

definition NewNotEnoughAmountOut :: "string \<Rightarrow> string \<Rightarrow> error" where
  "NewNotEnoughAmountOut want got =
     TypedError InvalidInputError
       (ErrorString (''amount out is not enough. want: '' @ want @ '', got: '' @ got))"

definition Wrap :: "ErrorType \<Rightarrow> error \<Rightarrow> string \<Rightarrow> error" where
  "Wrap t e m = TypedError t (WrapError m e)"

definition Data :: "string \<Rightarrow> error" where
  "Data formatted = TypedError InvalidDataErr (ErrorString formatted)"

lemmas error_ctor_defs = New_def Newf_def NewInternal_def NewRateLimit_def NewAssetNotFound_def
  NewNotEnoughAmountOut_def Wrap_def Data_def

text \<open>The package's error variables.\<close>

definition ErrNotImplemented :: error where
  "ErrNotImplemented = New InternalError ''not implemented''"
definition ErrUserAccessDenied :: error where
  "ErrUserAccessDenied = New ErrAccessDenied ''user access denied''"
definition ErrApiKeyNotFound :: error where
  "ErrApiKeyNotFound = New NotFoundError ''failed to get api key''"
definition ErrAssetNotFound :: error where
  "ErrAssetNotFound = New NotFoundError ''failed to fetch asset''"
definition ErrBaseUIDNotInformed :: error where
  "ErrBaseUIDNotInformed = New NotFoundError ''baseUID isn't informed''"
definition ErrQuoteUIDNotInformed :: error where
  "ErrQuoteUIDNotInformed = New NotFoundError ''quoteUID isn't informed''"
definition ErrInvalidTickSize :: error where
  "ErrInvalidTickSize = New NotFoundError ''tickSize must be greater than zero''"
definition ErrOrderBookExists :: error where
  "ErrOrderBookExists = New NotFoundError ''orderBook already exists''"
definition ErrInvalidAssets :: error where
  "ErrInvalidAssets = New NotFoundError ''invalid assets for orderBook''"
definition ErrNotEnoughAmountIn :: error where
  "ErrNotEnoughAmountIn = New InvalidInputError ''amount in is not enough''"
definition ErrNotEnoughAmountOut :: error where
  "ErrNotEnoughAmountOut = New InvalidInputError ''amount out is not enough''"
definition ErrPoolShouldHave2Assets :: error where
  "ErrPoolShouldHave2Assets = New InvalidInputError ''pool should have 2 assets''"
definition ErrAddLiquidityHasMaxOf2Assets :: error where
  "ErrAddLiquidityHasMaxOf2Assets = New InvalidInputError ''product pool has max of 2 assets''"
definition ErrTimeFrom :: error where
  "ErrTimeFrom = New InvalidInputError ''timeFrom should be less than timeTo''"
definition ErrAssetNotFoundInPool :: error where
  "ErrAssetNotFoundInPool = New NotFoundError ''asset not found in pool''"
definition ErrNotEnoughLP :: error where
  "ErrNotEnoughLP = New InvalidInputError ''new LP shares created are lower than min LP share needed''"
definition ErrAssetBondMissingFields :: error where
  "ErrAssetBondMissingFields = New InvalidInputError ''asset is a bond, but it is missing fields''"
definition ErrBigIntNotValidPercentage :: error where
  "ErrBigIntNotValidPercentage = New InternalError ''value is not a valid BigInt percentage 0 ~ 1000000''"
definition ErrInvalidTradeType :: error where
  "ErrInvalidTradeType = New InvalidInputError ''invalid trade type''"
definition ErrPoolUIDOrOrderBookIDMustBeInformed :: error where
  "ErrPoolUIDOrOrderBookIDMustBeInformed = New InvalidInputError ''poolUID and/or orderBookID must be informed''"
definition ErrAssetIDMustBeInformed :: error where
  "ErrAssetIDMustBeInformed = New InvalidInputError ''assetID must be informed''"
definition ErrAmountMustBePositive :: error where
  "ErrAmountMustBePositive = New InvalidInputError ''the amount should be positive''"
definition ErrFromMustBeSmallerThanTo :: error where
  "ErrFromMustBeSmallerThanTo = New InvalidInputError ''from must be smaller than to''"
definition ErrResolutionHigherThanToMinusFrom :: error where
  "ErrResolutionHigherThanToMinusFrom = New InvalidInputError ''resolution higher than to minus from''"
definition ErrNoValidSwapPath :: error where
  "ErrNoValidSwapPath = New InternalError ''no swap path found''"
definition ErrSwapInputInNil :: error where
  "ErrSwapInputInNil = New InternalError ''AssetIn and MinAmtOut cannot be nil''"
definition ErrVolumeNotFound :: error where
  "ErrVolumeNotFound = New NotFoundError ''volume not found''"
definition ErrIsInNotFound :: error where
  "ErrIsInNotFound = New NotFoundError ''bond isin not found''"
definition ErrInvalidInput :: error where
  "ErrInvalidInput = New InvalidInputError ''invalid input''"
definition ErrBorrowLimit :: error where
  "ErrBorrowLimit = New InvalidInputError ''user would be above their borrow limit''"
definition ErrInvalidPoolType :: error where
  "ErrInvalidPoolType = New InvalidInputError ''invalid pool type''"
definition ErrInvalidLimitPrice :: error where
  "ErrInvalidLimitPrice = New InvalidInputError ''invalid limit price''"
definition ErrLiquidationIneligible :: error where
  "ErrLiquidationIneligible = New InvalidInputError ''user not eligible for liquidation''"
definition ErrLiquidationLenZero :: error where
  "ErrLiquidationLenZero = New InvalidInputError ''liquidation-eligible user has zero collateral (or zero borrows)''"
definition ErrPriceMustBePositive :: error where
  "ErrPriceMustBePositive = New InvalidInputError ''price must be positive''"
definition ErrPriceMustBeGTEThanOrderBookTickSize :: error where
  "ErrPriceMustBeGTEThanOrderBookTickSize = New InvalidInputError ''price must be equal or greater than orderBook tickSize''"
definition ErrInsufficientBalance :: error where
  "ErrInsufficientBalance = New InvalidInputError ''insufficient balance''"
definition ErrReadNotAllowed :: error where
  "ErrReadNotAllowed = New InternalError ''txctx has reads disabled''"
definition ErrWriteNotAllowed :: error where
  "ErrWriteNotAllowed = New InternalError ''txctx has writes disabled''"
definition ErrAssetIDMustNotContainHyphen :: error where
  "ErrAssetIDMustNotContainHyphen = New InvalidInputError ''assetID must not contain hyphen''"
definition ErrValueMustBeExpressedAsInteger :: error where
  "ErrValueMustBeExpressedAsInteger = Data ''value must be expressed as an integer''"
definition ErrCannotChangeOrderType :: error where
  "ErrCannotChangeOrderType = Data ''order type cannot be changed''"
definition ErrInvalidInAssetSell :: error where
  "ErrInvalidInAssetSell = Data ''Sell orders must have assetIn = Base''"
definition ErrInvalidOutAssetSell :: error where
  "ErrInvalidOutAssetSell = Data ''Sell order must have assetOut = Quote''"
definition ErrOrderBookIDAssetMismatch :: error where
  "ErrOrderBookIDAssetMismatch = Data ''orderbook ID did not match assets''"
definition ErrInvalidInAssetBuy :: error where
  "ErrInvalidInAssetBuy = Data ''Buy orders must have assetIn = Quote''"
definition ErrInvalidOutAssetBuy :: error where
  "ErrInvalidOutAssetBuy = Data ''Buy orders must have assetOut = Base''"
definition ErrOrderMissingUserID :: error where
  "ErrOrderMissingUserID = Data ''order request missing user id''"
definition ErrOrderRequestValidationFailed :: error where
  "ErrOrderRequestValidationFailed = Data ''order request validation failed''"
definition ErrOrderAmendCannotChangeAssets :: error where
  "ErrOrderAmendCannotChangeAssets = Data ''order amend cannot change assets''"
definition ErrOrderNotFound :: error where
  "ErrOrderNotFound = Data ''order not found''"
definition ErrOrderAmendCannotChangeLeverage :: error where
  "ErrOrderAmendCannotChangeLeverage = Data ''order amend cannot change leverage''"
definition ErrOrderContainsInvalidOrderType :: error where
  "ErrOrderContainsInvalidOrderType = Data ''order contains invalid order type''"
definition ErrPoolAssetsMismatch :: error where
  "ErrPoolAssetsMismatch = Data ''pools asset mismatch''"
definition ErrInvalidOrderType :: error where
  "ErrInvalidOrderType = Data ''invalid order type''"
definition ErrAmountCannotBeZero :: error where
  "ErrAmountCannotBeZero = New InvalidInputError ''amount cannot be zero''"
definition ErrBaseAssetMismatch :: error where
  "ErrBaseAssetMismatch = New InvalidInputError ''AddLiquidity: base asset id mismatch''"

lemmas error_variable_defs =
  ErrNotImplemented_def ErrUserAccessDenied_def ErrApiKeyNotFound_def ErrAssetNotFound_def
  ErrBaseUIDNotInformed_def ErrQuoteUIDNotInformed_def ErrInvalidTickSize_def
  ErrOrderBookExists_def ErrInvalidAssets_def ErrNotEnoughAmountIn_def ErrNotEnoughAmountOut_def
  ErrPoolShouldHave2Assets_def ErrAddLiquidityHasMaxOf2Assets_def ErrTimeFrom_def
  ErrAssetNotFoundInPool_def ErrNotEnoughLP_def ErrAssetBondMissingFields_def
  ErrBigIntNotValidPercentage_def ErrInvalidTradeType_def ErrPoolUIDOrOrderBookIDMustBeInformed_def
  ErrAssetIDMustBeInformed_def ErrAmountMustBePositive_def ErrFromMustBeSmallerThanTo_def
  ErrResolutionHigherThanToMinusFrom_def ErrNoValidSwapPath_def ErrSwapInputInNil_def
  ErrVolumeNotFound_def ErrIsInNotFound_def ErrInvalidInput_def ErrBorrowLimit_def
  ErrInvalidPoolType_def ErrInvalidLimitPrice_def ErrLiquidationIneligible_def
  ErrLiquidationLenZero_def ErrPriceMustBePositive_def ErrPriceMustBeGTEThanOrderBookTickSize_def
  ErrInsufficientBalance_def ErrReadNotAllowed_def ErrWriteNotAllowed_def
  ErrAssetIDMustNotContainHyphen_def ErrValueMustBeExpressedAsInteger_def
  ErrCannotChangeOrderType_def ErrInvalidInAssetSell_def ErrInvalidOutAssetSell_def
  ErrOrderBookIDAssetMismatch_def ErrInvalidInAssetBuy_def ErrInvalidOutAssetBuy_def
  ErrOrderMissingUserID_def ErrOrderRequestValidationFailed_def ErrOrderAmendCannotChangeAssets_def
  ErrOrderNotFound_def ErrOrderAmendCannotChangeLeverage_def ErrOrderContainsInvalidOrderType_def
  ErrPoolAssetsMismatch_def ErrInvalidOrderType_def ErrAmountCannotBeZero_def
  ErrBaseAssetMismatch_def

definition error_variables :: "error list" where
  "error_variables = [
     ErrNotImplemented, ErrUserAccessDenied, ErrApiKeyNotFound, ErrAssetNotFound,
     ErrBaseUIDNotInformed, ErrQuoteUIDNotInformed, ErrInvalidTickSize, ErrOrderBookExists,
     ErrInvalidAssets, ErrNotEnoughAmountIn, ErrNotEnoughAmountOut, ErrPoolShouldHave2Assets,
     ErrAddLiquidityHasMaxOf2Assets, ErrTimeFrom, ErrAssetNotFoundInPool, ErrNotEnoughLP,
     ErrAssetBondMissingFields, ErrBigIntNotValidPercentage, ErrInvalidTradeType,
     ErrPoolUIDOrOrderBookIDMustBeInformed, ErrAssetIDMustBeInformed, ErrAmountMustBePositive,
     ErrFromMustBeSmallerThanTo, ErrResolutionHigherThanToMinusFrom, ErrNoValidSwapPath,
     ErrSwapInputInNil, ErrVolumeNotFound, ErrIsInNotFound, ErrInvalidInput, ErrBorrowLimit,
     ErrInvalidPoolType, ErrInvalidLimitPrice, ErrLiquidationIneligible, ErrLiquidationLenZero,
     ErrPriceMustBePositive, ErrPriceMustBeGTEThanOrderBookTickSize, ErrInsufficientBalance,
     ErrReadNotAllowed, ErrWriteNotAllowed, ErrAssetIDMustNotContainHyphen,
     ErrValueMustBeExpressedAsInteger, ErrCannotChangeOrderType, ErrInvalidInAssetSell,
     ErrInvalidOutAssetSell, ErrOrderBookIDAssetMismatch, ErrInvalidInAssetBuy,
     ErrInvalidOutAssetBuy, ErrOrderMissingUserID, ErrOrderRequestValidationFailed,
     ErrOrderAmendCannotChangeAssets, ErrOrderNotFound, ErrOrderAmendCannotChangeLeverage,
     ErrOrderContainsInvalidOrderType, ErrPoolAssetsMismatch, ErrInvalidOrderType,
     ErrAmountCannotBeZero, ErrBaseAssetMismatch]"

lemma Is_Wrap [simp]: "Is (Wrap t e m) t' = (t = t')"
  by (simp add: Wrap_def)

lemma Is_New [simp]: "Is (New t m) t' = (t = t')"
  by (simp add: New_def)

lemma Is_Data [simp]: "Is (Data m) t = (t = InvalidDataErr)"
  by (auto simp: Data_def)

text \<open>Every error variable has one of the seven types, and no two have the same text.\<close>

lemma error_variables_typed: "list_all (\<lambda>e. \<exists>t \<in> set all_error_types. Is e t) error_variables"
  by (simp add: error_variables_def error_variable_defs all_error_types_def)

lemma error_variables_distinct: "distinct (map Error error_variables)"
  by code_simp

lemma distinct_error_types: "distinct all_error_types"
  by (simp add: all_error_types_def error_type_defs)

text \<open>The chain of causes below an error, outermost first.\<close>

fun chain :: "error \<Rightarrow> error list" where
  "chain (TypedError t e) = TypedError t e # chain e"
| "chain (WrapError m e) = WrapError m e # chain e"
| "chain e = [e]"

lemma chain_step: "Unwrap e = Some e' \<Longrightarrow> chain e = e # chain e'"
  by (cases e) auto

lemma Error_Wrap: "Error (Wrap t e m) = m @ '': '' @ Error e"
  by (simp add: Wrap_def)

end
