(* ===== verification/SafeMath.thy ===== *)
theory SafeMath
  imports GoErrors
begin

text \<open>
  \<open>src/math/safemath.go\<close>: checked arithmetic on \<open>uint64\<close>, over the functions \<open>Add64\<close>, \<open>Sub64\<close>,
  \<open>Mul64\<close> and \<open>Div64\<close> of \<open>math/bits\<close>.

  The locale \<open>checked_op\<close> is the contract the callers rely on: a checked operation returns the
  exact result when it fits into 64 bits and its own error otherwise. The three operations are
  interpretations of it, and the ledger and pool theories use the laws proved in it.
\<close>

section \<open>Package math/bits\<close>

definition Add64 :: "uint64 \<Rightarrow> uint64 \<Rightarrow> uint64 \<Rightarrow> uint64 \<times> uint64" where
  "Add64 x y carry =
     (x + y + carry, if uint x + uint y + uint carry \<ge> 2 ^ 64 then 1 else 0)"

definition Sub64 :: "uint64 \<Rightarrow> uint64 \<Rightarrow> uint64 \<Rightarrow> uint64 \<times> uint64" where
  "Sub64 x y borrow = (x - y - borrow, if uint x < uint y + uint borrow then 1 else 0)"

definition Mul64 :: "uint64 \<Rightarrow> uint64 \<Rightarrow> uint64 \<times> uint64" where
  "Mul64 x y = (of_int (uint x * uint y div 2 ^ 64), x * y)"

text \<open>\<open>Div64\<close> panics (\<open>None\<close>) when the divisor is zero or the quotient does not fit.\<close>

definition Div64 :: "uint64 \<Rightarrow> uint64 \<Rightarrow> uint64 \<Rightarrow> (uint64 \<times> uint64) option" where
  "Div64 hi lo y =
     (if y = 0 \<or> y \<le> hi then None
      else let n = uint hi * 2 ^ 64 + uint lo
        in Some (of_int (n div uint y), of_int (n mod uint y)))"

section \<open>Checked operations\<close>

definition ErrOverflowAdd :: error where
  "ErrOverflowAdd = ErrorString ''integer overflow in addition''"
definition ErrOverflowMul :: error where
  "ErrOverflowMul = ErrorString ''integer overflow in multiplication''"
definition ErrOverflowSub :: error where
  "ErrOverflowSub = ErrorString ''integer overflow in subtraction''"
definition ErrDivByZero :: error where
  "ErrDivByZero = ErrorString ''divide by zero''"

definition CheckedAddU64 :: "uint64 \<Rightarrow> uint64 \<Rightarrow> error + uint64" where
  "CheckedAddU64 a b =
     (let (sum, carryOut) = Add64 a b 0
      in if carryOut = 1 then Inl ErrOverflowAdd else Inr sum)"

definition CheckedMulU64 :: "uint64 \<Rightarrow> uint64 \<Rightarrow> error + uint64" where
  "CheckedMulU64 a b =
     (let (hi, lo) = Mul64 a b
      in if hi > 0 then Inl ErrOverflowMul else Inr lo)"

definition CheckedSubU64 :: "uint64 \<Rightarrow> uint64 \<Rightarrow> error + uint64" where
  "CheckedSubU64 a b =
     (let (result, borrow) = Sub64 a b 0
      in if borrow = 1 then Inl ErrOverflowSub else Inr result)"

definition CheckedSubU64ToZero :: "uint64 \<Rightarrow> uint64 \<Rightarrow> uint64 \<times> uint64" where
  "CheckedSubU64ToZero a b = (if a < b then (0, a) else (a - b, b))"

text \<open>The outer option is a panic of \<open>Div64\<close>; \<open>CheckedDivU64_total\<close> shows it never happens.\<close>

definition CheckedDivU64 :: "uint64 \<Rightarrow> uint64 \<Rightarrow> (error + uint64) option" where
  "CheckedDivU64 a b =
     (if b = 0 then Some (Inl ErrDivByZero)
      else case Div64 0 a b of None \<Rightarrow> None | Some (result, _) \<Rightarrow> Some (Inr result))"

section \<open>The contract of a checked operation\<close>

locale checked_op =
  fixes chk :: "uint64 \<Rightarrow> uint64 \<Rightarrow> error + uint64"
    and exact :: "int \<Rightarrow> int \<Rightarrow> int"
    and overflow :: error
  assumes in_range: "0 \<le> exact (uint a) (uint b) \<Longrightarrow> exact (uint a) (uint b) < 2 ^ 64 \<Longrightarrow>
      chk a b = Inr (of_int (exact (uint a) (uint b)))"
    and out_of_range: "\<not> (0 \<le> exact (uint a) (uint b) \<and> exact (uint a) (uint b) < 2 ^ 64) \<Longrightarrow>
      chk a b = Inl overflow"
begin

lemma ok_iff:
  "is_ok (chk a b) \<longleftrightarrow> 0 \<le> exact (uint a) (uint b) \<and> exact (uint a) (uint b) < 2 ^ 64"
  using in_range [of a b] out_of_range [of a b] by (metis is_ok_simps)

lemma Inr_iff: "chk a b = Inr c \<longleftrightarrow> uint c = exact (uint a) (uint b)"
proof (cases "0 \<le> exact (uint a) (uint b) \<and> exact (uint a) (uint b) < 2 ^ 64")
  case True
  then show ?thesis
    using in_range [of a b] of_int_eq_iff_64 [of "exact (uint a) (uint b)" c] by auto
next
  case False
  then show ?thesis
    using out_of_range [of a b] uint_lt_64 [of c] uint_ge_0 [of c] by (metis Inl_Inr_False)
qed

lemma Inl_iff:
  "chk a b = Inl e \<longleftrightarrow>
     e = overflow \<and> \<not> (0 \<le> exact (uint a) (uint b) \<and> exact (uint a) (uint b) < 2 ^ 64)"
  using in_range [of a b] out_of_range [of a b] by (metis Inl_Inr_False sum.inject(1))

end

interpretation add: checked_op CheckedAddU64 "(+)" ErrOverflowAdd
  by unfold_locales (auto simp: CheckedAddU64_def Add64_def)

interpretation sub: checked_op CheckedSubU64 "(-)" ErrOverflowSub
proof
  fix a b :: uint64
  show "CheckedSubU64 a b = Inl ErrOverflowSub"
    if "\<not> (0 \<le> uint a - uint b \<and> uint a - uint b < 2 ^ 64)"
    using that uint_lt_64 [of a] uint_ge_0 [of b]
    by (cases "uint a < uint b") (auto simp: CheckedSubU64_def Sub64_def)
qed (simp add: CheckedSubU64_def Sub64_def)

lemma Mul64_hi_zero: "fst (Mul64 a b) = 0 \<longleftrightarrow> uint a * uint b < 2 ^ 64"
proof -
  have "uint a * uint b < 2 ^ 64 * 2 ^ 64"
    using uint_lt_64 [of a] uint_lt_64 [of b] by (intro mult_strict_mono) auto
  then have "uint a * uint b div 2 ^ 64 < 2 ^ 64"
    by (simp add: div_less_iff_less_mult)
  then have "fst (Mul64 a b) = 0 \<longleftrightarrow> uint a * uint b div 2 ^ 64 = 0"
    unfolding Mul64_def fst_conv
    by (subst of_int_eq_iff_64) (auto simp: pos_imp_zdiv_nonneg_iff)
  then show ?thesis
    using mult_nonneg_nonneg [OF uint_ge_0 [of a] uint_ge_0 [of b]]
    by (auto simp: zdiv_eq_0_iff)
qed

interpretation mul: checked_op CheckedMulU64 "(*)" ErrOverflowMul
proof
  fix a b :: uint64
  have r: "CheckedMulU64 a b = (if uint a * uint b < 2 ^ 64 then Inr (a * b) else Inl ErrOverflowMul)"
    using Mul64_hi_zero [of a b]
    by (auto simp: CheckedMulU64_def Mul64_def word_neq_0_conv [symmetric] simp del: word_neq_0_conv)
  show "CheckedMulU64 a b = Inr (of_int (uint a * uint b))" if "uint a * uint b < 2 ^ 64"
    using that by (simp add: r)
  show "CheckedMulU64 a b = Inl ErrOverflowMul"
    if "\<not> (0 \<le> uint a * uint b \<and> uint a * uint b < 2 ^ 64)"
    using that by (simp add: r)
qed

lemma CheckedDivU64_eq:
  "CheckedDivU64 a b = Some (if b = 0 then Inl ErrDivByZero else Inr (a div b))"
proof (cases "b = 0")
  case True
  then show ?thesis by (simp add: CheckedDivU64_def)
next
  case False
  then have "\<not> b \<le> 0" by simp
  with False show ?thesis
    by (simp add: CheckedDivU64_def Div64_def word_div_def Let_def)
qed

lemma CheckedSubU64_cases:
  "CheckedSubU64 a b = (if a < b then Inl ErrOverflowSub else Inr (a - b))"
  by (simp add: CheckedSubU64_def Sub64_def word_less_alt)

lemma CheckedAddU64_cases:
  "CheckedAddU64 a b = (if uint a + uint b \<ge> 2 ^ 64 then Inl ErrOverflowAdd else Inr (a + b))"
  by (simp add: CheckedAddU64_def Add64_def)

end
