(* ===== verification/GoFloat.thy ===== *)
theory GoFloat
  imports Prelude "HOL-Library.Log_Nat"
begin

text \<open>
  Go's binary floating point, as the repository uses it: \<open>float64\<close> and \<open>math/big.Float\<close>, both with
  rounding to nearest, ties to even.

  A value is NaN, a signed infinity, a signed zero or a nonzero rational. Every operation computes
  the exact rational and rounds it once: \<open>rnd p\<close> to \<open>p\<close> significant bits for a \<open>big.Float\<close>
  (whose 32-bit exponent range no value of this program approaches), \<open>rnd64\<close> to 53 bits with
  the exponent range of \<open>float64\<close>, subnormals and overflow included.

  The lemmas give what the components need of rounding: it is monotone, keeps the sign, is exact on
  short integers, and errs by at most half a unit in the last place.
\<close>

section \<open>Rounding rationals\<close>

text \<open>The exponent of a positive rational: \<open>2 powi ilog2 q \<le> q < 2 powi (ilog2 q + 1)\<close>.\<close>

definition ilog2 :: "rat \<Rightarrow> int" where
  "ilog2 q = (if 1 \<le> q then bitlen \<lfloor>q\<rfloor> - 1 else - bitlen (\<lceil>1 / q\<rceil> - 1))"

text \<open>Round to the nearest integer, ties to even.\<close>

definition rne :: "rat \<Rightarrow> int" where
  "rne q = (let f = \<lfloor>q\<rfloor>; r = q - of_int f
     in if r < 1 / 2 then f else if r > 1 / 2 then f + 1 else if even f then f else f + 1)"

text \<open>Round to a multiple of \<open>2 powi e\<close>.\<close>

definition round_at :: "int \<Rightarrow> rat \<Rightarrow> rat" where
  "round_at e q = of_int (rne (q * 2 powi (- e))) * 2 powi e"

definition rnd :: "nat \<Rightarrow> rat \<Rightarrow> rat" where
  "rnd p q = (if q = 0 then 0 else round_at (ilog2 \<bar>q\<bar> - (int p - 1)) q)"

definition rnd64 :: "rat \<Rightarrow> rat" where
  "rnd64 q = (if q = 0 then 0 else round_at (max (ilog2 \<bar>q\<bar> - 52) (- 1074)) q)"

lemma powi2_less_iff [simp]: "(2 :: rat) powi a < 2 powi b \<longleftrightarrow> a < b"
  using power_int_strict_increasing [of a b "2 :: rat"] power_int_increasing [of b a "2 :: rat"]
  by linarith

lemma powi2_le_iff [simp]: "(2 :: rat) powi a \<le> 2 powi b \<longleftrightarrow> a \<le> b"
  by (simp flip: not_less)

lemma bitlen_pos: "0 < n \<Longrightarrow> 0 < bitlen n"
  using bitlen_eq_zero_iff [of n] bitlen_nonneg [of n] by linarith

lemma ilog2_le: "0 < q \<Longrightarrow> 2 powi ilog2 q \<le> q"
proof (cases "1 \<le> q")
  case True
  then have f: "0 < \<lfloor>q\<rfloor>" by simp
  then have "0 < bitlen \<lfloor>q\<rfloor>" by (rule bitlen_pos)
  then have "(2 :: rat) powi ilog2 q = of_int (2 ^ nat (bitlen \<lfloor>q\<rfloor> - 1))"
    using True by (simp add: ilog2_def power_int_def)
  also have "\<dots> \<le> of_int \<lfloor>q\<rfloor>"
    using bitlen_bounds [OF f] by (simp only: of_int_le_iff)
  also have "\<dots> \<le> q" by simp
  finally show ?thesis .
next
  case False
  assume q: "0 < q"
  with False have "1 < 1 / q" by simp
  then have c: "1 < \<lceil>1 / q\<rceil>" by linarith
  define b where "b = bitlen (\<lceil>1 / q\<rceil> - 1)"
  have "0 \<le> b" by (simp add: b_def bitlen_nonneg)
  have "1 / q \<le> of_int (\<lceil>1 / q\<rceil> - 1) + 1"
    by simp
  also have "\<dots> \<le> of_int (2 ^ nat b)"
    using bitlen_bounds [of "\<lceil>1 / q\<rceil> - 1"] c
    by (metis b_def add_le_cancel_right add1_zle_eq diff_gt_0_iff_gt of_int_1 of_int_add of_int_le_iff)
  finally have "1 / q \<le> 2 ^ nat b" by simp
  then have "1 / 2 ^ nat b \<le> q"
    using q by (simp add: field_simps)
  then show ?thesis
    using False \<open>0 \<le> b\<close>
    by (simp add: ilog2_def b_def [symmetric] power_int_minus_divide power_int_nonneg_exp)
qed

lemma less_ilog2: "0 < q \<Longrightarrow> q < 2 powi (ilog2 q + 1)"
proof (cases "1 \<le> q")
  case True
  then have f: "0 < \<lfloor>q\<rfloor>" by simp
  have "q < of_int (\<lfloor>q\<rfloor> + 1)" by linarith
  also have "\<dots> \<le> of_int (2 ^ nat (bitlen \<lfloor>q\<rfloor>))"
    using bitlen_bounds [OF f] by (simp only: of_int_le_iff) linarith
  finally show ?thesis
    using True bitlen_nonneg [of "\<lfloor>q\<rfloor>"] by (simp add: ilog2_def power_int_def)
next
  case False
  assume q: "0 < q"
  with False have "1 < 1 / q" by simp
  then have c: "0 < \<lceil>1 / q\<rceil> - 1" by linarith
  define b where "b = bitlen (\<lceil>1 / q\<rceil> - 1)"
  have "0 < b" using c unfolding b_def by (rule bitlen_pos)
  have "(of_int (2 ^ nat (b - 1)) :: rat) \<le> of_int (\<lceil>1 / q\<rceil> - 1)"
    using bitlen_bounds [OF c] by (simp only: of_int_le_iff b_def)
  also have "\<dots> < 1 / q" by linarith
  finally have "2 ^ nat (b - 1) < 1 / q" by simp
  then have "q < 1 / 2 ^ nat (b - 1)"
    using q by (simp add: field_simps)
  also have "\<dots> = 2 powi (ilog2 q + 1)"
  proof -
    have "ilog2 q + 1 = - (b - 1)" using False by (simp add: ilog2_def b_def)
    then show ?thesis
      using \<open>0 < b\<close> by (auto simp: power_int_def field_simps)
  qed
  finally show ?thesis .
qed

lemma ilog2_unique: "2 powi e \<le> q \<Longrightarrow> q < 2 powi (e + 1) \<Longrightarrow> ilog2 q = e"
proof -
  assume le: "2 powi e \<le> q" and lt: "q < 2 powi (e + 1)"
  have q: "0 < q" using le by (rule order_less_le_trans [rotated]) simp
  have "2 powi e < (2 :: rat) powi (ilog2 q + 1)"
    using le less_ilog2 [OF q] by linarith
  moreover have "2 powi ilog2 q < (2 :: rat) powi (e + 1)"
    using lt ilog2_le [OF q] by linarith
  ultimately show ?thesis by (simp add: powi2_less_iff)
qed

lemma ilog2_mono: "0 < x \<Longrightarrow> x \<le> y \<Longrightarrow> ilog2 x \<le> ilog2 y"
proof -
  assume x: "0 < x" and le: "x \<le> y"
  have "2 powi ilog2 x < (2 :: rat) powi (ilog2 y + 1)"
    using ilog2_le [OF x] less_ilog2 [of y] x le by linarith
  then show ?thesis by simp
qed

subsection \<open>Rounding to an integer\<close>

lemma rne_error: "\<bar>of_int (rne q) - q\<bar> \<le> 1 / 2"
proof -
  have "of_int \<lfloor>q\<rfloor> \<le> q" "q < of_int \<lfloor>q\<rfloor> + 1" by linarith+
  then show ?thesis by (auto simp: rne_def Let_def)
qed

lemma rne_of_int [simp]: "rne (of_int n) = n"
  by (simp add: rne_def)

lemma rne_floor_or_ceil: "rne q = \<lfloor>q\<rfloor> \<or> rne q = \<lfloor>q\<rfloor> + 1"
  by (simp add: rne_def Let_def)

lemma rne_mono: "x \<le> y \<Longrightarrow> rne x \<le> rne y"
proof -
  assume le: "x \<le> y"
  then have "\<lfloor>x\<rfloor> \<le> \<lfloor>y\<rfloor>" by (rule floor_mono)
  then consider "\<lfloor>x\<rfloor> = \<lfloor>y\<rfloor>" | "\<lfloor>x\<rfloor> + 1 \<le> \<lfloor>y\<rfloor>" by linarith
  then show ?thesis
  proof cases
    case 1
    with le show ?thesis by (auto simp: rne_def Let_def)
  next
    case 2
    with rne_floor_or_ceil [of x] rne_floor_or_ceil [of y] show ?thesis by linarith
  qed
qed

lemma rne_minus: "rne (- q) = - rne q"
proof (cases "q = of_int \<lfloor>q\<rfloor>")
  case True
  then show ?thesis by (metis of_int_minus rne_of_int)
next
  case False
  then have lt: "of_int \<lfloor>q\<rfloor> < q" using of_int_floor_le [of q] by linarith
  have c: "\<lfloor>- q\<rfloor> = - \<lfloor>q\<rfloor> - 1"
  proof (rule floor_unique)
    show "of_int (- \<lfloor>q\<rfloor> - 1) \<le> - q"
      using floor_correct [of q] by simp
    show "- q < of_int (- \<lfloor>q\<rfloor> - 1) + 1"
      using lt by simp
  qed
  consider "q - of_int \<lfloor>q\<rfloor> < 1 / 2" | "q - of_int \<lfloor>q\<rfloor> = 1 / 2" | "1 / 2 < q - of_int \<lfloor>q\<rfloor>"
    by linarith
  then show ?thesis
    unfolding rne_def Let_def c by cases (auto simp: field_simps)
qed

lemma rne_nonneg: "0 \<le> q \<Longrightarrow> 0 \<le> rne q"
  using rne_mono [of 0 q] rne_of_int [of 0] by simp

subsection \<open>Rounding to a multiple of a power of two\<close>

lemma round_at_mono: "x \<le> y \<Longrightarrow> round_at e x \<le> round_at e y"
  unfolding round_at_def by (intro mult_right_mono) (simp_all add: rne_mono mult_right_mono)

lemma round_at_minus: "round_at e (- q) = - round_at e q"
  by (simp add: round_at_def rne_minus)

lemma round_at_nonneg: "0 \<le> q \<Longrightarrow> 0 \<le> round_at e q"
  by (simp add: round_at_def rne_nonneg)

lemma round_at_multiple: "round_at e (of_int m * 2 powi e) = of_int m * 2 powi e"
proof -
  have "(2 :: rat) powi e * 2 powi (- e) = 1"
    by (simp add: power_int_minus field_simps)
  then show ?thesis by (simp add: round_at_def mult.assoc)
qed

lemma round_at_powi: "e \<le> k \<Longrightarrow> round_at e (2 powi k) = 2 powi k"
proof -
  assume "e \<le> k"
  then have "(2 :: rat) powi (k - e) = of_int (2 ^ nat (k - e))"
    by (simp add: power_int_nonneg_exp)
  moreover have "(2 :: rat) powi k = 2 powi (k - e) * 2 powi e"
    by (simp flip: power_int_add)
  ultimately show ?thesis by (metis round_at_multiple)
qed

lemma round_at_error: "\<bar>round_at e q - q\<bar> \<le> 2 powi e / 2"
proof -
  have u: "q = q * 2 powi (- e) * 2 powi e"
    by (simp add: power_int_minus field_simps)
  have "\<bar>round_at e q - q\<bar> = \<bar>of_int (rne (q * 2 powi (- e))) - q * 2 powi (- e)\<bar> * 2 powi e"
    by (subst (2) u, unfold round_at_def) (simp add: abs_mult flip: left_diff_distrib)
  also have "\<dots> \<le> 1 / 2 * 2 powi e"
    by (intro mult_right_mono rne_error) simp
  finally show ?thesis by simp
qed

subsection \<open>Rounding to p bits and to float64\<close>

text \<open>
  Both roundings choose the quantum from the magnitude. The common argument: the quantum is monotone
  in the exponent, and where it changes both neighbouring powers of two are multiples of it.
\<close>

definition rndq :: "(int \<Rightarrow> int) \<Rightarrow> rat \<Rightarrow> rat" where
  "rndq g q = (if q = 0 then 0 else round_at (g (ilog2 \<bar>q\<bar>)) q)"

definition quantum :: "(int \<Rightarrow> int) \<Rightarrow> bool" where
  "quantum g \<longleftrightarrow> (\<forall>a b. a < b \<longrightarrow> g a = g b \<or> (g a \<le> b \<and> g b \<le> b))"

lemma rnd_rndq: "rnd p = rndq (\<lambda>e. e - (int p - 1))"
  by (simp add: fun_eq_iff rnd_def rndq_def)

lemma rnd64_rndq: "rnd64 = rndq (\<lambda>e. max (e - 52) (- 1074))"
  by (simp add: fun_eq_iff rnd64_def rndq_def)

lemma quantum_rnd: "0 < p \<Longrightarrow> quantum (\<lambda>e. e - (int p - 1))"
  by (auto simp: quantum_def)

lemma quantum_rnd64: "quantum (\<lambda>e. max (e - 52) (- 1074))"
  by (auto simp: quantum_def max_def)

lemma rndq_0 [simp]: "rndq g 0 = 0"
  by (simp add: rndq_def)

lemma rndq_minus: "rndq g (- q) = - rndq g q"
  by (simp add: rndq_def round_at_minus)

lemma rndq_nonneg: "0 \<le> q \<Longrightarrow> 0 \<le> rndq g q"
  by (simp add: rndq_def round_at_nonneg)

lemma rndq_mono_pos:
  assumes g: "quantum g" and x: "0 < x" and le: "x \<le> y"
  shows "rndq g x \<le> rndq g y"
proof (cases "g (ilog2 x) = g (ilog2 y)")
  case True
  with x le show ?thesis by (simp add: rndq_def round_at_mono)
next
  case False
  with ilog2_mono [OF x le] have lt: "ilog2 x < ilog2 y" by (cases "ilog2 x = ilog2 y") auto
  with g False have gx: "g (ilog2 x) \<le> ilog2 y" and gy: "g (ilog2 y) \<le> ilog2 y"
    by (auto simp: quantum_def)
  have "(2 :: rat) powi (ilog2 x + 1) \<le> 2 powi ilog2 y" using lt by simp
  then have "x \<le> 2 powi ilog2 y" using less_ilog2 [OF x] by linarith
  then have "rndq g x \<le> round_at (g (ilog2 x)) (2 powi ilog2 y)"
    using x by (simp add: rndq_def round_at_mono)
  also have "\<dots> = 2 powi ilog2 y" by (rule round_at_powi [OF gx])
  also have "\<dots> = round_at (g (ilog2 y)) (2 powi ilog2 y)" by (rule round_at_powi [OF gy, symmetric])
  also have "\<dots> \<le> rndq g y"
    using x le ilog2_le [of y] by (simp add: rndq_def round_at_mono)
  finally show ?thesis .
qed

lemma rndq_mono:
  assumes g: "quantum g" and le: "x \<le> y"
  shows "rndq g x \<le> rndq g y"
proof -
  consider "0 < x" | "x \<le> 0" "0 \<le> y" | "y < 0" by linarith
  then show ?thesis
  proof cases
    case 1
    then show ?thesis using rndq_mono_pos [OF g] le by blast
  next
    case 2
    then show ?thesis
      using rndq_nonneg [of "- x" g] rndq_nonneg [of y g] by (simp add: rndq_minus)
  next
    case 3
    then show ?thesis
      using rndq_mono_pos [OF g, of "- y" "- x"] le by (simp add: rndq_minus)
  qed
qed

lemma rndq_multiple:
  assumes "q = of_int m * 2 powi g (ilog2 \<bar>q\<bar>)"
  shows "rndq g q = q"
  using assms round_at_multiple [of "g (ilog2 \<bar>q\<bar>)" m] by (auto simp: rndq_def)

text \<open>Integers of at most \<open>p\<close> bits are kept.\<close>

lemma rndq_of_int:
  assumes "g (ilog2 (of_int \<bar>n\<bar>)) \<le> 0"
  shows "rndq g (of_int n) = of_int n"
proof (rule rndq_multiple)
  let ?e = "g (ilog2 \<bar>of_int n\<bar>)"
  have "?e \<le> 0" using assms by (simp only: of_int_abs)
  then have "(2 :: rat) ^ nat (- ?e) = 2 powi (- ?e)"
    by (simp add: power_int_nonneg_exp)
  then have "(of_int n :: rat) = of_int (n * 2 ^ nat (- ?e)) * 2 powi ?e"
    by (simp flip: power_int_add add: mult.assoc)
  then show "(of_int n :: rat) = of_int (n * 2 ^ nat (- ?e)) * 2 powi ?e" .
qed

lemma ilog2_of_int_less:
  assumes "\<bar>n\<bar> < 2 ^ k" "n \<noteq> 0"
  shows "ilog2 (of_int \<bar>n\<bar>) < int k"
proof -
  have "2 powi ilog2 (of_int \<bar>n\<bar>) \<le> (of_int \<bar>n\<bar> :: rat)"
    using assms by (intro ilog2_le) simp
  also have "\<dots> < of_int (2 ^ k)" using assms(1) by (simp only: of_int_less_iff)
  also have "\<dots> = 2 powi int k" by simp
  finally show ?thesis by (simp only: powi2_less_iff)
qed

lemma rnd_of_int:
  assumes "\<bar>n\<bar> \<le> 2 ^ p" "0 < p"
  shows "rnd p (of_int n) = of_int n"
proof (cases "\<bar>n\<bar> = 2 ^ p")
  case True
  have "ilog2 (2 powi int p) = int p" by (rule ilog2_unique) (simp_all only: powi2_less_iff powi2_le_iff)
  then have "round_at (int p - (int p - 1)) (2 powi int p) = 2 powi int p"
    using assms(2) by (intro round_at_powi) simp
  then have "rnd p (2 powi int p) = 2 powi int p"
    using \<open>ilog2 (2 powi int p) = int p\<close> by (simp add: rnd_def)
  then have pos: "rnd p (of_int (2 ^ p)) = of_int (2 ^ p)" by simp
  consider "n = 2 ^ p" | "n = - (2 ^ p)" using True by linarith
  then show ?thesis
  proof cases
    case 2
    then show ?thesis using pos by (simp only: of_int_minus rnd_rndq rndq_minus)
  qed (use pos in simp)
next
  case False
  then show ?thesis
    using ilog2_of_int_less [of n p] assms
    by (cases "n = 0") (auto simp: rnd_rndq intro!: rndq_of_int)
qed

lemma rnd64_of_int:
  assumes "\<bar>n\<bar> < 2 ^ 53"
  shows "rnd64 (of_int n) = of_int n"
  using ilog2_of_int_less [OF assms]
  by (cases "n = 0") (auto simp: rnd64_rndq intro!: rndq_of_int)

lemma rnd_0 [simp]: "rnd p 0 = 0"
  by (simp add: rnd_def)

lemma rnd64_0 [simp]: "rnd64 0 = 0"
  by (simp add: rnd64_def)

lemma rnd_mono: "0 < p \<Longrightarrow> x \<le> y \<Longrightarrow> rnd p x \<le> rnd p y"
  unfolding rnd_rndq by (rule rndq_mono [OF quantum_rnd])

lemma rnd64_mono: "x \<le> y \<Longrightarrow> rnd64 x \<le> rnd64 y"
  unfolding rnd64_rndq by (rule rndq_mono [OF quantum_rnd64])

lemma rnd_nonneg: "0 \<le> x \<Longrightarrow> 0 \<le> rnd p x"
  unfolding rnd_rndq by (rule rndq_nonneg)

lemma rnd64_nonneg: "0 \<le> x \<Longrightarrow> 0 \<le> rnd64 x"
  unfolding rnd64_rndq by (rule rndq_nonneg)

lemma rnd_minus: "rnd p (- x) = - rnd p x"
  unfolding rnd_rndq by (rule rndq_minus)

lemma rnd64_minus: "rnd64 (- x) = - rnd64 x"
  unfolding rnd64_rndq by (rule rndq_minus)

text \<open>Relative error of half a unit in the last place.\<close>

lemma rnd_error: "\<bar>rnd p q - q\<bar> \<le> \<bar>q\<bar> * 2 powi (- int p)"
proof (cases "q = 0")
  case False
  have "\<bar>rnd p q - q\<bar> \<le> 2 powi (ilog2 \<bar>q\<bar> - (int p - 1)) / 2"
    using False round_at_error by (simp add: rnd_def)
  also have "\<dots> = 2 powi ilog2 \<bar>q\<bar> * 2 powi (- int p)"
  proof -
    have "(2 :: rat) powi ilog2 \<bar>q\<bar> * 2 powi (- int p) * 2 powi 1 = 2 powi (ilog2 \<bar>q\<bar> + - int p + 1)"
      by (simp only: power_int_add [OF disjI1, symmetric] zero_neq_numeral [symmetric] not_False_eq_True)
    then show ?thesis by (simp add: algebra_simps)
  qed
  also have "\<dots> \<le> \<bar>q\<bar> * 2 powi (- int p)"
    using False ilog2_le [of "\<bar>q\<bar>"] by (intro mult_right_mono) auto
  finally show ?thesis .
qed simp

lemma rnd_eq_0_iff: "0 < p \<Longrightarrow> rnd p q = 0 \<longleftrightarrow> q = 0"
proof -
  assume p: "0 < p"
  have "q = 0" if "rnd p q = 0"
  proof (rule ccontr)
    assume q: "q \<noteq> 0"
    have "\<bar>q\<bar> \<le> \<bar>q\<bar> * 2 powi (- int p)" using rnd_error [of p q] that by simp
    moreover have "(2 :: rat) powi (- int p) < 2 powi 0" using p by (simp only: powi2_less_iff)
    ultimately show False using q by (simp add: mult_le_cancel_left1)
  qed
  then show ?thesis by auto
qed

subsection \<open>Values next to an integer\<close>

lemma rne_snap: "\<bar>q - of_int m\<bar> < 1 / 2 \<Longrightarrow> rne q = m"
proof -
  assume "\<bar>q - of_int m\<bar> < 1 / 2"
  then have "\<bar>of_int (rne q) - of_int m :: rat\<bar> < 1" using rne_error [of q] by linarith
  then have "\<bar>rne q - m\<bar> < 1" by linarith
  then show ?thesis by simp
qed

lemma powi2_cancel: "(2 :: rat) powi e * 2 powi (- e) = 1"
  by (simp add: power_int_minus field_simps)

lemma round_at_snap:
  assumes "\<bar>q - of_int m * 2 powi e\<bar> < 2 powi e / 2"
  shows "round_at e q = of_int m * 2 powi e"
proof -
  have "\<bar>q * 2 powi (- e) - of_int m\<bar> = \<bar>q - of_int m * 2 powi e\<bar> * 2 powi (- e)"
  proof -
    have "\<bar>q - of_int m * 2 powi e\<bar> * 2 powi (- e) = \<bar>(q - of_int m * 2 powi e) * 2 powi (- e)\<bar>"
      by (simp add: abs_mult)
    then show ?thesis using powi2_cancel [of e] by (simp add: left_diff_distrib mult.assoc)
  qed
  also have "\<dots> < 2 powi e / 2 * 2 powi (- e)"
    using assms by (intro mult_strict_right_mono) auto
  also have "\<dots> = 1 / 2" using powi2_cancel [of e] by simp
  finally show ?thesis by (simp add: round_at_def rne_snap)
qed

text \<open>A number up to \<open>2 ^ p\<close> lies on the grid of every float close to it.\<close>

lemma int_on_grid:
  assumes "0 < k" "k \<le> 2 ^ p" "1 < p" "0 < x" "\<bar>x - of_int k\<bar> \<le> of_int k * 2 powi (- int p - 4)"
  shows "\<exists>m. of_int k = of_int m * (2 :: rat) powi (ilog2 x - (int p - 1))"
proof -
  let ?t = "(2 :: rat) powi (- int p - 4)"
  let ?e = "ilog2 x - (int p - 1)"
  have t: "0 < ?t" by simp
  have k: "(0 :: rat) < of_int k" "of_int k \<le> (2 :: rat) ^ p"
    using assms(1,2) by (simp, metis of_int_le_iff of_int_numeral of_int_power)
  show ?thesis
  proof (cases "?e \<le> 0")
    case True
    then have "(2 :: rat) ^ nat (- ?e) = 2 powi (- ?e)" by (simp add: power_int_nonneg_exp)
    then have "of_int k = of_int (k * 2 ^ nat (- ?e)) * (2 :: rat) powi ?e"
      using powi2_cancel [of "- ?e"] by (simp add: mult.assoc)
    then show ?thesis ..
  next
    case False
    have pt: "(2 :: rat) ^ p * ?t = 1 / 16"
      using power_int_add [of "2 :: rat" "int p" "- int p - 4"] by (simp add: power_int_minus)
    have d: "of_int k * ?t \<le> 1 / 16" using mult_right_mono [OF k(2), of ?t] t pt by simp
    have "(2 :: rat) ^ p \<le> 2 powi ilog2 x" using False powi2_le_iff [of "int p" "ilog2 x"] by simp
    then have ge: "(2 :: rat) ^ p \<le> x" using ilog2_le [OF assms(4)] by linarith
    then have "(2 :: rat) ^ p < of_int k + 1" using assms(5) d by (auto simp: abs_le_iff)
    then have "(of_int (2 ^ p) :: rat) < of_int (k + 1)" by simp
    then have "2 ^ p < k + 1" by (simp only: of_int_less_iff)
    then have "k = 2 ^ p" using assms(2) by linarith
    moreover have "ilog2 x = int p"
    proof (rule ilog2_unique)
      have "(1 :: rat) \<le> 2 ^ p" by simp
      then have "x < 2 ^ p * 2" using assms(5) d k(2) unfolding abs_le_iff by linarith
      then show "x < 2 powi (int p + 1)" by (simp add: power_int_add)
    qed (use ge in simp)
    ultimately have "of_int k = of_int (2 ^ (p - 1)) * (2 :: rat) powi ?e"
      using assms(3) by (simp flip: power_Suc2)
    then show ?thesis ..
  qed
qed

lemma rnd_snap:
  assumes "0 < k" "k \<le> 2 ^ p" "1 < p" "\<bar>x - of_int k\<bar> \<le> of_int k * 2 powi (- int p - 4)"
  shows "rnd p x = of_int k"
proof -
  let ?t = "(2 :: rat) powi (- int p - 4)"
  let ?e = "ilog2 x - (int p - 1)"
  have t: "0 < ?t" "?t \<le> 1 / 32"
    using assms(3) order_trans [of ?t "2 powi (- 5)" "1 / 32"] powi2_le_iff [of "- int p - 4" "- 5"]
    by (simp_all add: power_int_minus)
  have k: "(0 :: rat) < of_int k" "of_int k \<le> (2 :: rat) ^ p"
    using assms(1,2) by (simp, metis of_int_le_iff of_int_numeral of_int_power)
  have kt: "of_int k * ?t \<le> of_int k * (1 / 32)" using t k by (intro mult_left_mono) auto
  then have x: "0 < x" "of_int k < 2 * x" using assms(4) k unfolding abs_le_iff by linarith+
  have close: "\<bar>x - of_int k\<bar> < 2 powi ?e / 2"
  proof -
    have "of_int k * ?t < 2 * x * ?t" using x(2) t(1) by (intro mult_strict_right_mono)
    also have "\<dots> \<le> 2 * 2 powi (ilog2 x + 1) * ?t"
      using less_ilog2 [OF x(1)] t(1) by (intro mult_right_mono) auto
    also have "\<dots> = 2 powi (1 + (ilog2 x + 1) + (- int p - 4))"
      by (subst power_int_add, simp, subst power_int_add, simp_all)
    also have "\<dots> \<le> 2 powi (ilog2 x - int p)" by (simp only: powi2_le_iff)
    also have "\<dots> = 2 powi ?e / 2"
      using power_int_add [of "2 :: rat" "ilog2 x - int p" 1] by (simp add: algebra_simps)
    finally show ?thesis using assms(4) by linarith
  qed
  obtain m where "of_int k = of_int m * (2 :: rat) powi ?e"
    using int_on_grid [OF assms(1-3) x(1) assms(4)] ..
  then show ?thesis using round_at_snap [of x m ?e] close x(1) by (simp add: rnd_def)
qed

end
