(* ===== verification/FloatOps.thy ===== *)
theory FloatOps
  imports GoFloat
begin

text \<open>
  The values and operations of \<open>float64\<close> and of \<open>math/big.Float\<close> over the rounding functions of
  \<open>GoFloat\<close>.

  A \<open>big.Float\<close> carries its precision: an operation with receiver \<open>z\<close> rounds to \<open>z\<close>'s precision,
  or to the larger of the operands' if \<open>z\<close>'s is 0. It has no NaN: where an operation has no result
  (\<open>0/0\<close>, \<open>Inf - Inf\<close>, \<open>0 * Inf\<close>) Go panics with \<open>ErrNaN\<close>. The value \<open>FNaN\<close> in a
  \<open>bigfloat\<close> stands for that panic; every operation passes it on, and the conversions to integers
  return \<open>None\<close> for it.
\<close>

datatype gofloat = FNaN | FInf bool | FZero bool | FFin rat

fun signbit :: "gofloat \<Rightarrow> bool" where
  "signbit FNaN = False"
| "signbit (FInf s) = s"
| "signbit (FZero s) = s"
| "signbit (FFin q) = (q < 0)"

fun fval :: "gofloat \<Rightarrow> rat" where
  "fval (FFin q) = q"
| "fval _ = 0"

fun finite_float :: "gofloat \<Rightarrow> bool" where
  "finite_float FNaN = False"
| "finite_float (FInf s) = False"
| "finite_float _ = True"

section \<open>Arithmetic for a given rounding\<close>

fun fneg :: "gofloat \<Rightarrow> gofloat" where
  "fneg FNaN = FNaN"
| "fneg (FInf s) = FInf (\<not> s)"
| "fneg (FZero s) = FZero (\<not> s)"
| "fneg (FFin q) = FFin (- q)"

fun fadd :: "(rat \<Rightarrow> gofloat) \<Rightarrow> gofloat \<Rightarrow> gofloat \<Rightarrow> gofloat" where
  "fadd rn FNaN y = FNaN"
| "fadd rn x FNaN = FNaN"
| "fadd rn (FInf s) (FInf t) = (if s = t then FInf s else FNaN)"
| "fadd rn (FInf s) y = FInf s"
| "fadd rn x (FInf t) = FInf t"
| "fadd rn (FZero s) (FZero t) = FZero (s \<and> t)"
| "fadd rn (FZero s) (FFin q) = rn q"
| "fadd rn (FFin p) (FZero t) = rn p"
| "fadd rn (FFin p) (FFin q) = (if p + q = 0 then FZero False else rn (p + q))"

definition fsub :: "(rat \<Rightarrow> gofloat) \<Rightarrow> gofloat \<Rightarrow> gofloat \<Rightarrow> gofloat" where
  "fsub rn x y = fadd rn x (fneg y)"

fun fmul :: "(rat \<Rightarrow> gofloat) \<Rightarrow> gofloat \<Rightarrow> gofloat \<Rightarrow> gofloat" where
  "fmul rn FNaN y = FNaN"
| "fmul rn x FNaN = FNaN"
| "fmul rn (FInf s) (FZero t) = FNaN"
| "fmul rn (FZero s) (FInf t) = FNaN"
| "fmul rn (FInf s) y = FInf (s \<noteq> signbit y)"
| "fmul rn x (FInf t) = FInf (signbit x \<noteq> t)"
| "fmul rn (FZero s) y = FZero (s \<noteq> signbit y)"
| "fmul rn x (FZero t) = FZero (signbit x \<noteq> t)"
| "fmul rn (FFin p) (FFin q) = rn (p * q)"

fun fdiv :: "(rat \<Rightarrow> gofloat) \<Rightarrow> gofloat \<Rightarrow> gofloat \<Rightarrow> gofloat" where
  "fdiv rn FNaN y = FNaN"
| "fdiv rn x FNaN = FNaN"
| "fdiv rn (FInf s) (FInf t) = FNaN"
| "fdiv rn (FZero s) (FZero t) = FNaN"
| "fdiv rn (FInf s) y = FInf (s \<noteq> signbit y)"
| "fdiv rn x (FInf t) = FZero (signbit x \<noteq> t)"
| "fdiv rn (FZero s) y = FZero (s \<noteq> signbit y)"
| "fdiv rn x (FZero t) = FInf (signbit x \<noteq> t)"
| "fdiv rn (FFin p) (FFin q) = rn (p / q)"

text \<open>Comparison: \<open>None\<close> when an operand is NaN; signed zeros are equal.\<close>

fun frank :: "gofloat \<Rightarrow> int" where
  "frank (FInf s) = (if s then - 1 else 1)"
| "frank _ = 0"

definition fcmp :: "gofloat \<Rightarrow> gofloat \<Rightarrow> int option" where
  "fcmp x y = (if x = FNaN \<or> y = FNaN then None
     else if frank x < frank y \<or> (frank x = frank y \<and> fval x < fval y) then Some (- 1)
     else if frank x = frank y \<and> fval x = fval y then Some 0
     else Some 1)"

definition flt :: "gofloat \<Rightarrow> gofloat \<Rightarrow> bool" where "flt x y = (fcmp x y = Some (- 1))"
definition feq :: "gofloat \<Rightarrow> gofloat \<Rightarrow> bool" where "feq x y = (fcmp x y = Some 0)"
definition fle :: "gofloat \<Rightarrow> gofloat \<Rightarrow> bool" where "fle x y = (flt x y \<or> feq x y)"

definition ftrunc :: "rat \<Rightarrow> int" where
  "ftrunc q = (if 0 \<le> q then \<lfloor>q\<rfloor> else \<lceil>q\<rceil>)"

lemma finite_cases: "finite_float x \<longleftrightarrow> (\<exists>s. x = FZero s) \<or> (\<exists>q. x = FFin q)"
  by (cases x) auto

lemma ftrunc_mono: "x \<le> y \<Longrightarrow> ftrunc x \<le> ftrunc y"
proof -
  assume le: "x \<le> y"
  consider "0 \<le> x" | "x < 0" "0 \<le> y" | "y < 0" by linarith
  then show ?thesis
  proof cases
    case 1 with le show ?thesis by (simp add: ftrunc_def floor_mono)
  next
    case 2
    have "\<lceil>x\<rceil> \<le> 0" using 2 by (simp add: ceiling_le_iff)
    moreover have "0 \<le> \<lfloor>y\<rfloor>" using 2 by simp
    ultimately have "\<lceil>x\<rceil> \<le> \<lfloor>y\<rfloor>" by (rule order_trans)
    with 2 show ?thesis by (simp add: ftrunc_def)
  next
    case 3 with le show ?thesis by (simp add: ftrunc_def ceiling_mono)
  qed
qed

lemma ftrunc_of_int [simp]: "ftrunc (of_int n) = n"
  by (simp add: ftrunc_def)

lemma ftrunc_nonneg: "0 \<le> q \<Longrightarrow> 0 \<le> ftrunc q"
  by (simp add: ftrunc_def)

lemma ftrunc_le: "0 \<le> q \<Longrightarrow> of_int (ftrunc q) \<le> q"
  by (simp add: ftrunc_def)

section \<open>float64\<close>

definition rn64 :: "rat \<Rightarrow> gofloat" where
  "rn64 q = (let r = rnd64 q
     in if r = 0 then FZero (q < 0) else if 2 ^ 1024 \<le> \<bar>r\<bar> then FInf (q < 0) else FFin r)"

definition F64 :: "rat \<Rightarrow> gofloat" where
  "F64 q = (if q = 0 then FZero False else rn64 q)"

definition f64_of_int :: "int \<Rightarrow> gofloat" where
  "f64_of_int i = F64 (of_int i)"

definition f64_add :: "gofloat \<Rightarrow> gofloat \<Rightarrow> gofloat" where "f64_add = fadd rn64"
definition f64_sub :: "gofloat \<Rightarrow> gofloat \<Rightarrow> gofloat" where "f64_sub = fsub rn64"
definition f64_mul :: "gofloat \<Rightarrow> gofloat \<Rightarrow> gofloat" where "f64_mul = fmul rn64"
definition f64_div :: "gofloat \<Rightarrow> gofloat \<Rightarrow> gofloat" where "f64_div = fdiv rn64"

lemmas f64_ops = f64_add_def f64_sub_def f64_mul_def f64_div_def

text \<open>
  Conversion to an unsigned integer truncates. Outside the range of the target type the result is
  implementation-specific in Go: it is the parameter \<open>oor\<close>.
\<close>

definition f64_to_uint64 :: "(gofloat \<Rightarrow> uint64) \<Rightarrow> gofloat \<Rightarrow> uint64" where
  "f64_to_uint64 oor x =
     (if finite_float x \<and> 0 \<le> ftrunc (fval x) \<and> ftrunc (fval x) < 2 ^ 64
      then of_int (ftrunc (fval x)) else oor x)"

lemma fval_rn64:
  "\<bar>rnd64 q\<bar> < 2 ^ 1024 \<Longrightarrow> finite_float (rn64 q) \<and> fval (rn64 q) = rnd64 q"
  by (auto simp: rn64_def Let_def)

lemma f64_of_int_exact:
  "\<bar>i\<bar> < 2 ^ 53 \<Longrightarrow> finite_float (f64_of_int i) \<and> fval (f64_of_int i) = of_int i"
proof -
  assume i: "\<bar>i\<bar> < 2 ^ 53"
  have "\<bar>of_int i :: rat\<bar> < of_int (2 ^ 1024)"
    using i by (simp only: of_int_abs [symmetric] of_int_less_iff)
      (rule order_less_le_trans, assumption, simp)
  then show ?thesis
    using i rnd64_of_int [OF i] fval_rn64 [of "of_int i"] by (simp add: f64_of_int_def F64_def)
qed

section \<open>math/big.Float\<close>

record bigfloat =
  bprec :: nat
  bval :: gofloat

definition rnbig :: "nat \<Rightarrow> rat \<Rightarrow> gofloat" where
  "rnbig p q = (let r = rnd p q in if r = 0 then FZero (q < 0) else FFin r)"

text \<open>\<open>big.NewFloat\<close> (53 bits), \<open>new(big.Float)\<close> and the setters on a fresh receiver.\<close>

definition NewFloat :: "gofloat \<Rightarrow> bigfloat" where
  "NewFloat f = \<lparr>bprec = 53, bval = f\<rparr>"

definition newBigFloat :: bigfloat where
  "newBigFloat = \<lparr>bprec = 0, bval = FZero False\<rparr>"

definition SetInt :: "bigfloat \<Rightarrow> int \<Rightarrow> bigfloat" where
  "SetInt z i = (let p = (if bprec z = 0 then max (nat (bitlen \<bar>i\<bar>)) 64 else bprec z)
     in \<lparr>bprec = p, bval = (if i = 0 then FZero False else rnbig p (of_int i))\<rparr>)"

definition SetInt64 :: "bigfloat \<Rightarrow> int64 \<Rightarrow> bigfloat" where
  "SetInt64 z x = (let p = (if bprec z = 0 then 64 else bprec z)
     in \<lparr>bprec = p, bval = (if sint x = 0 then FZero False else rnbig p (of_int (sint x)))\<rparr>)"

definition SetFloat64 :: "bigfloat \<Rightarrow> gofloat \<Rightarrow> bigfloat" where
  "SetFloat64 z f = (let p = (if bprec z = 0 then 53 else bprec z)
     in \<lparr>bprec = p, bval = (case f of FFin q \<Rightarrow> rnbig p q | _ \<Rightarrow> f)\<rparr>)"

definition zprec :: "bigfloat \<Rightarrow> bigfloat \<Rightarrow> bigfloat \<Rightarrow> nat" where
  "zprec z x y = (if bprec z = 0 then max (bprec x) (bprec y) else bprec z)"

definition bigAdd :: "bigfloat \<Rightarrow> bigfloat \<Rightarrow> bigfloat \<Rightarrow> bigfloat" where
  "bigAdd z x y = (let p = zprec z x y in \<lparr>bprec = p, bval = fadd (rnbig p) (bval x) (bval y)\<rparr>)"

definition bigSub :: "bigfloat \<Rightarrow> bigfloat \<Rightarrow> bigfloat \<Rightarrow> bigfloat" where
  "bigSub z x y = (let p = zprec z x y in \<lparr>bprec = p, bval = fsub (rnbig p) (bval x) (bval y)\<rparr>)"

definition bigMul :: "bigfloat \<Rightarrow> bigfloat \<Rightarrow> bigfloat \<Rightarrow> bigfloat" where
  "bigMul z x y = (let p = zprec z x y in \<lparr>bprec = p, bval = fmul (rnbig p) (bval x) (bval y)\<rparr>)"

definition bigQuo :: "bigfloat \<Rightarrow> bigfloat \<Rightarrow> bigfloat \<Rightarrow> bigfloat" where
  "bigQuo z x y = (let p = zprec z x y in \<lparr>bprec = p, bval = fdiv (rnbig p) (bval x) (bval y)\<rparr>)"

lemmas big_ops = bigAdd_def bigSub_def bigMul_def bigQuo_def zprec_def Let_def

text \<open>\<open>Sign\<close>, and \<open>Int\<close>, which truncates and leaves an infinity without a result.\<close>

definition bigSign :: "bigfloat \<Rightarrow> int" where
  "bigSign x = (case bval x of FInf s \<Rightarrow> if s then - 1 else 1 | FFin q \<Rightarrow> sgn (ftrunc (sgn q)) | _ \<Rightarrow> 0)"

definition bigCmp :: "bigfloat \<Rightarrow> bigfloat \<Rightarrow> int option" where
  "bigCmp x y = fcmp (bval x) (bval y)"

text \<open>\<open>big.Int\<close>'s \<open>Int64\<close> and \<open>Uint64\<close> take the low 64 bits (of the magnitude, for \<open>Uint64\<close>).\<close>

definition BigInt_Int64 :: "int \<Rightarrow> int64" where
  "BigInt_Int64 i = of_int i"

definition BigInt_Uint64 :: "int \<Rightarrow> uint64" where
  "BigInt_Uint64 i = of_int \<bar>i\<bar>"

text \<open>\<open>big.Int\<close>'s \<open>Float64\<close>: the nearest \<open>float64\<close>.\<close>

definition BigInt_Float64 :: "int \<Rightarrow> gofloat" where
  "BigInt_Float64 i = f64_of_int i"

section \<open>Values of finite operands\<close>

text \<open>A finite \<open>big.Float\<close> of positive precision, and its value: the form the pool proofs compute with.\<close>

definition big_is :: "bigfloat \<Rightarrow> nat \<Rightarrow> rat \<Rightarrow> bool" where
  "big_is x p q \<longleftrightarrow> finite_float (bval x) \<and> fval (bval x) = q \<and> bprec x = p \<and> 0 < p
     \<and> bval x \<noteq> FFin 0"

named_theorems big_intros \<open>values of big.Float computations\<close>

lemma rnbig_finite: "finite_float (rnbig p q) \<and> fval (rnbig p q) = rnd p q \<and> rnbig p q \<noteq> FFin 0"
  by (auto simp: rnbig_def Let_def)

lemma big_is_SetInt64_new [big_intros]:
  "big_is (SetInt64 newBigFloat x) 64 (of_int (sint x))"
proof -
  have "rnd 64 (of_int (sint x)) = of_int (sint x)"
    using sint_range_64 [of x] by (intro rnd_of_int) auto
  then show ?thesis
    using rnbig_finite [of 64 "of_int (sint x)"]
    by (auto simp: big_is_def SetInt64_def newBigFloat_def Let_def simp del: of_int_sint)
qed

lemma big_is_SetInt_53 [big_intros]:
  "bprec z = 53 \<Longrightarrow> big_is (SetInt z i) 53 (rnd 53 (of_int i))"
  using rnbig_finite [of 53 "of_int i"] by (auto simp: big_is_def SetInt_def Let_def)

lemma big_is_NewFloat [big_intros]:
  "finite_float f \<Longrightarrow> f \<noteq> FFin 0 \<Longrightarrow> big_is (NewFloat f) 53 (fval f)"
  by (simp add: big_is_def NewFloat_def)

lemma big_is_SetFloat64 [big_intros]:
  "finite_float f \<Longrightarrow> big_is (SetFloat64 newBigFloat f) 53 (rnd 53 (fval f))"
  using rnbig_finite [of 53 "fval f"]
  by (cases f) (auto simp: big_is_def SetFloat64_def newBigFloat_def Let_def)

lemma big_is_Mul [big_intros]:
  "big_is x p a \<Longrightarrow> big_is y q b \<Longrightarrow> bprec z = r \<Longrightarrow> 0 < r \<Longrightarrow> big_is (bigMul z x y) r (rnd r (a * b))"
  using rnbig_finite [of r "a * b"]
  by (cases "bval x"; cases "bval y") (auto simp: big_is_def big_ops)

lemma big_is_Add [big_intros]:
  "big_is x p a \<Longrightarrow> big_is y q b \<Longrightarrow> bprec z = r \<Longrightarrow> 0 < r \<Longrightarrow> big_is (bigAdd z x y) r (rnd r (a + b))"
  using rnbig_finite [of r "a + b"] rnbig_finite [of r a] rnbig_finite [of r b]
  by (cases "bval x"; cases "bval y") (auto simp: big_is_def big_ops)

lemma big_is_Quo [big_intros]:
  "big_is x p a \<Longrightarrow> big_is y q b \<Longrightarrow> bprec z = 0 \<Longrightarrow> b \<noteq> 0 \<Longrightarrow>
     big_is (bigQuo z x y) (max p q) (rnd (max p q) (a / b))"
  using rnbig_finite [of "max p q" "a / b"]
  by (cases "bval x"; cases "bval y") (auto simp: big_is_def big_ops)

lemma big_is_Quo_prec [big_intros]:
  "big_is x p a \<Longrightarrow> big_is y q b \<Longrightarrow> bprec z = r \<Longrightarrow> 0 < r \<Longrightarrow> b \<noteq> 0 \<Longrightarrow>
     big_is (bigQuo z x y) r (rnd r (a / b))"
  using rnbig_finite [of r "a / b"]
  by (cases "bval x"; cases "bval y") (auto simp: big_is_def big_ops)

lemma big_is_prec: "big_is x p q \<Longrightarrow> bprec x = p"
  by (simp add: big_is_def)

lemma bigSign_is: "big_is x p q \<Longrightarrow> bigSign x = (if q < 0 then - 1 else if q = 0 then 0 else 1)"
  by (cases "bval x") (auto simp: big_is_def bigSign_def ftrunc_def)

end
