(* ===== verification/Balance.thy ===== *)
theory Balance
  imports SafeMath FloatOps
begin

text \<open>
  \<open>src/ledger/types/balance.go\<close>: the \<open>Balance\<close> of one asset. A pointer that may be nil is an
  option. \<open>Add\<close> does not check for overflow, unlike \<open>Amount.Add\<close>: it wraps around, and the lemmas
  say so.
\<close>

record Balance =
  Balance_Asset :: string
  Balance_Amount :: uint64

abbreviation emptyBalance :: Balance where
  "emptyBalance \<equiv> \<lparr>Balance_Asset = '''', Balance_Amount = 0\<rparr>"

text \<open>\<open>NewBalance\<close> at its two instances; a negative \<open>int64\<close> becomes 0.\<close>

definition NewBalance_uint64 :: "string \<Rightarrow> uint64 \<Rightarrow> Balance" where
  "NewBalance_uint64 asset amount =
     (let amt = (if amount > 0 then amount else 0)
      in if asset \<noteq> '''' then \<lparr>Balance_Asset = asset, Balance_Amount = amt\<rparr> else emptyBalance)"

definition NewBalance_int64 :: "string \<Rightarrow> int64 \<Rightarrow> Balance" where
  "NewBalance_int64 asset amount =
     (let amt = (if 0 <s amount then amount else 0)
      in if asset \<noteq> '''' then \<lparr>Balance_Asset = asset, Balance_Amount = amt\<rparr> else emptyBalance)"

definition ZeroBalance :: "string \<Rightarrow> Balance" where
  "ZeroBalance asset =
     (if asset \<noteq> '''' then \<lparr>Balance_Asset = asset, Balance_Amount = 0\<rparr> else emptyBalance)"

definition Balance_Valid :: "Balance \<Rightarrow> bool" where
  "Balance_Valid b = (Balance_Asset b \<noteq> '''')"

definition Balance_String :: "Balance \<Rightarrow> string" where
  "Balance_String b = FormatUint (Balance_Amount b) @ '' '' @ Balance_Asset b"

text \<open>\<open>marshal\<close> and \<open>unmarshal\<close> are the JSON library on the struct.\<close>

definition Balance_MarshalBinary :: "(Balance \<Rightarrow> error + string) \<Rightarrow> Balance \<Rightarrow> error + string" where
  "Balance_MarshalBinary marshal b = marshal b"

definition Balance_UnmarshalBinary ::
  "(string \<Rightarrow> Balance \<Rightarrow> error option \<times> Balance) \<Rightarrow> string \<Rightarrow> Balance \<Rightarrow> error option \<times> Balance" where
  "Balance_UnmarshalBinary unmarshal data b = unmarshal data b"

definition Balance_Copy :: "Balance \<Rightarrow> Balance" where
  "Balance_Copy b = NewBalance_uint64 (Balance_Asset b) (Balance_Amount b)"

definition Balance_Amt :: "Balance \<Rightarrow> int64" where
  "Balance_Amt b = Balance_Amount b"

definition Balance_AmtFloat :: "Balance \<Rightarrow> gofloat" where
  "Balance_AmtFloat b = f64_of_int (uint (Balance_Amount b))"

definition Balance_IsZero :: "Balance \<Rightarrow> bool" where
  "Balance_IsZero b = (Balance_Amount b = 0)"

definition Balance_Add :: "Balance \<Rightarrow> Balance option \<Rightarrow> error + Balance" where
  "Balance_Add b bal =
     (case bal of None \<Rightarrow> Inr b
      | Some bal \<Rightarrow>
          if \<not> Balance_Valid b \<or> \<not> Balance_Valid bal
          then Inl (ErrorString ''balance.Add: invalid input'')
          else if Balance_Asset b \<noteq> Balance_Asset bal
          then Inl (ErrorString (''balance.Add: mismatched assets '' @ Balance_Asset b @ '' and '' @ Balance_Asset bal))
          else if Balance_Amount bal = 0 then Inr b
          else Inr (NewBalance_uint64 (Balance_Asset b) (Balance_Amount b + Balance_Amount bal)))"

definition Balance_Sub :: "Balance \<Rightarrow> Balance option \<Rightarrow> error + Balance" where
  "Balance_Sub b sub =
     (case sub of None \<Rightarrow> Inr b
      | Some sub \<Rightarrow>
          if \<not> Balance_Valid b \<or> \<not> Balance_Valid sub
          then Inl (ErrorString ''balance.Sub: invalid input'')
          else if Balance_Asset b \<noteq> Balance_Asset sub
          then Inl (ErrorString (''balance.Sub: mismatched assets '' @ Balance_Asset b @ '' and '' @ Balance_Asset sub))
          else if Balance_Amount sub = 0 then Inr b
          else if Balance_Amount b < Balance_Amount sub
          then Inl (ErrorString (''balance.Sub ('' @ Balance_Asset b @ ''): result would be negative''))
          else Inr (NewBalance_uint64 (Balance_Asset b) (Balance_Amount b - Balance_Amount sub)))"

definition Balance_SubAmt :: "Balance \<Rightarrow> uint64 \<Rightarrow> Balance option \<times> bool" where
  "Balance_SubAmt b amt =
     (if \<not> Balance_Valid b \<or> Balance_Amount b < amt then (None, False)
      else case Balance_Sub (Balance_Copy b) (Some (NewBalance_uint64 (Balance_Asset b) amt)) of
        Inl e \<Rightarrow> (None, False)
      | Inr result \<Rightarrow> (Some result, True))"

definition Balance_MulF :: "(gofloat \<Rightarrow> uint64) \<Rightarrow> Balance \<Rightarrow> gofloat \<Rightarrow> error + Balance" where
  "Balance_MulF oor b f =
     (if flt f (FZero False) then Inl (ErrorString ''MulF by negative value'')
      else let amt = f64_mul (f64_of_int (uint (Balance_Amount b))) f
        in Inr (NewBalance_uint64 (Balance_Asset b) (f64_to_uint64 oor amt)))"

lemma NewBalance_uint64_simps [simp]:
  "a \<noteq> '''' \<Longrightarrow> NewBalance_uint64 a n = \<lparr>Balance_Asset = a, Balance_Amount = n\<rparr>"
  "NewBalance_uint64 '''' n = emptyBalance"
  by (auto simp: NewBalance_uint64_def Let_def word_gt_0)

lemma NewBalance_int64_simps [simp]:
  "a \<noteq> '''' \<Longrightarrow> NewBalance_int64 a n = \<lparr>Balance_Asset = a, Balance_Amount = (if 0 <s n then n else 0)\<rparr>"
  "NewBalance_int64 '''' n = emptyBalance"
  by (auto simp: NewBalance_int64_def Let_def)

lemma NewBalance_int64_amount:
  "a \<noteq> '''' \<Longrightarrow> uint (Balance_Amount (NewBalance_int64 a n)) = max 0 (sint n)"
  using uint_eq_sint_64 [of n] by (auto simp: word_sless_alt max_def)

lemma Balance_Copy_valid [simp]: "Balance_Valid b \<Longrightarrow> Balance_Copy b = b"
  by (simp add: Balance_Copy_def Balance_Valid_def)

section \<open>Properties\<close>

text \<open>
  \<open>Balance.Add\<close> of two valid balances of one asset never reports an error: the amounts are added
  modulo \<open>2 ^ 64\<close>, so the result is the sum exactly when the sum fits.
\<close>

theorem Balance_Add_wraps:
  assumes "Balance_Valid b" "Balance_Asset c = Balance_Asset b"
  shows "\<exists>r. Balance_Add b (Some c) = Inr r \<and> Balance_Asset r = Balance_Asset b
    \<and> uint (Balance_Amount r) = (uint (Balance_Amount b) + uint (Balance_Amount c)) mod 2 ^ 64"
  using assms uint_lt_64 [of "Balance_Amount b"]
  by (auto simp: Balance_Add_def Balance_Valid_def uint_word_ariths)

theorem Balance_Add_wraps_witness:
  "\<exists>r. Balance_Add \<lparr>Balance_Asset = ''USD'', Balance_Amount = 2 ^ 64 - 1\<rparr>
        (Some \<lparr>Balance_Asset = ''USD'', Balance_Amount = 3\<rparr>) = Inr r \<and> uint (Balance_Amount r) = 2"
proof -
  let ?b = "\<lparr>Balance_Asset = ''USD'', Balance_Amount = 2 ^ 64 - 1\<rparr>"
  let ?c = "\<lparr>Balance_Asset = ''USD'', Balance_Amount = 3\<rparr>"
  have "Balance_Valid ?b" "Balance_Asset ?c = Balance_Asset ?b"
    by (simp_all add: Balance_Valid_def)
  from Balance_Add_wraps [OF this] show ?thesis by auto
qed

text \<open>
  \<open>SubAmt\<close> succeeds exactly on a valid balance that covers the amount, and then subtracts it
  exactly; the error of the \<open>Sub\<close> it calls can never occur.
\<close>

theorem Balance_SubAmt_spec:
  "Balance_SubAmt b amt =
     (if Balance_Valid b \<and> amt \<le> Balance_Amount b
      then (Some (b\<lparr>Balance_Amount := Balance_Amount b - amt\<rparr>), True) else (None, False))"
  by (cases b) (auto simp: Balance_SubAmt_def Balance_Sub_def Balance_Valid_def Balance_Copy_def not_less)

lemma flt_zero_finite: "finite_float f \<Longrightarrow> flt f (FZero False) \<longleftrightarrow> fval f < 0"
  by (cases f) (auto simp: flt_def fcmp_def)

lemma f64_mul_finite:
  assumes "finite_float x" "finite_float y" "\<bar>rnd64 (fval x * fval y)\<bar> < 2 ^ 1024"
  shows "finite_float (f64_mul x y) \<and> fval (f64_mul x y) = rnd64 (fval x * fval y)"
  using assms fval_rn64 [of "fval x * fval y"]
  by (cases x; cases y) (auto simp: f64_ops)

lemma rnd64_scale_down:
  assumes "0 \<le> n" "n < 2 ^ 53" "0 \<le> q" "q \<le> 1"
  shows "0 \<le> rnd64 (of_int n * q) \<and> rnd64 (of_int n * q) \<le> of_int n"
proof -
  have "of_int n * q \<le> (of_int n :: rat)"
    using assms mult_left_mono [of q 1 "of_int n"] by simp
  then have "rnd64 (of_int n * q) \<le> rnd64 (of_int n)" by (rule rnd64_mono)
  then show ?thesis
    using rnd64_of_int [of n] assms rnd64_nonneg [of "of_int n * q"] by simp
qed

text \<open>
  Multiplying by a fraction between 0 and 1 never increases a balance below \<open>2 ^ 53\<close>, whatever the
  rounding of the conversion and of the product, and stays in the range where the conversion back to
  an integer is defined (the result does not depend on the platform).
\<close>

theorem Balance_MulF_bounded:
  assumes "Balance_Valid b" "uint (Balance_Amount b) < 2 ^ 53"
    and "finite_float f" "0 \<le> fval f" "fval f \<le> 1"
  shows "\<exists>r. (\<forall>oor. Balance_MulF oor b f = Inr r) \<and> Balance_Asset r = Balance_Asset b
    \<and> Balance_Amount r \<le> Balance_Amount b"
proof -
  let ?n = "uint (Balance_Amount b)"
  let ?q = "of_int ?n * fval f"
  have x: "finite_float (f64_of_int ?n)" "fval (f64_of_int ?n) = of_int ?n"
    using f64_of_int_exact [of ?n] assms(2) by auto
  have r: "0 \<le> rnd64 ?q" "rnd64 ?q \<le> of_int ?n"
    using rnd64_scale_down [of ?n "fval f"] assms by auto
  have n: "(of_int ?n :: rat) < 2 ^ 53"
    using assms(2) by (metis of_int_less_iff of_int_numeral of_int_power)
  have "(2 :: rat) ^ 53 \<le> 2 ^ 1024" by (intro power_increasing) auto
  then have y: "finite_float (f64_mul (f64_of_int ?n) f)" "fval (f64_mul (f64_of_int ?n) f) = rnd64 ?q"
    using f64_mul_finite [OF x(1) assms(3)] r n x(2) by auto
  have t: "0 \<le> ftrunc (rnd64 ?q)" "ftrunc (rnd64 ?q) \<le> ?n"
    using ftrunc_nonneg [OF r(1)] ftrunc_mono [OF r(2)] by (simp_all only: ftrunc_of_int)
  let ?r = "\<lparr>Balance_Asset = Balance_Asset b, Balance_Amount = of_int (ftrunc (rnd64 ?q))\<rparr>"
  have "Balance_MulF oor b f = Inr ?r" for oor
    using assms y t uint_lt_64 [of "Balance_Amount b"]
    by (auto simp: Balance_MulF_def flt_zero_finite f64_to_uint64_def Balance_Valid_def Let_def)
  moreover have "Balance_Amount ?r \<le> Balance_Amount b"
    using t uint_lt_64 [of "Balance_Amount b"]
    by (simp add: word_le_def uint_of_int_64 del: of_int_uint)
  ultimately show ?thesis by (intro exI [of _ ?r]) auto
qed

theorem Balance_MulF_bounded_witness:
  "\<exists>r. (\<forall>oor. Balance_MulF oor \<lparr>Balance_Asset = ''USD'', Balance_Amount = 1000\<rparr> (FFin (1 / 2)) = Inr r)
     \<and> Balance_Amount r \<le> 1000"
proof -
  let ?b = "\<lparr>Balance_Asset = ''USD'', Balance_Amount = 1000\<rparr>"
  have "Balance_Valid ?b" "uint (Balance_Amount ?b) < 2 ^ 53"
    and "finite_float (FFin (1 / 2))" "0 \<le> fval (FFin (1 / 2))" "fval (FFin (1 / 2)) \<le> 1"
    by (simp_all add: Balance_Valid_def)
  from Balance_MulF_bounded [OF this] show ?thesis by auto
qed

end
