(* ===== verification/AssetID.thy ===== *)
theory AssetID
  imports GoErrors
begin

text \<open>
  \<open>src/ledger/types/assetID.go\<close>: which strings are asset IDs. \<open>ValidAssetID\<close> is the code;
  \<open>asset_grammar\<close> is a declarative grammar of the accepted strings, and the main theorem is that
  the two agree.
\<close>

definition CouponPrefix :: string where "CouponPrefix = ''Coupon_''"
definition SnapshotPrefix :: string where "SnapshotPrefix = ''Snapshot_''"

definition is_alnum :: "char \<Rightarrow> bool" where
  "is_alnum c = (let n = (of_char c :: nat)
     in (48 \<le> n \<and> n \<le> 57) \<or> (65 \<le> n \<and> n \<le> 90) \<or> (97 \<le> n \<and> n \<le> 122))"

text \<open>The characters the pattern \<open>[^A-Za-z0-9_-]\<close> keeps.\<close>

definition id_char :: "char \<Rightarrow> bool" where
  "id_char c = (is_alnum c \<or> c = CHR ''_'' \<or> c = CHR ''-'')"

definition invalid_id :: "string \<Rightarrow> error" where
  "invalid_id aid = Data (''invalid asset ID: '' @ aid)"

definition ValidAssetID :: "string \<Rightarrow> error option" where
  "ValidAssetID aid =
     (if HasPrefix aid CouponPrefix \<or> HasPrefix aid SnapshotPrefix then Some (invalid_id aid)
      else let trimmed = filter id_char aid in
        if aid = '''' \<or> aid \<noteq> trimmed \<or> HasPrefix aid ''-'' \<or> HasSuffix aid ''-'' \<or> count_list aid (CHR ''-'') > 1
        then Some (invalid_id aid)
        else let split = Split (CHR ''-'') aid in
          if length split = 2 then
            let s = split ! 1 in
            if HasPrefix s CouponPrefix then
              (case ParseInt (TrimPrefix s CouponPrefix) of
                 Inl _ \<Rightarrow> Some (invalid_id aid) | Inr _ \<Rightarrow> None)
            else if HasPrefix s SnapshotPrefix then
              (case ParseInt (TrimPrefix s SnapshotPrefix) of
                 Inl _ \<Rightarrow> Some (invalid_id aid) | Inr _ \<Rightarrow> None)
            else if split ! 0 = split ! 1 then Some (invalid_id aid)
            else None
          else None)"

section \<open>A grammar of asset IDs\<close>

text \<open>A name: one or more letters, digits and underscores.\<close>

definition name_char :: "char \<Rightarrow> bool" where
  "name_char c = (is_alnum c \<or> c = CHR ''_'')"

definition is_name :: "string \<Rightarrow> bool" where
  "is_name s = (s \<noteq> '''' \<and> list_all name_char s)"

definition reserved :: "string \<Rightarrow> bool" where
  "reserved s = (HasPrefix s CouponPrefix \<or> HasPrefix s SnapshotPrefix)"

text \<open>The part after the hyphen: a numbered period of the asset before it, or a second asset.\<close>

definition is_suffix_of :: "string \<Rightarrow> string \<Rightarrow> bool" where
  "is_suffix_of b a =
     (if HasPrefix b CouponPrefix then is_ok (ParseInt (TrimPrefix b CouponPrefix))
      else if HasPrefix b SnapshotPrefix then is_ok (ParseInt (TrimPrefix b SnapshotPrefix))
      else a \<noteq> b)"

inductive asset_grammar :: "string \<Rightarrow> bool" where
  plain: "is_name a \<Longrightarrow> \<not> reserved a \<Longrightarrow> asset_grammar a"
| hyphenated: "is_name a \<Longrightarrow> \<not> reserved a \<Longrightarrow> is_name b \<Longrightarrow> is_suffix_of b a \<Longrightarrow>
     asset_grammar (a @ CHR ''-'' # b)"

lemma hyphen_not_name [simp]: "\<not> name_char (CHR ''-'')"
  by (simp add: name_char_def is_alnum_def)

lemma id_char_iff: "id_char c \<longleftrightarrow> name_char c \<or> c = CHR ''-''"
  by (auto simp: id_char_def name_char_def)

lemma name_no_hyphen: "is_name s \<Longrightarrow> CHR ''-'' \<notin> set s"
  by (auto simp: is_name_def list_all_iff)

lemma prefix_before_sep: "c \<notin> set p \<Longrightarrow> prefix p (a @ c # b) \<longleftrightarrow> prefix p a"
proof (induction a arbitrary: p)
  case Nil
  then show ?case by (cases p) auto
next
  case (Cons x a)
  then show ?case by (cases p) auto
qed

lemma reserved_hyphenated: "reserved (a @ CHR ''-'' # b) = reserved a"
  by (simp add: reserved_def HasPrefix_def prefix_before_sep CouponPrefix_def SnapshotPrefix_def)

lemma filter_id_char: "xs = filter id_char xs \<longleftrightarrow> list_all id_char xs"
  by (metis filter_id_conv list_all_iff)

lemma list_all_id_char:
  "CHR ''-'' \<notin> set a \<Longrightarrow> list_all id_char a = list_all name_char a"
  by (auto simp: list_all_iff id_char_iff)

lemma ValidAssetID_plain:
  assumes "CHR ''-'' \<notin> set a"
  shows "ValidAssetID a = None \<longleftrightarrow> is_name a \<and> \<not> reserved a"
proof -
  have "\<not> HasPrefix a ''-''" "\<not> HasSuffix a ''-''" "count_list a (CHR ''-'') = 0"
    using assms by (auto simp: HasPrefix_def HasSuffix_def prefix_def suffix_def)
  then show ?thesis
    using assms
    by (auto simp: ValidAssetID_def filter_id_char Split_notin is_name_def reserved_def list_all_id_char Let_def)
qed

lemma ValidAssetID_hyphenated:
  assumes "CHR ''-'' \<notin> set a" "CHR ''-'' \<notin> set b"
  shows "ValidAssetID (a @ CHR ''-'' # b) = None \<longleftrightarrow>
    is_name a \<and> \<not> reserved a \<and> is_name b \<and> is_suffix_of b a"
proof -
  let ?i = "a @ CHR ''-'' # b"
  have p: "HasPrefix ?i ''-'' \<longleftrightarrow> a = ''''"
    using assms(1) by (cases a) (auto simp: HasPrefix_def)
  have s: "HasSuffix ?i ''-'' \<longleftrightarrow> b = ''''"
    using assms(2) by (cases b rule: rev_cases) (auto simp: HasSuffix_def suffix_def)
  have c: "count_list ?i (CHR ''-'') = 1"
    using assms by (simp add: count_list_append)
  have f: "list_all id_char ?i \<longleftrightarrow> list_all name_char a \<and> list_all name_char b"
    using assms by (simp add: list_all_id_char) (simp add: id_char_def)
  have r: "HasPrefix ?i CouponPrefix \<or> HasPrefix ?i SnapshotPrefix \<longleftrightarrow> reserved a"
    using reserved_hyphenated [of a b] by (simp add: reserved_def)
  have sp: "Split (CHR ''-'') ?i = [a, b]"
    using assms by (simp add: Split_append_sep Split_notin)
  show ?thesis
    unfolding ValidAssetID_def Let_def sp filter_id_char f c p s r is_name_def is_suffix_of_def
    by (auto simp: is_ok_def split: sum.splits)
qed

section \<open>Properties\<close>

text \<open>
  C16: \<open>ValidAssetID\<close> accepts exactly the strings of the grammar: a name that does not start with a
  reserved prefix, alone or followed by one hyphen and either a coupon or snapshot period whose
  number fits into an \<open>int64\<close>, or a different second name.
\<close>

theorem ValidAssetID_iff_grammar: "ValidAssetID aid = None \<longleftrightarrow> asset_grammar aid"
proof
  assume "asset_grammar aid"
  then show "ValidAssetID aid = None"
    by cases (auto simp: ValidAssetID_plain ValidAssetID_hyphenated name_no_hyphen)
next
  assume v: "ValidAssetID aid = None"
  show "asset_grammar aid"
  proof (cases "CHR ''-'' \<in> set aid")
    case False
    with v show ?thesis by (auto simp: ValidAssetID_plain intro: asset_grammar.plain)
  next
    case True
    then obtain a b where ab: "aid = a @ CHR ''-'' # b" "CHR ''-'' \<notin> set a"
      by (auto dest: split_list_first)
    have "count_list aid (CHR ''-'') \<le> 1"
      using v by (auto simp: ValidAssetID_def Let_def split: if_splits)
    then have "CHR ''-'' \<notin> set b"
      using ab by (simp add: count_list_append count_list_0_iff)
    with v ab show ?thesis
      by (auto simp: ValidAssetID_hyphenated intro: asset_grammar.hyphenated)
  qed
qed

section \<open>The shape of accepted identifiers\<close>

lemma valid_id_chars: "ValidAssetID aid = None \<Longrightarrow> aid \<noteq> '''' \<and> list_all id_char aid"
  by (auto simp: ValidAssetID_def Let_def filter_id_char split: if_splits)

lemma name_FormatNat: "list_all name_char (show_nat n)"
  using show_nat_digits [of n] by (auto simp: list_all_iff name_char_def is_alnum_def is_digit_def Let_def)

end
