(* ===== verification/Balances.thy ===== *)
theory Balances
  imports Balance AssetID "HOL-Library.Multiset"
begin

text \<open>
  \<open>src/ledger/types/balances*.go\<close>: sets of signed balances by asset ID (the JSON codec is in
  \<open>BalancesJSON\<close>). \<open>Bals\<close> is \<open>None\<close> for a nil map, which reads as empty and which no operation
  writes, because every operation writes a fresh copy.

  The locale \<open>ledger\<close> is the contract between the arithmetic and its users: what the amounts are
  after one \<open>AddAmount\<close>. Its lemmas give the effect of whole lists of changes, and their
  independence of the order.
\<close>

record Balances =
  Bals :: "(string, int64) gomap option"

definition entries :: "Balances \<Rightarrow> (string, int64) gomap" where
  "entries b = (case Bals b of None \<Rightarrow> [] | Some m \<Rightarrow> m)"

definition mkBals :: "(string, int64) gomap \<Rightarrow> Balances" where
  "mkBals m = \<lparr>Bals = Some m\<rparr>"

definition wf_bals :: "Balances \<Rightarrow> bool" where
  "wf_bals b = wf_map (entries b)"

section \<open>Construction and copies\<close>

definition EmptyBalances :: Balances where
  "EmptyBalances = mkBals []"

definition Balances_Copy :: "Balances \<Rightarrow> Balances" where
  "Balances_Copy b = mkBals (range_put (\<lambda>k v. Some v) (entries b))"

definition AmountOf :: "Balances \<Rightarrow> string \<Rightarrow> int64" where
  "AmountOf b assetID = (case Bals b of None \<Rightarrow> 0 | Some m \<Rightarrow> mget 0 m assetID)"

definition AddAmount :: "Balances \<Rightarrow> string \<Rightarrow> int64 \<Rightarrow> Balances" where
  "AddAmount b assetID amount =
     (let result = Balances_Copy b
      in if assetID \<noteq> ''''
         then mkBals (mput assetID (mget 0 (entries result) assetID + amount) (entries result))
         else result)"

definition NewBalances :: "string \<Rightarrow> int64 \<Rightarrow> Balances" where
  "NewBalances assetID amount = AddAmount EmptyBalances assetID amount"

section \<open>Arithmetic\<close>

definition Balances_Add :: "Balances \<Rightarrow> Balance option list \<Rightarrow> Balances" where
  "Balances_Add b adds =
     fold (\<lambda>add result. case add of None \<Rightarrow> result
         | Some add \<Rightarrow> AddAmount result (Balance_Asset add) (Balance_Amt add))
       adds (Balances_Copy b)"

definition AddBals :: "Balances \<Rightarrow> Balances \<Rightarrow> Balances" where
  "AddBals b add = mkBals (range_update 0 (\<lambda>k amt old. old + amt) (entries add) (entries (Balances_Copy b)))"

definition Invert :: "Balances \<Rightarrow> Balances" where
  "Invert b = (let result = Balances_Copy b
     in mkBals (range_update 0 (\<lambda>k amt old. - 1 * amt) (entries result) (entries result)))"

definition SubAmount :: "Balances \<Rightarrow> string \<Rightarrow> int64 \<Rightarrow> Balances" where
  "SubAmount b assetID amount = AddAmount b assetID (amount * - 1)"

definition Balances_Sub :: "Balances \<Rightarrow> Balance option list \<Rightarrow> Balances" where
  "Balances_Sub b subs =
     fold (\<lambda>sub result. case sub of None \<Rightarrow> result
         | Some sub \<Rightarrow> SubAmount result (Balance_Asset sub) (Balance_Amt sub))
       subs (Balances_Copy b)"

definition HasAtLeast :: "Balances \<Rightarrow> string \<Rightarrow> int64 \<Rightarrow> bool" where
  "HasAtLeast b assetID amount =
     (if amount = 0 then True
      else if amount <s 0 then Bals b \<noteq> None \<and> mget 0 (entries b) assetID \<le>s amount
      else Bals b \<noteq> None \<and> amount \<le>s mget 0 (entries b) assetID)"

text \<open>\<open>SafeSub\<close> returns the receiver beside the error.\<close>

definition SafeSub :: "Balances \<Rightarrow> string \<Rightarrow> int64 \<Rightarrow> Balances \<times> error option" where
  "SafeSub b assetID amount =
     (if amount <s 0
      then (b, Some (ErrorString (''cannot sub: '' @ FormatInt amount @ '' '' @ assetID @ '' is negative'')))
      else if Bals b = None
      then (b, Some (ErrorString (''cannot sub: '' @ FormatInt amount @ '' '' @ assetID @ '' from nil'')))
      else if \<not> HasAtLeast b assetID amount
      then (b, Some (ErrorString (''cannot sub: '' @ FormatInt (mget 0 (entries b) assetID) @ '' - ''
              @ FormatInt amount @ '' ('' @ assetID @ '')'')))
      else (SubAmount b assetID amount, None))"

definition SubBalToZero :: "Balances \<Rightarrow> Balance \<Rightarrow> Balances \<times> Balance" where
  "SubBalToZero b sub =
     (let result = Balances_Copy b in
      if Bals b = None \<or> AmountOf b (Balance_Asset sub) \<le>s 0 then (result, sub)
      else let naiveResultAmt = AmountOf b (Balance_Asset sub) - Balance_Amt sub in
        if naiveResultAmt <s 0
        then (SubAmount b (Balance_Asset sub) (AmountOf b (Balance_Asset sub)),
              NewBalance_uint64 (Balance_Asset sub) (naiveResultAmt * - 1))
        else (SubAmount b (Balance_Asset sub) (Balance_Amt sub),
              NewBalance_int64 (Balance_Asset sub) 0))"

definition AssetIDs :: "Balances \<Rightarrow> string list" where
  "AssetIDs b = map fst (filter (\<lambda>(k, amt). amt \<noteq> 0) (entries b))"

definition PositiveAssets :: "Balances \<Rightarrow> string list" where
  "PositiveAssets b = map fst (filter (\<lambda>(k, amt). 0 <s amt) (entries b))"

definition NegativeAssets :: "Balances \<Rightarrow> string list" where
  "NegativeAssets b = map fst (filter (\<lambda>(k, amt). amt <s 0) (entries b))"

definition SubToZero :: "Balances \<Rightarrow> Balances \<Rightarrow> Balances \<times> Balances" where
  "SubToZero b subs =
     fold (\<lambda>aid (result, surplus).
         let sub = NewBalance_uint64 aid (AmountOf subs aid);
             (result, s) = SubBalToZero result sub
         in (result, Balances_Add surplus [Some s]))
       (AssetIDs subs) (Balances_Copy b, EmptyBalances)"

definition SubAmountToZero :: "Balances \<Rightarrow> string \<Rightarrow> int64 \<Rightarrow> Balances" where
  "SubAmountToZero b assetID amount =
     (if Bals b = None \<or> AmountOf b assetID \<le>s 0 \<or> amount \<le>s 0 then b
      else if AmountOf b assetID \<le>s amount then SubAmount b assetID (mget 0 (entries b) assetID)
      else SubAmount b assetID amount)"

definition SubBals :: "Balances \<Rightarrow> Balances \<Rightarrow> Balances" where
  "SubBals b sub = AddBals b (Invert sub)"

definition HasNegative :: "Balances \<Rightarrow> bool" where
  "HasNegative b = (Bals b \<noteq> None \<and> list_ex (\<lambda>(k, amt). amt <s 0) (entries b))"

section \<open>Selections\<close>

definition Balances_Validate :: "Balances \<Rightarrow> bool \<Rightarrow> error option" where
  "Balances_Validate b allowNegative =
     first_error (\<lambda>(assetID, amount).
         if assetID = '''' then Some (Data ''empty asset ID in Balances'')
         else case ValidAssetID assetID of Some e \<Rightarrow> Some e
           | None \<Rightarrow> if \<not> allowNegative \<and> amount <s 0
               then Some (Data (''negative amount in Balances: '' @ FormatInt amount @ '' '' @ assetID))
               else None)
       (entries b)"

definition SelectPositive :: "Balances \<Rightarrow> string \<Rightarrow> Balance" where
  "SelectPositive b assetID =
     (let result = NewBalance_int64 assetID 0
      in if Bals b \<noteq> None \<and> 0 <s mget 0 (entries b) assetID
         then result\<lparr>Balance_Amount := mget 0 (entries b) assetID\<rparr> else result)"

definition Positive :: "Balances \<Rightarrow> Balances" where
  "Positive b = mkBals (range_put (\<lambda>k v. if 0 <s v then Some v else None) (entries b))"

definition Negative :: "Balances \<Rightarrow> Balances" where
  "Negative b = mkBals (range_put (\<lambda>k v. if v <s 0 then Some (- v) else None) (entries b))"

definition Zeros :: "Balances \<Rightarrow> string list \<Rightarrow> Balances" where
  "Zeros b ids = mkBals (fold (\<lambda>aid r. let amt = AmountOf b aid in if amt = 0 then mput aid amt r else r) ids [])"

text \<open>\<open>Iterate\<close> and \<open>IterateIDs\<close>: the callback may fail and may change the caller's state.\<close>

fun iterate_list :: "(string \<Rightarrow> int64 \<Rightarrow> 's \<Rightarrow> error option \<times> 's) \<Rightarrow> (string \<times> int64) list \<Rightarrow> 's \<Rightarrow> error option \<times> 's" where
  "iterate_list f [] s = (None, s)"
| "iterate_list f ((k, v) # m) s =
     (case f k v s of (Some e, s') \<Rightarrow> (Some e, s') | (None, s') \<Rightarrow> iterate_list f m s')"

definition Iterate :: "Balances \<Rightarrow> (string \<Rightarrow> int64 \<Rightarrow> 's \<Rightarrow> error option \<times> 's) \<Rightarrow> 's \<Rightarrow> error option \<times> 's" where
  "Iterate b f s = iterate_list f (entries b) s"

definition IterateIDs :: "Balances \<Rightarrow> string list \<Rightarrow> (string \<Rightarrow> int64 \<Rightarrow> 's \<Rightarrow> error option \<times> 's) \<Rightarrow> 's \<Rightarrow> error option \<times> 's" where
  "IterateIDs b ids f s = iterate_list f (map (\<lambda>aid. (aid, mget 0 (entries b) aid)) ids) s"

text \<open>\<open>InterpretSpecialPrefix\<close> of \<open>assetID.go\<close>.\<close>

definition InterpretSpecialPrefix :: "Balances \<Rightarrow> string \<Rightarrow> string \<Rightarrow> (int64, int64) gomap" where
  "InterpretSpecialPrefix b asset pre =
     (let fullPrefix = asset @ ''-'' @ pre
      in fold (\<lambda>(aid, amt) result.
           if HasPrefix aid fullPrefix then
             (case ParseInt (TrimPrefix aid fullPrefix) of Inl _ \<Rightarrow> result | Inr n \<Rightarrow> mput n amt result)
           else result) (entries b) [])"

section \<open>Lookups after each operation\<close>

named_theorems bal_simps \<open>amounts after the operations on Balances\<close>

lemma entries_mkBals [simp]: "entries (mkBals m) = m" "Bals (mkBals m) = Some m"
  by (simp_all add: entries_def mkBals_def)

lemma AmountOf_entries: "AmountOf b i = mget 0 (entries b) i"
  by (simp add: AmountOf_def entries_def gomap_simps split: option.splits)

lemma wf_mkBals [simp]: "wf_bals (mkBals m) = wf_map m"
  by (simp add: wf_bals_def)

lemma wf_Empty [bal_simps]: "wf_bals EmptyBalances"
  by (simp add: EmptyBalances_def wf_Nil)

lemma AmountOf_Empty [bal_simps]: "AmountOf EmptyBalances i = 0"
  by (simp add: EmptyBalances_def AmountOf_entries gomap_simps)

lemma range_put_all: "wf_map m \<Longrightarrow> range_put (\<lambda>k v. Some v) m = m"
proof -
  have "fold (\<lambda>(k, v) r. case Some v of None \<Rightarrow> r | Some w \<Rightarrow> mput k w r) m r = r @ m"
    if "distinct (map fst (r @ m))" for r :: "('a \<times> 'b) list" and m
    using that by (induction m arbitrary: r) (auto simp: mput_new)
  then show "wf_map m \<Longrightarrow> range_put (\<lambda>k v. Some v) m = m"
    by (simp add: range_put_def wf_map_def)
qed

lemma entries_Copy: "wf_bals b \<Longrightarrow> entries (Balances_Copy b) = entries b"
  by (simp add: Balances_Copy_def wf_bals_def range_put_all)

lemma wf_Copy [bal_simps]: "wf_bals b \<Longrightarrow> wf_bals (Balances_Copy b)"
  by (simp add: wf_bals_def entries_Copy)

lemma AmountOf_Copy [bal_simps]: "wf_bals b \<Longrightarrow> AmountOf (Balances_Copy b) i = AmountOf b i"
  by (simp add: AmountOf_entries entries_Copy)

lemma Copy_not_nil [simp]: "Bals (Balances_Copy b) \<noteq> None"
  by (simp add: Balances_Copy_def)

lemma wf_AddAmount [bal_simps]: "wf_bals b \<Longrightarrow> wf_bals (AddAmount b a n)"
  using wf_Copy [of b] by (simp add: AddAmount_def Let_def wf_mput) (simp add: wf_bals_def wf_mput)

lemma AmountOf_AddAmount [bal_simps]:
  "wf_bals b \<Longrightarrow> AmountOf (AddAmount b a n) i = AmountOf b i + (if a \<noteq> '''' \<and> i = a then n else 0)"
  by (auto simp: AddAmount_def Let_def AmountOf_entries entries_Copy gomap_simps)

lemma AddAmount_not_nil [simp]: "Bals (AddAmount b a n) \<noteq> None"
  using Copy_not_nil [of b] by (auto simp: AddAmount_def Let_def simp del: Copy_not_nil)

lemma wf_SubAmount [bal_simps]: "wf_bals b \<Longrightarrow> wf_bals (SubAmount b a n)"
  by (simp add: SubAmount_def bal_simps)

lemma AmountOf_SubAmount [bal_simps]:
  "wf_bals b \<Longrightarrow> AmountOf (SubAmount b a n) i = AmountOf b i - (if a \<noteq> '''' \<and> i = a then n else 0)"
  by (simp add: SubAmount_def bal_simps)

lemma wf_AddBals [bal_simps]: "wf_bals b \<Longrightarrow> wf_bals (AddBals b c)"
  using wf_Copy [of b] by (simp add: AddBals_def range_update_wf wf_bals_def)

lemma AmountOf_AddBals [bal_simps]:
  "wf_bals b \<Longrightarrow> wf_bals c \<Longrightarrow> AmountOf (AddBals b c) i = AmountOf b i + AmountOf c i"
  unfolding AddBals_def AmountOf_entries entries_mkBals wf_bals_def
  by (simp add: range_update_lookup entries_Copy wf_bals_def mget_def split: option.splits)

lemma wf_Invert [bal_simps]: "wf_bals b \<Longrightarrow> wf_bals (Invert b)"
  using wf_Copy [of b] by (simp add: Invert_def Let_def range_update_wf wf_bals_def)

lemma AmountOf_Invert [bal_simps]: "wf_bals b \<Longrightarrow> AmountOf (Invert b) i = - AmountOf b i"
  unfolding Invert_def Let_def AmountOf_entries entries_mkBals
  by (simp add: entries_Copy wf_bals_def range_update_lookup mget_def split: option.splits)

lemma wf_Positive [bal_simps]: "wf_bals b \<Longrightarrow> wf_bals (Positive b)"
  by (simp add: Positive_def range_put_wf wf_bals_def)

lemma wf_Negative [bal_simps]: "wf_bals b \<Longrightarrow> wf_bals (Negative b)"
  by (simp add: Negative_def range_put_wf wf_bals_def)

lemma AmountOf_Positive [bal_simps]:
  "wf_bals b \<Longrightarrow> AmountOf (Positive b) i = (if 0 <s AmountOf b i then AmountOf b i else 0)"
  unfolding Positive_def AmountOf_entries entries_mkBals wf_bals_def
  by (auto simp: mget_def range_put_lookup split: option.splits)

lemma AmountOf_Negative [bal_simps]:
  "wf_bals b \<Longrightarrow> AmountOf (Negative b) i = (if AmountOf b i <s 0 then - AmountOf b i else 0)"
  unfolding Negative_def AmountOf_entries entries_mkBals wf_bals_def
  by (auto simp: mget_def range_put_lookup split: option.splits)

lemma set_AssetIDs: "wf_bals b \<Longrightarrow> set (AssetIDs b) = {i. AmountOf b i \<noteq> 0}"
  unfolding AssetIDs_def AmountOf_entries wf_bals_def by (rule keys_filter) auto

lemma distinct_AssetIDs: "wf_bals b \<Longrightarrow> distinct (AssetIDs b)"
  unfolding AssetIDs_def wf_bals_def using wf_filter [of "entries b"] by (simp add: wf_map_def)

lemma set_PositiveAssets: "wf_bals b \<Longrightarrow> set (PositiveAssets b) = {i. 0 <s AmountOf b i}"
  unfolding PositiveAssets_def AmountOf_entries wf_bals_def by (rule keys_filter) auto

lemma Validate_None_iff:
  "Balances_Validate b neg = None \<longleftrightarrow>
     (\<forall>(i, n) \<in> set (entries b). i \<noteq> '''' \<and> ValidAssetID i = None \<and> (neg \<or> 0 \<le>s n))"
  unfolding Balances_Validate_def first_error_None
  by (intro ball_cong refl) (auto simp: word_sless_alt word_sle_eq not_le split: option.splits if_splits)

section \<open>The contract of a ledger\<close>

locale ledger =
  fixes amt :: "'b \<Rightarrow> string \<Rightarrow> int64"
    and put :: "'b \<Rightarrow> string \<Rightarrow> int64 \<Rightarrow> 'b"
    and ok :: "'b \<Rightarrow> bool"
  assumes amt_put: "ok b \<Longrightarrow> amt (put b a n) i = amt b i + (if a \<noteq> '''' \<and> i = a then n else 0)"
    and ok_put: "ok b \<Longrightarrow> ok (put b a n)"
begin

text \<open>A list of changes \<open>(asset, delta)\<close>, applied one after the other.\<close>

lemma ok_fold: "ok b \<Longrightarrow> ok (fold (\<lambda>(a, n) b. put b a n) cs b)"
  by (induction cs arbitrary: b) (auto simp: ok_put)

lemma amt_fold:
  "ok b \<Longrightarrow> amt (fold (\<lambda>(a, n) b. put b a n) cs b) i =
     amt b i + (\<Sum>(a, n)\<leftarrow>cs. if a \<noteq> '''' \<and> i = a then n else 0)"
  by (induction cs arbitrary: b) (auto simp: ok_put amt_put)

text \<open>The order of the changes does not matter.\<close>

lemma amt_fold_perm:
  assumes "ok b" "mset cs = mset ds"
  shows "amt (fold (\<lambda>(a, n) b. put b a n) cs b) i = amt (fold (\<lambda>(a, n) b. put b a n) ds b) i"
proof -
  have "sum_list (map f cs) = sum_list (map f ds)" for f :: "string \<times> int64 \<Rightarrow> int64"
    using assms(2) by (metis mset_map sum_mset_sum_list)
  then show ?thesis using assms(1) by (simp add: amt_fold)
qed

text \<open>Undoing changes restores every amount.\<close>

lemma amt_fold_undo:
  assumes "ok b"
  shows "amt (fold (\<lambda>(a, n) b. put b a (n * - 1)) cs (fold (\<lambda>(a, n) b. put b a n) cs b)) i = amt b i"
proof -
  have m: "fold (\<lambda>(a, n) b. put b a (n * - 1)) cs = fold (\<lambda>(a, n) b. put b a n) (map (\<lambda>(a, n). (a, n * - 1)) cs)"
    by (simp add: fold_map comp_def case_prod_beta')
  have "(\<Sum>(a, n)\<leftarrow>map (\<lambda>(a, n). (a, n * - 1)) cs. if a \<noteq> '''' \<and> i = a then n else 0)
      = - (\<Sum>(a, n)\<leftarrow>cs. if a \<noteq> '''' \<and> i = a then n else 0)"
    by (induction cs) auto
  then show ?thesis
    unfolding m by (simp only: amt_fold ok_fold assms) simp
qed

end

interpretation bals: ledger AmountOf AddAmount wf_bals
  by unfold_locales (auto simp: bal_simps)

text \<open>The changes a list of possibly nil balances stands for.\<close>

fun changes :: "Balance option list \<Rightarrow> (string \<times> int64) list" where
  "changes [] = []"
| "changes (None # xs) = changes xs"
| "changes (Some x # xs) = (Balance_Asset x, Balance_Amt x) # changes xs"

lemma mset_changes:
  "mset (changes xs) = (\<Sum>b \<in># mset xs. case b of None \<Rightarrow> {#}
     | Some b \<Rightarrow> {#(Balance_Asset b, Balance_Amt b)#})"
  by (induction xs rule: changes.induct) auto

lemma Balances_Add_changes:
  "Balances_Add b xs = fold (\<lambda>(a, n) b. AddAmount b a n) (changes xs) (Balances_Copy b)"
proof -
  have "fold (\<lambda>add result. case add of None \<Rightarrow> result
      | Some add \<Rightarrow> AddAmount result (Balance_Asset add) (Balance_Amt add)) xs r
    = fold (\<lambda>(a, n) b. AddAmount b a n) (changes xs) r" for r
    by (induction xs arbitrary: r) (auto split: option.splits)
  then show ?thesis by (simp add: Balances_Add_def)
qed

lemma Balances_Sub_changes:
  "Balances_Sub b xs = fold (\<lambda>(a, n) b. AddAmount b a (n * - 1)) (changes xs) (Balances_Copy b)"
proof -
  have "fold (\<lambda>sub result. case sub of None \<Rightarrow> result
      | Some sub \<Rightarrow> SubAmount result (Balance_Asset sub) (Balance_Amt sub)) xs r
    = fold (\<lambda>(a, n) b. AddAmount b a (n * - 1)) (changes xs) r" for r
    by (induction xs arbitrary: r) (auto simp: SubAmount_def split: option.splits)
  then show ?thesis by (simp add: Balances_Sub_def)
qed

end
