(* ===== verification/BalancesLaws.thy ===== *)
theory BalancesLaws
  imports Balances
begin

text \<open>
  What the operations of \<open>Balances\<close> promise: exact effects over the integers, order independence,
  conservation when subtracting to zero, and the two places where the code departs from its
  documentation.
\<close>

abbreviation bal :: "Balances \<Rightarrow> string \<Rightarrow> int" where
  "bal b i \<equiv> sint (AmountOf b i)"

section \<open>Whole lists of changes\<close>

text \<open>
  Adding a list of balances adds to every asset the sum of its entries (modulo \<open>2 ^ 64\<close>), nil
  entries and empty asset IDs count for nothing, and neither the order of the list nor the
  iteration order of the map matters.
\<close>

theorem Balances_Add_amounts:
  assumes "wf_bals b" "mset xs = mset ys"
  shows "AmountOf (Balances_Add b xs) i =
      AmountOf b i + (\<Sum>(a, n)\<leftarrow>changes ys. if a \<noteq> '''' \<and> i = a then n else 0)"
proof -
  have m: "mset (changes xs) = mset (changes ys)"
    using assms(2) by (simp add: mset_changes)
  have c: "wf_bals (Balances_Copy b)" using assms(1) by (rule wf_Copy)
  have "AmountOf (Balances_Add b xs) i =
      AmountOf (fold (\<lambda>(a, n) b. AddAmount b a n) (changes ys) (Balances_Copy b)) i"
    unfolding Balances_Add_changes by (rule bals.amt_fold_perm [OF c m])
  also have "\<dots> = AmountOf b i + (\<Sum>(a, n)\<leftarrow>changes ys. if a \<noteq> '''' \<and> i = a then n else 0)"
    using assms(1) by (simp add: bals.amt_fold [OF c] bal_simps)
  finally show ?thesis .
qed

theorem Balances_Add_amounts_witness:
  "AmountOf (Balances_Add (NewBalances ''USD'' 5)
      [Some (NewBalance_uint64 ''EUR'' 1), None, Some (NewBalance_uint64 ''USD'' 2)]) ''USD'' = 7"
proof -
  let ?xs = "[Some (NewBalance_uint64 ''EUR'' 1), None, Some (NewBalance_uint64 ''USD'' 2)]"
  have w: "wf_bals (NewBalances ''USD'' 5)" by (simp add: NewBalances_def bal_simps)
  show ?thesis
    using Balances_Add_amounts [OF w refl, of ?xs "''USD''"]
    by (simp add: NewBalances_def bal_simps Balance_Amt_def)
qed

text \<open>
  Subtracting a list of balances undoes adding it: every amount is restored, even when a sum
  wrapped around on the way.
\<close>

theorem Balances_Sub_undoes_Add:
  assumes "wf_bals b"
  shows "AmountOf (Balances_Sub (Balances_Add b xs) xs) i = AmountOf b i"
proof -
  have c: "wf_bals (Balances_Copy b)" using assms by (rule wf_Copy)
  have w: "wf_bals (fold (\<lambda>(a, n) b. AddAmount b a n) (changes xs) (Balances_Copy b))"
    using bals.ok_fold [OF c] .
  show ?thesis
    using bals.amt_fold_undo [OF c, of "changes xs" i] bals.amt_fold [OF w, of "map (\<lambda>(a, n). (a, n * - 1)) (changes xs)"]
      bals.amt_fold [OF wf_Copy [OF w], of "map (\<lambda>(a, n). (a, n * - 1)) (changes xs)"] assms w
    by (simp add: Balances_Add_changes Balances_Sub_changes bal_simps fold_map comp_def case_prod_beta')
qed

theorem Balances_Sub_undoes_Add_witness:
  "AmountOf (Balances_Sub (Balances_Add EmptyBalances [Some (NewBalance_uint64 ''USD'' 2)])
      [Some (NewBalance_uint64 ''USD'' 2)]) ''USD'' = 0"
  using Balances_Sub_undoes_Add [OF wf_Empty, of "[Some (NewBalance_uint64 ''USD'' 2)]" "''USD''"]
  by (simp add: bal_simps)

text \<open>
  Whole balance sets form a group under \<open>AddBals\<close> and \<open>SubBals\<close>: amounts add and subtract
  pointwise, so each undoes the other, and \<open>Positive\<close> and \<open>Negative\<close> split a balance set into two
  parts whose difference it is.
\<close>

theorem Balances_group:
  assumes "wf_bals b" "wf_bals c"
  shows "AmountOf (AddBals b c) i = AmountOf (AddBals c b) i
    \<and> AmountOf (SubBals (AddBals b c) c) i = AmountOf b i
    \<and> AmountOf (SubBals (Positive b) (Negative b)) i = AmountOf b i"
proof (intro conjI)
  show "AmountOf (AddBals b c) i = AmountOf (AddBals c b) i"
    using assms by (simp add: bal_simps)
  show "AmountOf (SubBals (AddBals b c) c) i = AmountOf b i"
    using assms by (simp add: SubBals_def bal_simps)
  have "AmountOf b i = 0" if "\<not> 0 <s AmountOf b i" "\<not> AmountOf b i <s 0"
    using that by (simp add: word_sless_alt flip: sint_0_iff_64)
  moreover have "\<not> AmountOf b i <s 0" if "0 <s AmountOf b i"
    using that by (auto simp: word_sless_alt)
  ultimately show "AmountOf (SubBals (Positive b) (Negative b)) i = AmountOf b i"
    using assms by (auto simp: SubBals_def bal_simps)
qed

theorem Balances_group_witness:
  "AmountOf (SubBals (AddBals (NewBalances ''USD'' 5) (NewBalances ''EUR'' 7)) (NewBalances ''EUR'' 7)) ''USD'' = 5"
proof -
  have w: "wf_bals (NewBalances ''USD'' 5)" "wf_bals (NewBalances ''EUR'' 7)"
    by (simp_all add: NewBalances_def bal_simps)
  show ?thesis
    using Balances_group [OF w, of "''USD''"] by (simp add: NewBalances_def bal_simps)
qed

section \<open>Checked subtraction\<close>

lemma sint_diff_nonneg: "0 \<le> sint n \<Longrightarrow> sint n \<le> sint a \<Longrightarrow> sint (a - n) = sint a - sint n"
  for a n :: int64
  using sint_range_64 [of a] by (intro sint_diff_64) auto

lemma HasAtLeast_iff:
  "HasAtLeast b a n \<longleftrightarrow> n = 0 \<or> Bals b \<noteq> None \<and>
     (if sint n < 0 then bal b a \<le> sint n else sint n \<le> bal b a)"
  by (auto simp: HasAtLeast_def AmountOf_entries word_sless_alt word_sle_eq)



section \<open>Subtracting to zero\<close>

lemma SubBalToZero_exact:
  assumes "wf_bals b" "Balance_Asset s = a" "a \<noteq> ''''" "0 \<le> sint (Balance_Amount s)"
    and "SubBalToZero b s = (b', r)"
  shows "wf_bals b' \<and> Balance_Asset r = a \<and> 0 \<le> sint (Balance_Amount r)
    \<and> bal b' a = (if 0 < bal b a then max 0 (bal b a - sint (Balance_Amount s)) else bal b a)
    \<and> sint (Balance_Amount r) = sint (Balance_Amount s) - (bal b a - bal b' a)
    \<and> (\<forall>i. i \<noteq> a \<longrightarrow> AmountOf b' i = AmountOf b i)"
proof (cases "Bals b = None \<or> bal b a \<le> 0")
  case True
  then have "bal b a \<le> 0" by (auto simp: AmountOf_def)
  with True assms show ?thesis
    by (auto simp: SubBalToZero_def word_sle_eq bal_simps Let_def)
next
  case False
  let ?d = "AmountOf b a - Balance_Amount s"
  have d: "sint ?d = bal b a - sint (Balance_Amount s)"
    using False assms(4) sint_range_64 [of "AmountOf b a"] sint_range_64 [of "Balance_Amount s"]
    by (intro sint_diff_64) auto
  have m: "sint (- ?d) = - sint ?d"
    using d False assms(4) sint_range_64 [of "AmountOf b a"] sint_range_64 [of "Balance_Amount s"]
    by (intro sint_minus_64) auto
  from False assms d m show ?thesis
    by (cases "sint ?d < 0")
      (auto simp: SubBalToZero_def word_sle_eq word_sless_alt bal_simps Let_def Balance_Amt_def max_def)
qed

text \<open>
  \<open>SubBalToZero\<close> with a non-negative amount conserves value: what is taken from the balance and
  the surplus add up to the amount asked for, a positive balance falls to the truncated difference
  (never below zero), a zero or negative balance and every other asset are untouched.
\<close>

theorem SubBalToZero_conserves:
  assumes "wf_bals b" "Balance_Valid s" "0 \<le> sint (Balance_Amount s)"
  shows "\<exists>b' r. SubBalToZero b s = (b', r)
    \<and> bal b' (Balance_Asset s) = (if 0 < bal b (Balance_Asset s)
        then max 0 (bal b (Balance_Asset s) - sint (Balance_Amount s)) else bal b (Balance_Asset s))
    \<and> (bal b (Balance_Asset s) - bal b' (Balance_Asset s)) + sint (Balance_Amount r) = sint (Balance_Amount s)
    \<and> (\<forall>i. i \<noteq> Balance_Asset s \<longrightarrow> AmountOf b' i = AmountOf b i)"
proof -
  obtain b' r where e: "SubBalToZero b s = (b', r)" by force
  have "Balance_Asset s \<noteq> ''''" using assms(2) by (simp add: Balance_Valid_def)
  from SubBalToZero_exact [OF assms(1) refl this assms(3) e] show ?thesis
    using e by auto
qed

theorem SubBalToZero_conserves_witness:
  "\<exists>b' r. SubBalToZero (NewBalances ''USD'' 5) (NewBalance_uint64 ''USD'' 8) = (b', r)
     \<and> bal b' ''USD'' = 0 \<and> sint (Balance_Amount r) = 3"
proof -
  have w: "wf_bals (NewBalances ''USD'' 5)" "Balance_Valid (NewBalance_uint64 ''USD'' 8)"
    "0 \<le> sint (Balance_Amount (NewBalance_uint64 ''USD'' 8))"
    by (simp_all add: NewBalances_def bal_simps Balance_Valid_def)
  show ?thesis
    using SubBalToZero_conserves [OF w] by (auto simp: NewBalances_def bal_simps)
qed

text \<open>
  Contrary to its documentation (``negative or zero input is a no-op''), \<open>SubBalToZero\<close> with an
  amount that reads as negative, as \<open>SubToZero\<close> builds it from a negative entry, raises a positive
  balance by that much and reports a zero surplus.
\<close>

theorem SubBalToZero_negative_increases:
  assumes "wf_bals b" "Balance_Valid s" "sint (Balance_Amount s) < 0" "0 < bal b (Balance_Asset s)"
    and "bal b (Balance_Asset s) - sint (Balance_Amount s) < 2 ^ 63"
  shows "\<exists>b' r. SubBalToZero b s = (b', r) \<and> Balance_Amount r = 0
    \<and> bal b' (Balance_Asset s) = bal b (Balance_Asset s) - sint (Balance_Amount s)
    \<and> bal b (Balance_Asset s) < bal b' (Balance_Asset s)"
proof -
  let ?a = "Balance_Asset s"
  have d: "sint (AmountOf b ?a - Balance_Amount s) = bal b ?a - sint (Balance_Amount s)"
    using assms by (intro sint_diff_64) auto
  have nn: "Bals b \<noteq> None" using assms(4) by (cases "Bals b") (auto simp: AmountOf_def)
  show ?thesis
    using assms d nn
    by (auto simp: SubBalToZero_def word_sle_eq word_sless_alt bal_simps Let_def Balance_Amt_def Balance_Valid_def)
qed

theorem SubBalToZero_negative_increases_witness:
  "\<exists>b' r. SubBalToZero (NewBalances ''USD'' 10) (NewBalance_uint64 ''USD'' (- 5)) = (b', r)
     \<and> bal b' ''USD'' = 15 \<and> Balance_Amount r = 0"
proof -
  have w: "wf_bals (NewBalances ''USD'' 10)" "Balance_Valid (NewBalance_uint64 ''USD'' (- 5))"
    "sint (Balance_Amount (NewBalance_uint64 ''USD'' (- 5))) < 0"
    "0 < bal (NewBalances ''USD'' 10) (Balance_Asset (NewBalance_uint64 ''USD'' (- 5)))"
    "bal (NewBalances ''USD'' 10) (Balance_Asset (NewBalance_uint64 ''USD'' (- 5)))
       - sint (Balance_Amount (NewBalance_uint64 ''USD'' (- 5))) < 2 ^ 63"
    by (simp_all add: NewBalances_def bal_simps Balance_Valid_def)
  show ?thesis
    using SubBalToZero_negative_increases [OF w] by (auto simp: NewBalances_def bal_simps)
qed

text \<open>One round of the loop of \<open>SubToZero\<close>.\<close>

definition sub_round :: "Balances \<Rightarrow> string \<Rightarrow> Balances \<times> Balances \<Rightarrow> Balances \<times> Balances" where
  "sub_round subs aid = (\<lambda>(result, surplus).
     let sub = NewBalance_uint64 aid (AmountOf subs aid);
         (result, s) = SubBalToZero result sub
     in (result, Balances_Add surplus [Some s]))"

lemma SubToZero_sub_round:
  "SubToZero b subs = fold (sub_round subs) (AssetIDs subs) (Balances_Copy b, EmptyBalances)"
proof -
  have "sub_round subs = (\<lambda>aid (result, surplus).
      let sub = NewBalance_uint64 aid (AmountOf subs aid);
          (result, s) = SubBalToZero result sub
      in (result, Balances_Add surplus [Some s]))"
    by (simp add: fun_eq_iff sub_round_def)
  then show ?thesis by (simp only: SubToZero_def)
qed

lemma sub_round_step:
  assumes "wf_bals r" "wf_bals u" "aid \<noteq> ''''" "0 \<le> bal subs aid" "sub_round subs aid (r, u) = (r', u')"
  shows "wf_bals r' \<and> wf_bals u'
    \<and> bal r' aid = (if 0 < bal r aid then max 0 (bal r aid - bal subs aid) else bal r aid)
    \<and> (\<exists>s. AmountOf u' aid = AmountOf u aid + s \<and> sint s = bal subs aid - (bal r aid - bal r' aid))
    \<and> (\<forall>i. i \<noteq> aid \<longrightarrow> AmountOf r' i = AmountOf r i \<and> AmountOf u' i = AmountOf u i)"
proof -
  obtain q s where e: "SubBalToZero r (NewBalance_uint64 aid (AmountOf subs aid)) = (q, s)" by force
  then have q: "r' = q" "u' = AddAmount (Balances_Copy u) (Balance_Asset s) (Balance_Amt s)"
    using assms(5) by (auto simp: sub_round_def Let_def Balances_Add_def)
  have "wf_bals q \<and> Balance_Asset s = aid
    \<and> bal q aid = (if 0 < bal r aid then max 0 (bal r aid - bal subs aid) else bal r aid)
    \<and> sint (Balance_Amount s) = bal subs aid - (bal r aid - bal q aid)
    \<and> (\<forall>i. i \<noteq> aid \<longrightarrow> AmountOf q i = AmountOf r i)"
    using SubBalToZero_exact [OF assms(1) _ assms(3) _ e] assms(3,4) by simp
  then show ?thesis
    using assms(2,3) by (auto simp: q bal_simps Balance_Amt_def)
qed

lemma sub_rounds:
  assumes "wf_bals r" "wf_bals u" "distinct L" "\<forall>i \<in> set L. i \<noteq> '''' \<and> 0 \<le> bal subs i"
    and "fold (sub_round subs) L (r, u) = (r', u')"
  shows "(\<forall>i \<in> set L. bal r' i = (if 0 < bal r i then max 0 (bal r i - bal subs i) else bal r i)
      \<and> (\<exists>s. AmountOf u' i = AmountOf u i + s \<and> sint s = bal subs i - (bal r i - bal r' i)))
    \<and> (\<forall>i. i \<notin> set L \<longrightarrow> AmountOf r' i = AmountOf r i \<and> AmountOf u' i = AmountOf u i)"
  using assms
proof (induction L arbitrary: r u)
  case Nil
  then show ?case by simp
next
  case (Cons a L)
  obtain r1 u1 where e: "sub_round subs a (r, u) = (r1, u1)" by force
  have st: "wf_bals r1 \<and> wf_bals u1
    \<and> bal r1 a = (if 0 < bal r a then max 0 (bal r a - bal subs a) else bal r a)
    \<and> (\<exists>s. AmountOf u1 a = AmountOf u a + s \<and> sint s = bal subs a - (bal r a - bal r1 a))
    \<and> (\<forall>i. i \<noteq> a \<longrightarrow> AmountOf r1 i = AmountOf r i \<and> AmountOf u1 i = AmountOf u i)"
  proof (rule sub_round_step [OF Cons.prems(1,2) _ _ e])
    show "a \<noteq> ''''" "0 \<le> bal subs a" using Cons.prems(4) by simp_all
  qed
  have f: "fold (sub_round subs) L (r1, u1) = (r', u')" using Cons.prems(5) e by simp
  have IH: "(\<forall>i \<in> set L. bal r' i = (if 0 < bal r1 i then max 0 (bal r1 i - bal subs i) else bal r1 i)
      \<and> (\<exists>s. AmountOf u' i = AmountOf u1 i + s \<and> sint s = bal subs i - (bal r1 i - bal r' i)))
    \<and> (\<forall>i. i \<notin> set L \<longrightarrow> AmountOf r' i = AmountOf r1 i \<and> AmountOf u' i = AmountOf u1 i)"
  proof (rule Cons.IH [OF _ _ _ _ f])
    show "wf_bals r1" "wf_bals u1" using st by blast+
    show "distinct L" "\<forall>i \<in> set L. i \<noteq> '''' \<and> 0 \<le> bal subs i" using Cons.prems(3,4) by simp_all
  qed
  have "a \<notin> set L" using Cons.prems(3) by simp
  then show ?case
    using st IH by (metis set_ConsD list.set_intros)
qed

text \<open>
  C1: \<open>SubToZero\<close> of a balance set with non-negative entries conserves value asset by asset and for
  every iteration order of its argument: each positive balance falls to the truncated difference, and
  the surplus of an asset is exactly the part of the requested amount that was not taken.
\<close>

theorem SubToZero_conserves:
  assumes "wf_bals b" "wf_bals subs" "\<forall>(i, n) \<in> set (entries subs). i \<noteq> '''' \<and> 0 \<le> sint n"
  shows "\<exists>b' surplus. SubToZero b subs = (b', surplus) \<and> (\<forall>i.
      bal b' i = (if 0 < bal b i then max 0 (bal b i - bal subs i) else bal b i)
      \<and> (bal b i - bal b' i) + bal surplus i = bal subs i)"
proof -
  obtain b' u where e: "SubToZero b subs = (b', u)" by force
  have n: "i \<noteq> '''' \<and> 0 \<le> bal subs i" if "i \<in> set (AssetIDs subs)" for i
    using that assms(2,3) by (auto simp: AssetIDs_def AmountOf_entries wf_bals_def mget_in)
  have z: "AmountOf subs i = 0" if "i \<notin> set (AssetIDs subs)" for i
    using that assms(2) by (simp add: set_AssetIDs)
  have "(\<forall>i \<in> set (AssetIDs subs).
        bal b' i = (if 0 < bal b i then max 0 (bal b i - bal subs i) else bal b i)
        \<and> (\<exists>s. AmountOf u i = AmountOf EmptyBalances i + s \<and> sint s = bal subs i - (bal b i - bal b' i)))
      \<and> (\<forall>i. i \<notin> set (AssetIDs subs) \<longrightarrow> AmountOf b' i = AmountOf b i \<and> AmountOf u i = AmountOf EmptyBalances i)"
    using sub_rounds [OF wf_Copy [OF assms(1)] wf_Empty distinct_AssetIDs [OF assms(2)] _
        e [unfolded SubToZero_sub_round]] n by (simp only: AmountOf_Copy [OF assms(1)]) blast
  then have "bal b' i = (if 0 < bal b i then max 0 (bal b i - bal subs i) else bal b i)
      \<and> (bal b i - bal b' i) + bal u i = bal subs i" for i
    using z [of i] by (cases "i \<in> set (AssetIDs subs)") (auto simp: AmountOf_Empty)
  with e show ?thesis by blast
qed

theorem SubToZero_conserves_witness:
  "\<exists>b' surplus. SubToZero (NewBalances ''USD'' 5) (mkBals [(''USD'', 8)]) = (b', surplus)
     \<and> bal b' ''USD'' = 0 \<and> bal surplus ''USD'' = 3"
proof -
  have w: "wf_bals (NewBalances ''USD'' 5)" "wf_bals (mkBals [(''USD'', 8)])"
    "\<forall>(i, n) \<in> set (entries (mkBals [(''USD'', 8)])). i \<noteq> '''' \<and> 0 \<le> sint n"
    by (simp_all add: NewBalances_def bal_simps wf_map_def)
  obtain b' u where e: "SubToZero (NewBalances ''USD'' 5) (mkBals [(''USD'', 8)]) = (b', u)"
    and r: "\<forall>i. bal b' i = (if 0 < bal (NewBalances ''USD'' 5) i
        then max 0 (bal (NewBalances ''USD'' 5) i - bal (mkBals [(''USD'', 8)]) i)
        else bal (NewBalances ''USD'' 5) i)
      \<and> (bal (NewBalances ''USD'' 5) i - bal b' i) + bal u i = bal (mkBals [(''USD'', 8)]) i"
    using SubToZero_conserves [OF w] by blast
  have "bal b' ''USD'' = 0 \<and> bal u ''USD'' = 3"
    using r [rule_format, of "''USD''"]
    by (simp add: NewBalances_def bal_simps AmountOf_entries [of "mkBals _"] mget_def)
  with e show ?thesis by blast
qed

section \<open>Periods stored as balances\<close>

lemma special_prefix_fold:
  assumes "wf_map m"
    and "\<forall>(i, v) \<in> set m. \<forall>k. HasPrefix i pre \<and> ParseInt (TrimPrefix i pre) = Inr k \<longrightarrow> i = pre @ FormatInt k"
  shows "map_of (fold (\<lambda>(i, v) r. if HasPrefix i pre then
        (case ParseInt (TrimPrefix i pre) of Inl _ \<Rightarrow> r | Inr k \<Rightarrow> mput k v r) else r) m r) n
    = (case map_of m (pre @ FormatInt n) of Some v \<Rightarrow> Some v | None \<Rightarrow> map_of r n)"
  using assms
proof (induction m arbitrary: r)
  case Nil
  then show ?case by simp
next
  case (Cons iv m)
  obtain i v where iv: "iv = (i, v)" by (cases iv)
  let ?r = "if HasPrefix i pre then
    (case ParseInt (TrimPrefix i pre) of Inl _ \<Rightarrow> r | Inr k \<Rightarrow> mput k v r) else r"
  have m: "wf_map m" "map_of m i = None"
    using Cons.prems(1) by (auto simp: iv wf_map_def map_of_eq_None_iff)
  have IH: "map_of (fold (\<lambda>(i, v) r. if HasPrefix i pre then
        (case ParseInt (TrimPrefix i pre) of Inl _ \<Rightarrow> r | Inr k \<Rightarrow> mput k v r) else r) m ?r) n
    = (case map_of m (pre @ FormatInt n) of Some v \<Rightarrow> Some v | None \<Rightarrow> map_of ?r n)"
    using Cons.IH [OF m(1)] Cons.prems(2) by simp
  have "map_of ?r n = (if i = pre @ FormatInt n then Some v else map_of r n)"
  proof (cases "i = pre @ FormatInt n")
    case True
    then show ?thesis by (simp add: ParseInt_FormatInt gomap_simps)
  next
    case False
    then have "ParseInt (TrimPrefix i pre) \<noteq> Inr n \<or> \<not> HasPrefix i pre"
      using Cons.prems(2) by (auto simp: iv)
    with False show ?thesis by (auto simp: gomap_simps split: sum.splits)
  qed
  with IH m(2) show ?case
    by (auto simp: iv split: option.splits)
qed

text \<open>
  \<open>InterpretSpecialPrefix\<close> is the inverse of the key format: when the period of every matching key
  is written as \<open>%d\<close> prints it, the result maps a period to the amount stored under
  ``asset-prefix period'', for every iteration order, and contains nothing else.
\<close>

theorem InterpretSpecialPrefix_inverse:
  assumes "wf_bals b"
    and "\<forall>(i, v) \<in> set (entries b). \<forall>k. HasPrefix i (asset @ ''-'' @ pre) \<and>
      ParseInt (TrimPrefix i (asset @ ''-'' @ pre)) = Inr k \<longrightarrow> i = (asset @ ''-'' @ pre) @ FormatInt k"
  shows "map_of (InterpretSpecialPrefix b asset pre) n =
    map_of (entries b) ((asset @ ''-'' @ pre) @ FormatInt n)"
  using special_prefix_fold [of "entries b" "asset @ ''-'' @ pre" "[]" n] assms
  unfolding InterpretSpecialPrefix_def wf_bals_def Let_def
  by (simp split: option.splits)

theorem InterpretSpecialPrefix_inverse_witness:
  "map_of (InterpretSpecialPrefix (mkBals [(''Asset_A-Coupon_123'', 456)]) ''Asset_A'' ''Coupon_'') 123 = Some 456"
proof -
  have f: "FormatInt 123 = ''123''" by code_simp
  have w: "wf_bals (mkBals [(''Asset_A-Coupon_123'', 456)])" by (simp add: wf_map_def)
  have p: "ParseInt ''123'' = Inr 123" using ParseInt_FormatInt [of 123] by (simp only: f)
  have c: "\<forall>(i, v) \<in> set (entries (mkBals [(''Asset_A-Coupon_123'', 456)])). \<forall>k.
      HasPrefix i (''Asset_A'' @ ''-'' @ ''Coupon_'') \<and>
      ParseInt (TrimPrefix i (''Asset_A'' @ ''-'' @ ''Coupon_'')) = Inr k \<longrightarrow>
      i = (''Asset_A'' @ ''-'' @ ''Coupon_'') @ FormatInt k"
    using p f by (auto simp: TrimPrefix_def)
  show ?thesis
    using InterpretSpecialPrefix_inverse [OF w c, of 123] by (simp add: f)
qed

end
