(* ===== verification/Amounts.thy ===== *)
theory Amounts
  imports SafeMath
begin

text \<open>
  \<open>src/ledger/types/amount.go\<close>: an asset ID with an unsigned amount, and its arithmetic, which
  rejects mismatched assets, overflow and negative results. The lemmas read every operation over
  the integers and rest on the contract \<open>checked_op\<close> of the arithmetic below it.
\<close>

record Amount =
  Amount_AssetID :: string
  Amount_Amount :: uint64

definition NewAmount :: "string \<Rightarrow> uint64 \<Rightarrow> Amount" where
  "NewAmount assetID amount = \<lparr>Amount_AssetID = assetID, Amount_Amount = amount\<rparr>"

definition ZeroAmount :: "string \<Rightarrow> Amount" where
  "ZeroAmount assetID = NewAmount assetID 0"

text \<open>The zero value \<open>Amount{}\<close>, returned beside an error.\<close>

definition nilAmount :: Amount where
  "nilAmount = NewAmount '''' 0"

definition Amount_Equal :: "Amount \<Rightarrow> Amount \<Rightarrow> bool" where
  "Amount_Equal a x =
     (Amount_AssetID a = Amount_AssetID x \<and> Amount_Amount a = Amount_Amount x)"

definition Amount_Copy :: "Amount \<Rightarrow> Amount" where
  "Amount_Copy a = NewAmount (Amount_AssetID a) (Amount_Amount a)"

definition Amount_Match :: "Amount \<Rightarrow> Amount \<Rightarrow> bool" where
  "Amount_Match a bal = (Amount_AssetID a = Amount_AssetID bal)"

definition Amount_Add :: "Amount \<Rightarrow> Amount \<Rightarrow> error + Amount" where
  "Amount_Add a amt =
     (if \<not> Amount_Match a amt then Inl (New InternalError ''Amount.Add: AssetIDs did not match'')
      else case CheckedAddU64 (Amount_Amount a) (Amount_Amount amt) of
        Inl e \<Rightarrow> Inl e
      | Inr result \<Rightarrow> Inr \<lparr>Amount_AssetID = Amount_AssetID a, Amount_Amount = result\<rparr>)"

text \<open>\<open>marshal\<close> and \<open>unmarshal\<close> are the JSON library on the struct.\<close>

definition Amount_MarshalBinary :: "(Amount \<Rightarrow> error + string) \<Rightarrow> Amount \<Rightarrow> error + string" where
  "Amount_MarshalBinary marshal a = marshal a"

definition Amount_UnmarshalBinary ::
  "(string \<Rightarrow> Amount \<Rightarrow> error option \<times> Amount) \<Rightarrow> string \<Rightarrow> Amount \<Rightarrow> error option \<times> Amount" where
  "Amount_UnmarshalBinary unmarshal data a = unmarshal data a"

definition Amount_AddUint64 :: "Amount \<Rightarrow> uint64 \<Rightarrow> error + Amount" where
  "Amount_AddUint64 a amt =
     (case CheckedAddU64 (Amount_Amount a) amt of
        Inl e \<Rightarrow> Inl (WrapError ''Amount.Add'' e)
      | Inr result \<Rightarrow> Inr \<lparr>Amount_AssetID = Amount_AssetID a, Amount_Amount = result\<rparr>)"

definition Amount_Sub :: "Amount \<Rightarrow> Amount \<Rightarrow> error + Amount" where
  "Amount_Sub a amt =
     (if \<not> Amount_Match a amt then Inl (New InternalError ''Amount.Sub: AssetIDs did not match'')
      else case CheckedSubU64 (Amount_Amount a) (Amount_Amount amt) of
        Inl e \<Rightarrow> Inl e
      | Inr result \<Rightarrow> Inr \<lparr>Amount_AssetID = Amount_AssetID a, Amount_Amount = result\<rparr>)"

definition Amount_SubUint64 :: "Amount \<Rightarrow> uint64 \<Rightarrow> error + Amount" where
  "Amount_SubUint64 a amt =
     (case CheckedSubU64 (Amount_Amount a) amt of
        Inl e \<Rightarrow> Inl (WrapError ''Amount.Sub'' e)
      | Inr result \<Rightarrow> Inr \<lparr>Amount_AssetID = Amount_AssetID a, Amount_Amount = result\<rparr>)"

text \<open>A checked result whose error is dropped (\<open>result, _ :=\<close>): the value is 0 beside an error.\<close>

definition value_or_zero :: "error + uint64 \<Rightarrow> uint64" where
  "value_or_zero r = (case r of Inl _ \<Rightarrow> 0 | Inr v \<Rightarrow> v)"

definition Amount_LTUint64 :: "Amount \<Rightarrow> uint64 \<Rightarrow> bool" where
  "Amount_LTUint64 a amt = (Amount_Amount a < amt)"

definition Amount_LTEUint64 :: "Amount \<Rightarrow> uint64 \<Rightarrow> bool" where
  "Amount_LTEUint64 a amt = (Amount_Amount a \<le> amt)"

definition Amount_GTUint64 :: "Amount \<Rightarrow> uint64 \<Rightarrow> bool" where
  "Amount_GTUint64 a amt = (Amount_Amount a > amt)"

definition Amount_GTEUint64 :: "Amount \<Rightarrow> uint64 \<Rightarrow> bool" where
  "Amount_GTEUint64 a amt = (Amount_Amount a \<ge> amt)"

definition Amount_SubToZero :: "Amount \<Rightarrow> Amount \<Rightarrow> error + (Amount \<times> Amount)" where
  "Amount_SubToZero a amt =
     (if \<not> Amount_Match a amt then Inl (New InternalError ''Amount.Sub: AssetIDs did not match'')
      else let amt = (if Amount_LTUint64 a (Amount_Amount amt) then Amount_Copy a else amt);
               result = value_or_zero (CheckedSubU64 (Amount_Amount a) (Amount_Amount amt))
        in Inr (\<lparr>Amount_AssetID = Amount_AssetID a, Amount_Amount = result\<rparr>, amt))"

definition Amount_SubToZeroUint64 :: "Amount \<Rightarrow> uint64 \<Rightarrow> error + (Amount \<times> uint64)" where
  "Amount_SubToZeroUint64 a amt =
     (if Amount_Amount a < amt
      then Inr (\<lparr>Amount_AssetID = Amount_AssetID a, Amount_Amount = 0\<rparr>, Amount_Amount a)
      else let result = value_or_zero (CheckedSubU64 (Amount_Amount a) amt)
        in Inr (\<lparr>Amount_AssetID = Amount_AssetID a, Amount_Amount = result\<rparr>, amt))"

definition Amount_LT :: "Amount \<Rightarrow> Amount \<Rightarrow> error + bool" where
  "Amount_LT a x =
     (if \<not> Amount_Match a x then Inl (New InternalError ''Amount.Sub: AssetIDs did not match'')
      else Inr (Amount_Amount a < Amount_Amount x))"

definition Amount_LTE :: "Amount \<Rightarrow> Amount \<Rightarrow> error + bool" where
  "Amount_LTE a x =
     (if \<not> Amount_Match a x then Inl (New InternalError ''Amount.Sub: AssetIDs did not match'')
      else Inr (Amount_Amount a \<le> Amount_Amount x))"

definition Amount_GT :: "Amount \<Rightarrow> Amount \<Rightarrow> error + bool" where
  "Amount_GT a x =
     (if \<not> Amount_Match a x then Inl (New InternalError ''Amount.Sub: AssetIDs did not match'')
      else Inr (Amount_Amount a > Amount_Amount x))"

definition Amount_GTE :: "Amount \<Rightarrow> Amount \<Rightarrow> error + bool" where
  "Amount_GTE a x =
     (if \<not> Amount_Match a x then Inl (New InternalError ''Amount.Sub: AssetIDs did not match'')
      else Inr (Amount_Amount a \<ge> Amount_Amount x))"

definition Amount_Validate :: "Amount \<Rightarrow> error option" where
  "Amount_Validate a =
     (if Amount_AssetID a = '''' then Some (Data ''Amount with empty AssetID'') else None)"

definition Amount_IsZero :: "Amount \<Rightarrow> bool" where
  "Amount_IsZero a = (Amount_Amount a = 0)"

definition Amount_String :: "Amount \<Rightarrow> string" where
  "Amount_String a = FormatUint (Amount_Amount a) @ '' '' @ Amount_AssetID a"

lemmas amount_defs = Amount_Add_def Amount_AddUint64_def Amount_Sub_def Amount_SubUint64_def
  Amount_SubToZero_def Amount_SubToZeroUint64_def Amount_Match_def Amount_Copy_def NewAmount_def
  Amount_LTUint64_def value_or_zero_def

section \<open>Behaviour over the integers\<close>

abbreviation amt_int :: "Amount \<Rightarrow> int" where
  "amt_int a \<equiv> uint (Amount_Amount a)"

lemma Amount_eq_iff:
  "\<lparr>Amount_AssetID = i, Amount_Amount = v\<rparr> = c \<longleftrightarrow> Amount_AssetID c = i \<and> amt_int c = uint v"
  by (cases c) (auto simp: word_uint_eq_iff)

lemma Amount_Add_Inr_iff:
  "Amount_Add a b = Inr c \<longleftrightarrow>
     Amount_Match a b \<and> Amount_AssetID c = Amount_AssetID a \<and> amt_int c = amt_int a + amt_int b"
proof (cases "CheckedAddU64 (Amount_Amount a) (Amount_Amount b)")
  case (Inl e)
  then show ?thesis
    using add.Inr_iff [of "Amount_Amount a" "Amount_Amount b" "Amount_Amount c"]
    by (simp add: Amount_Add_def)
next
  case (Inr v)
  then show ?thesis
    using add.Inr_iff [of "Amount_Amount a" "Amount_Amount b" v]
    by (auto simp: Amount_Add_def Amount_eq_iff)
qed

lemma Amount_Sub_Inr_iff:
  "Amount_Sub a b = Inr c \<longleftrightarrow>
     Amount_Match a b \<and> Amount_AssetID c = Amount_AssetID a \<and> amt_int c = amt_int a - amt_int b"
proof (cases "CheckedSubU64 (Amount_Amount a) (Amount_Amount b)")
  case (Inl e)
  then show ?thesis
    using sub.Inr_iff [of "Amount_Amount a" "Amount_Amount b" "Amount_Amount c"]
    by (simp add: Amount_Sub_def)
next
  case (Inr v)
  then show ?thesis
    using sub.Inr_iff [of "Amount_Amount a" "Amount_Amount b" v]
    by (auto simp: Amount_Sub_def Amount_eq_iff)
qed

lemma Amount_AddUint64_Inr_iff:
  "Amount_AddUint64 a n = Inr c \<longleftrightarrow>
     Amount_AssetID c = Amount_AssetID a \<and> amt_int c = amt_int a + uint n"
proof (cases "CheckedAddU64 (Amount_Amount a) n")
  case (Inl e)
  then show ?thesis
    using add.Inr_iff [of "Amount_Amount a" n "Amount_Amount c"] by (simp add: Amount_AddUint64_def)
next
  case (Inr v)
  then show ?thesis
    using add.Inr_iff [of "Amount_Amount a" n v] by (auto simp: Amount_AddUint64_def Amount_eq_iff)
qed

lemma Amount_SubToZero_uint64:
  "Amount_SubToZero a b =
     (if Amount_Match a b
      then case Amount_SubToZeroUint64 a (Amount_Amount b) of
          Inl e \<Rightarrow> Inl e
        | Inr (r, n) \<Rightarrow> Inr (r, \<lparr>Amount_AssetID = Amount_AssetID a, Amount_Amount = n\<rparr>)
      else Inl (New InternalError ''Amount.Sub: AssetIDs did not match''))"
  by (auto simp: amount_defs Let_def CheckedSubU64_cases)

section \<open>Properties\<close>

text \<open>
  \<open>Add\<close> and \<open>Sub\<close> are exact over the integers and inverse to each other: \<open>Sub\<close> succeeds with \<open>c\<close>
  exactly when the asset IDs match and \<open>a = b + c\<close>, that is when adding \<open>b\<close> back to \<open>c\<close> gives \<open>a\<close>.
\<close>

theorem Amount_Sub_iff_Add:
  "Amount_Sub a b = Inr c \<longleftrightarrow>
     Amount_AssetID c = Amount_AssetID a \<and> Amount_Add c b = Inr a"
  unfolding Amount_Sub_Inr_iff Amount_Add_Inr_iff by (auto simp: Amount_Match_def)

text \<open>
  Subtracting to zero never loses value: for matching assets it returns the truncated difference
  and the amount really subtracted, the two add up to the original amount, and \<open>SubToZero\<close> and
  \<open>SubToZeroUint64\<close> agree.
\<close>

theorem Amount_SubToZero_conserves:
  assumes "Amount_Match a b"
  shows "\<exists>r s. Amount_SubToZero a b = Inr (r, s) \<and> Amount_SubToZeroUint64 a (Amount_Amount b) = Inr (r, Amount_Amount s)
     \<and> amt_int r = max 0 (amt_int a - amt_int b) \<and> amt_int s = min (amt_int a) (amt_int b)
     \<and> Amount_Add r s = Inr a"
proof -
  have u: "uint (x - y) = uint x - uint y" if "y \<le> x" for x y :: uint64
    using that by (simp add: word_le_def uint_sub_lem)
  show ?thesis
    using assms unfolding Amount_Add_Inr_iff
    by (cases "Amount_Amount a < Amount_Amount b")
      (auto simp: amount_defs Let_def CheckedSubU64_cases u not_less word_less_alt word_le_def)
qed

theorem Amount_SubToZero_conserves_witness:
  "\<exists>r s. Amount_SubToZero (NewAmount ''USD'' 3) (NewAmount ''USD'' 5) = Inr (r, s)
     \<and> amt_int r = 0 \<and> amt_int s = 3"
proof -
  have m: "Amount_Match (NewAmount ''USD'' 3) (NewAmount ''USD'' 5)"
    by (simp add: Amount_Match_def NewAmount_def)
  show ?thesis
    using Amount_SubToZero_conserves [OF m] by (auto simp: NewAmount_def)
qed

end
