(* ===== verification/BigMath.thy ===== *)
theory BigMath
  imports FloatOps GoErrors Prelude
begin

text \<open>
  The helpers over \<open>math/big\<close>: \<open>src/math/arithmetic.go\<close>, \<open>math.go\<close>, \<open>exponential.go\<close> and
  \<open>string.go\<close>.

  A \<open>*big.Int\<close> that may be nil is an \<open>int option\<close>; a \<open>*big.Float\<close> is a \<open>bigfloat\<close> (see \<open>FloatOps\<close>:
  the value \<open>FNaN\<close> stands for the panic \<open>ErrNaN\<close>). Functions that may panic return an \<open>option\<close>.
  The text form of a \<open>big.Float\<close> is a parameter: \<open>setString\<close> reads it, \<open>text\<close> prints it.
\<close>

section \<open>arithmetic.go\<close>

definition math_Float :: "int \<Rightarrow> bigfloat" where
  "math_Float i = SetInt (NewFloat (FZero False)) i"

text \<open>The conversion leaves its receiver, a fresh 0, unchanged for an infinity.\<close>

definition math_Int :: "bigfloat \<Rightarrow> int option" where
  "math_Int f = (case bval f of FNaN \<Rightarrow> None | FInf s \<Rightarrow> Some 0 | FZero s \<Rightarrow> Some 0 | FFin q \<Rightarrow> Some (ftrunc q))"

definition math_Add :: "int list \<Rightarrow> int" where
  "math_Add ints = foldl (+) 0 ints"

definition math_Sub :: "int \<Rightarrow> int list \<Rightarrow> int" where
  "math_Sub i ints = foldl (-) (0 + i) ints"

definition math_Mul :: "int list \<Rightarrow> int" where
  "math_Mul ints = foldl (*) 1 ints"

definition math_AddF :: "bigfloat list \<Rightarrow> bigfloat" where
  "math_AddF floats = foldl (\<lambda>sum n. bigAdd sum sum n) (NewFloat (FZero False)) floats"

definition math_SubF :: "bigfloat \<Rightarrow> bigfloat list \<Rightarrow> bigfloat" where
  "math_SubF f floats =
     foldl (\<lambda>diff n. bigSub diff diff n)
       (bigAdd (NewFloat (FZero False)) (NewFloat (FZero False)) f) floats"

definition math_MulF :: "bigfloat list \<Rightarrow> bigfloat" where
  "math_MulF floats = foldl (\<lambda>product n. bigMul product product n) (NewFloat (FFin 1)) floats"

definition math_DivF :: "bigfloat \<Rightarrow> bigfloat list \<Rightarrow> bigfloat" where
  "math_DivF f floats =
     foldl (\<lambda>quo n. bigQuo quo quo n)
       (bigAdd (NewFloat (FZero False)) (NewFloat (FZero False)) f) floats"

text \<open>\<open>Float.Int\<close> with a given or nil receiver returns a nil pointer for an infinity.\<close>

definition bigInt_ptr :: "bigfloat \<Rightarrow> int option option" where
  "bigInt_ptr f = (case bval f of FNaN \<Rightarrow> None | FInf s \<Rightarrow> Some None
     | FZero s \<Rightarrow> Some (Some 0) | FFin q \<Rightarrow> Some (Some (ftrunc q)))"

definition math_MulIF :: "int \<Rightarrow> bigfloat \<Rightarrow> int option option" where
  "math_MulIF i f =
     (let iFloat = SetInt (NewFloat (FZero False)) i;
          outFloat = math_MulF [iFloat, f]
      in bigInt_ptr outFloat)"

definition math_MulIF64 :: "int \<Rightarrow> gofloat \<Rightarrow> int option option" where
  "math_MulIF64 i f64 = (if f64 = FNaN then None else math_MulIF i (NewFloat f64))"

definition math_MulI64 :: "int \<Rightarrow> int64 \<Rightarrow> int" where
  "math_MulI64 i i64 = math_Mul [i, sint i64]"

definition math_Div :: "int \<Rightarrow> int list \<Rightarrow> bigfloat" where
  "math_Div i ints =
     foldl (\<lambda>quo n. bigQuo quo quo (math_Float n))
       (bigAdd (NewFloat (FZero False)) (NewFloat (FZero False)) (math_Float i)) ints"

text \<open>The correctly rounded square sqrt_to of the library, for a given precision, is \<open>sqrt_to\<close>.\<close>

definition math_Sqrt :: "(nat \<Rightarrow> bigfloat \<Rightarrow> bigfloat) \<Rightarrow> bigfloat \<Rightarrow> bigfloat" where
  "math_Sqrt sqrt_to f =
     (let f = (if bigSign f = - 1 then math_MulF [f, NewFloat (FFin (- 1))] else f)
      in sqrt_to (bprec (NewFloat (FFin 1))) f)"

definition math_MinF64 :: "gofloat \<Rightarrow> gofloat \<Rightarrow> gofloat" where
  "math_MinF64 a b = (if flt a b then a else b)"

definition math_MaxF64 :: "gofloat \<Rightarrow> gofloat \<Rightarrow> gofloat" where
  "math_MaxF64 a b = (if flt b a then a else b)"

text \<open>Euclidean division and modulus of \<open>big.Int\<close>: \<open>0 \<le> mod < |b|\<close>; \<open>None\<close> is the division panic.\<close>

definition EDiv :: "int \<Rightarrow> int \<Rightarrow> int" where
  "EDiv a b = (if 0 < b then a div b else - (a div - b))"

definition EMod :: "int \<Rightarrow> int \<Rightarrow> int" where
  "EMod a b = a mod \<bar>b\<bar>"

definition math_DivI :: "int \<Rightarrow> int \<Rightarrow> bool \<Rightarrow> int option" where
  "math_DivI a b roundUp =
     (if b = 0 then None
      else let quo = EDiv a b; m = EMod a b
        in Some (if roundUp \<and> sgn m = 1 then math_Add [quo, 1] else quo))"

text \<open>\<open>RoundBigInt\<close> adds to its argument in place: the result holds the argument's new value too.\<close>

definition RoundBigInt :: "bigfloat \<Rightarrow> bigfloat \<times> int option option" where
  "RoundBigInt x =
     (let delta = (if bigSign x < 0 then F64 (- 1 / 2) else F64 (1 / 2));
          x = bigAdd x x (SetFloat64 newBigFloat delta)
      in (x, bigInt_ptr x))"

definition math_MulIF64Round :: "int \<Rightarrow> gofloat \<Rightarrow> int option option" where
  "math_MulIF64Round i f64 =
     (if f64 = FNaN then None
      else let f = NewFloat f64;
          iFloat = SetInt (NewFloat (FZero False)) i;
          outFloat = math_MulF [f, iFloat]
        in snd (RoundBigInt outFloat))"

section \<open>math.go\<close>

definition BigInt100Percent :: int where "BigInt100Percent = 1000000"

text \<open>The table \<open>Exponents\<close>: the nearest \<open>float64\<close> of every power of ten from -18 to 18.\<close>

definition Exponents :: "int \<Rightarrow> bigfloat option" where
  "Exponents d = (if - 18 \<le> d \<and> d \<le> 18
     then Some (NewFloat (F64 (if d < 0 then 1 / 10 ^ nat (- d) else 10 ^ nat d))) else None)"

definition math_IsNegative :: "int option \<Rightarrow> bool" where
  "math_IsNegative n = (case n of None \<Rightarrow> False | Some i \<Rightarrow> sgn i = - 1)"

definition math_IsPositive :: "int option \<Rightarrow> bool" where
  "math_IsPositive n = (case n of None \<Rightarrow> False | Some i \<Rightarrow> 0 < sgn i)"

definition AllPositive :: "int option list \<Rightarrow> bool" where
  "AllPositive ints = list_all (\<lambda>n. case n of None \<Rightarrow> False | Some i \<Rightarrow> \<not> sgn i \<le> 0) ints"

definition math_IsZero :: "int option \<Rightarrow> bool" where
  "math_IsZero n = (case n of None \<Rightarrow> False | Some i \<Rightarrow> sgn i = 0)"

definition bigIntCmp :: "int \<Rightarrow> int \<Rightarrow> int" where
  "bigIntCmp x y = (if x < y then - 1 else if x = y then 0 else 1)"

definition math_LT :: "int option \<Rightarrow> int option \<Rightarrow> bool" where
  "math_LT x y = (case (x, y) of (Some x, Some y) \<Rightarrow> bigIntCmp x y = - 1 | _ \<Rightarrow> False)"

definition math_EQ :: "int option \<Rightarrow> int option \<Rightarrow> bool" where
  "math_EQ x y = (case (x, y) of (Some x, Some y) \<Rightarrow> bigIntCmp x y = 0 | _ \<Rightarrow> False)"

definition math_NotEQ :: "int option \<Rightarrow> int option \<Rightarrow> bool" where
  "math_NotEQ x y = (\<not> math_EQ x y)"

definition math_GT :: "int option \<Rightarrow> int option \<Rightarrow> bool" where
  "math_GT x y = (case (x, y) of (Some x, Some y) \<Rightarrow> bigIntCmp x y = 1 | _ \<Rightarrow> False)"

definition math_LTE :: "int option \<Rightarrow> int option \<Rightarrow> bool" where
  "math_LTE x y = (math_EQ x y \<or> math_LT x y)"

definition math_GTE :: "int option \<Rightarrow> int option \<Rightarrow> bool" where
  "math_GTE x y = (math_EQ x y \<or> math_GT x y)"

definition IsFloatPositive :: "bigfloat option \<Rightarrow> bool" where
  "IsFloatPositive n = (case n of None \<Rightarrow> False | Some f \<Rightarrow> 0 < bigSign f)"

definition IsFloatZero :: "bigfloat option \<Rightarrow> bool" where
  "IsFloatZero n = (case n of None \<Rightarrow> False | Some f \<Rightarrow> bigSign f = 0)"

definition ZeroBigInt :: int where "ZeroBigInt = 0"

text \<open>\<open>big.Int.SetString\<close> in base 10: an optional sign and at least one digit, nothing else.\<close>

definition digits_value :: "string \<Rightarrow> nat" where
  "digits_value ds = foldl (\<lambda>n c. n * 10 + digit_val c) 0 ds"

definition BigInt_SetString :: "string \<Rightarrow> int option" where
  "BigInt_SetString s = (let (neg, ds) = split_sign s
     in if ds \<noteq> [] \<and> list_all is_digit ds
        then Some (if neg then - int (digits_value ds) else int (digits_value ds)) else None)"

definition ValidBigInt :: "string \<Rightarrow> error + int" where
  "ValidBigInt value = (case BigInt_SetString value of
     None \<Rightarrow> Inl (Data (value @ '' is not a valid big.Int'')) | Some v \<Rightarrow> Inr v)"

definition ValidBigInts :: "string list \<Rightarrow> error + int list" where
  "ValidBigInts values = map_result ValidBigInt values"

definition ValidNotNegativeBigInt :: "string \<Rightarrow> error + int" where
  "ValidNotNegativeBigInt value = (case ValidBigInt value of Inl e \<Rightarrow> Inl e
     | Inr v \<Rightarrow> if math_IsNegative (Some v) then Inl (Data (value @ '' is negative'')) else Inr v)"

definition ValidPositiveBigInt :: "string \<Rightarrow> error + int" where
  "ValidPositiveBigInt value = (case ValidBigInt value of Inl e \<Rightarrow> Inl e
     | Inr v \<Rightarrow> if \<not> math_IsPositive (Some v) then Inl (Data (value @ '' is not positive'')) else Inr v)"

definition ValidPositiveBigInts :: "string list \<Rightarrow> error + int list" where
  "ValidPositiveBigInts values = map_result ValidPositiveBigInt values"

definition ValidBigIntPercentage :: "string \<Rightarrow> error + int" where
  "ValidBigIntPercentage value = (case ValidBigInt value of Inl e \<Rightarrow> Inl e
     | Inr v \<Rightarrow> if math_GT (Some v) (Some BigInt100Percent) then Inl ErrBigIntNotValidPercentage
         else if math_IsNegative (Some v) then Inl ErrBigIntNotValidPercentage
         else Inr v)"

text \<open>\<open>%f\<close>: six decimals, rounded to even from the exact value.\<close>

definition fmt_f :: "gofloat \<Rightarrow> string" where
  "fmt_f x = (case x of FNaN \<Rightarrow> ''NaN'' | FInf s \<Rightarrow> (if s then ''-Inf'' else ''+Inf'')
     | _ \<Rightarrow> let n = nat (rne (\<bar>fval x\<bar> * 10 ^ 6)); frac = show_nat (n mod 10 ^ 6)
         in (if signbit x then ''-'' else []) @ show_nat (n div 10 ^ 6) @ ''.''
            @ replicate (6 - length frac) (CHR ''0'') @ frac)"

definition ValidPositiveFloat64 :: "gofloat \<Rightarrow> error option" where
  "ValidPositiveFloat64 value =
     (if value = FNaN then Some (Data ''float64 was NaN'')
      else if value = FInf True \<or> value = FInf False then Some (Data ''float64 was infinite'')
      else if fle value (FZero False)
        then Some (Data (''float64 '' @ fmt_f value @ '' was not positive''))
      else None)"

definition ValidPositiveFloat64s :: "gofloat list \<Rightarrow> error option" where
  "ValidPositiveFloat64s values = first_error ValidPositiveFloat64 values"

definition ValidBigFloat :: "(string \<Rightarrow> bigfloat option) \<Rightarrow> string \<Rightarrow> error + bigfloat" where
  "ValidBigFloat setString value = (case setString value of
     None \<Rightarrow> Inl (Data (value @ '' is not a valid big.Float'')) | Some v \<Rightarrow> Inr v)"

definition ValidBigFloats :: "(string \<Rightarrow> bigfloat option) \<Rightarrow> string list \<Rightarrow> error + bigfloat list" where
  "ValidBigFloats setString values = map_result (ValidBigFloat setString) values"

definition ValidPositiveBigFloat :: "(string \<Rightarrow> bigfloat option) \<Rightarrow> string \<Rightarrow> error + bigfloat" where
  "ValidPositiveBigFloat setString value = (case ValidBigFloat setString value of Inl e \<Rightarrow> Inl e
     | Inr v \<Rightarrow> if \<not> IsFloatPositive (Some v) then Inl (Data (value @ '' is not positive'')) else Inr v)"

text \<open>
  \<open>String\<close> prints ten significant decimal digits, \<open>ParseFloat\<close> reads the nearest \<open>float64\<close>.
  \<open>dec_exp q\<close> is the number of digits before the decimal point (\<open>10^(e-1) \<le> q < 10^e\<close>).
\<close>

definition dec_exp :: "rat \<Rightarrow> int" where
  "dec_exp q = (if 1 \<le> q then int (length (show_nat (nat \<lfloor>q\<rfloor>)))
     else 1 - int (length (show_nat (nat (\<lceil>1 / q\<rceil> - 1)))))"

definition round_dec :: "nat \<Rightarrow> rat \<Rightarrow> rat" where
  "round_dec d q = (if q = 0 then 0
     else let k = 10 powi (int d - dec_exp \<bar>q\<bar>) in sgn q * (of_int (rne (\<bar>q\<bar> * k)) / k))"

definition BigFloatToFloat64 :: "(bigfloat \<Rightarrow> string) \<Rightarrow> bigfloat \<Rightarrow> error + gofloat" where
  "BigFloatToFloat64 text f = (case bval f of
     FFin q \<Rightarrow> (case rn64 (round_dec 10 q) of
        FInf s \<Rightarrow> Inl (NumError ''ParseFloat'' (text f) ErrRange)
      | value \<Rightarrow> Inr value)
   | value \<Rightarrow> Inr value)"

definition MulFloat64ByBigFloat :: "gofloat \<Rightarrow> bigfloat \<Rightarrow> bigfloat" where
  "MulFloat64ByBigFloat a b = bigMul newBigFloat (SetFloat64 newBigFloat a) b"

definition ExponentFactor :: "int64 \<Rightarrow> int64 \<Rightarrow> error + bigfloat" where
  "ExponentFactor fromExponent toExponent =
     (let exponentDiff = fromExponent - toExponent
      in case Exponents (sint exponentDiff) of
           None \<Rightarrow> Inl (ErrorString (''multiplier not found for exponentDiff '' @ FormatInt exponentDiff))
         | Some exponent \<Rightarrow> Inr exponent)"

definition ExchangeRate ::
  "(string \<Rightarrow> bigfloat option) \<Rightarrow> string \<Rightarrow> string \<Rightarrow> int64 \<Rightarrow> int64 \<Rightarrow> error + bigfloat" where
  "ExchangeRate setString amountIn amountOut exponentIn exponentOut =
     (case ValidBigFloat setString amountIn of Inl e \<Rightarrow> Inl e
      | Inr inAmtFloat \<Rightarrow> (case ValidBigFloat setString amountOut of Inl e \<Rightarrow> Inl e
      | Inr outAmtFloat \<Rightarrow>
         let rate = bigQuo newBigFloat outAmtFloat inAmtFloat
         in case ExponentFactor exponentIn exponentOut of Inl e \<Rightarrow> Inl e
            | Inr exponentFactor \<Rightarrow> Inr (bigMul newBigFloat rate exponentFactor)))"

definition InverseExchangeRate :: "bigfloat \<Rightarrow> bigfloat" where
  "InverseExchangeRate exchangeRate =
     bigQuo newBigFloat (SetFloat64 newBigFloat (FFin 1)) exchangeRate"

definition ValueInUSD :: "int \<Rightarrow> bigfloat \<Rightarrow> int option option" where
  "ValueInUSD amount assetPrice = bigInt_ptr (bigMul newBigFloat (SetInt newBigFloat amount) assetPrice)"

definition LTFloat :: "bigfloat \<Rightarrow> bigfloat \<Rightarrow> bool" where
  "LTFloat x y = (bigCmp x y = Some (- 1))"

definition math_Min :: "int option \<Rightarrow> int option \<Rightarrow> int option" where
  "math_Min a b = (if math_LT a b then a else b)"

definition ExecutedPrice :: "bool \<Rightarrow> uint64 \<Rightarrow> uint64 \<Rightarrow> gofloat" where
  "ExecutedPrice balanceInBase balanceIn balanceOut =
     (if balanceIn = 0 \<or> balanceOut = 0 then FFin 1
      else if balanceInBase then f64_div (f64_of_int (uint balanceOut)) (f64_of_int (uint balanceIn))
      else f64_div (f64_of_int (uint balanceIn)) (f64_of_int (uint balanceOut)))"

section \<open>exponential.go and string.go\<close>

definition ApproxExponential :: "bigfloat \<Rightarrow> bigfloat" where
  "ApproxExponential x =
     math_AddF [NewFloat (FFin 1), x,
       math_DivF (math_MulF [x, x]) [NewFloat (FFin 2)],
       math_DivF (math_MulF [x, x, x]) [NewFloat (FFin 6)]]"

definition AddFS :: "(string \<Rightarrow> bigfloat option) \<Rightarrow> (bigfloat \<Rightarrow> string) \<Rightarrow> string \<Rightarrow> bigfloat \<Rightarrow> error + string" where
  "AddFS setString text a b = (case ValidBigFloat setString a of Inl e \<Rightarrow> Inl e
     | Inr x \<Rightarrow> Inr (text (math_AddF [x, b])))"


section \<open>Integer division and decimal integers\<close>

lemma EDiv_EMod:
  assumes "b \<noteq> 0"
  shows "a = b * EDiv a b + EMod a b \<and> 0 \<le> EMod a b \<and> EMod a b < \<bar>b\<bar>"
proof (cases "0 < b")
  case True
  then show ?thesis by (simp add: EDiv_def EMod_def)
next
  case False
  have "a = (- b) * (a div - b) + a mod - b" by (rule mult_div_mod_eq [symmetric])
  with False assms show ?thesis by (simp add: EDiv_def EMod_def)
qed

lemma ceiling_div: "0 < b \<Longrightarrow> \<lceil>of_int a / of_int b :: rat\<rceil> = a div b + (if a mod b = 0 then 0 else 1)"
  for a b :: int
  by (simp add: ceiling_divide_eq_div zdiv_zminus1_eq_if)

text \<open>
  \<open>DivI\<close> returns for every divisor but zero, for which it panics; with a positive divisor the
  result is the quotient rounded down, or up when asked to (whatever the sign of the dividend).
\<close>

theorem DivI_rounds:
  "if b \<le> 0 then math_DivI a b roundUp = None \<longleftrightarrow> b = 0
   else math_DivI a b roundUp = Some (if roundUp then \<lceil>of_int a / of_int b :: rat\<rceil>
     else \<lfloor>of_int a / of_int b :: rat\<rfloor>)"
proof (cases "0 < b")
  case True
  have "sgn (a mod b) = 1 \<longleftrightarrow> a mod b \<noteq> 0"
    using pos_mod_sign [OF True, of a] by (metis order_less_le sgn_1_pos)
  with True show ?thesis
    by (simp add: math_DivI_def Let_def EDiv_def EMod_def math_Add_def ceiling_div floor_divide_of_int_eq)
next
  case False
  then show ?thesis by (simp add: math_DivI_def Let_def)
qed

lemma digits_value_show_nat: "digits_value (show_nat n) = n"
proof (induction n rule: show_nat.induct)
  case (1 n)
  then show ?case
    by (cases "n < 10") (simp_all add: show_nat.simps [of n] digits_value_def)
qed

lemma list_all_digits_show_nat [simp]: "list_all is_digit (show_nat n)"
  using show_nat_digits by (simp add: list_all_iff)

lemma BigInt_SetString_show_int [simp]: "BigInt_SetString (show_int i) = Some i"
  by (auto simp: BigInt_SetString_def show_int_def digits_value_show_nat split_sign_def [of "_ # _"])

text \<open>
  \<open>ValidBigIntPercentage\<close> accepts the decimal text of an integer exactly when it lies between 0
  and 1000000, returning that integer, and reports every other integer with the error
  \<open>ErrBigIntNotValidPercentage\<close>.
\<close>

theorem ValidBigIntPercentage_spec:
  "ValidBigIntPercentage (show_int i) =
     (if 0 \<le> i \<and> i \<le> 1000000 then Inr i else Inl ErrBigIntNotValidPercentage)"
  by (auto simp: ValidBigIntPercentage_def ValidBigInt_def math_GT_def math_IsNegative_def
      bigIntCmp_def BigInt100Percent_def sgn_if)

section \<open>Rounding\<close>

text \<open>
  \<open>RoundBigInt\<close> is not always the nearest integer: the largest \<open>float64\<close> below one half, whose
  sum with one half rounds up to 1, becomes 1.
\<close>

theorem RoundBigInt_double_rounding:
  "snd (RoundBigInt (NewFloat (FFin (1 / 2 - 1 / 2 ^ 54)))) = Some (Some 1)"
  by code_simp

text \<open>
  \<open>near k r t\<close>: \<open>r\<close> is \<open>t\<close> up to \<open>k\<close> roundings to 53 bits. All terms of the exponential are
  non-negative, so the relative errors only add up.
\<close>

definition ulp53 :: rat where "ulp53 = 1 / 2 ^ 53"

definition near :: "nat \<Rightarrow> rat \<Rightarrow> rat \<Rightarrow> bool" where
  "near k r t \<longleftrightarrow> 0 \<le> t \<and> t * (1 - ulp53) ^ k \<le> r \<and> r \<le> t * (1 + ulp53) ^ k"

lemma ulp53_bounds: "0 < ulp53" "ulp53 < 1" "0 \<le> 1 - ulp53" "0 \<le> 1 + ulp53"
  by (simp_all add: ulp53_def)

lemma near_nonneg: "near k r t \<Longrightarrow> 0 \<le> r"
  unfolding near_def using ulp53_bounds(3) by (meson mult_nonneg_nonneg order_trans zero_le_power)

lemma near_refl: "0 \<le> t \<Longrightarrow> near 0 t t"
  by (simp add: near_def)

lemma near_weaken:
  assumes "near k r t" "k \<le> l"
  shows "near l r t"
proof -
  have "(1 - ulp53) ^ l \<le> (1 - ulp53) ^ k" "(1 + ulp53) ^ k \<le> (1 + ulp53) ^ l"
    using assms(2) ulp53_bounds by (auto intro: power_decreasing power_increasing)
  then show ?thesis
    using assms(1) by (auto simp: near_def intro: order_trans mult_left_mono)
qed

lemma near_rnd:
  assumes "near k r t"
  shows "near (Suc k) (rnd 53 r) t"
proof -
  have r: "0 \<le> r" by (rule near_nonneg [OF assms])
  have "(2 :: rat) powi (- int 53) = ulp53" by (simp add: ulp53_def power_int_def power_one_over)
  then have "\<bar>rnd 53 r - r\<bar> \<le> r * ulp53" using rnd_error [of 53 r] r by (simp only: abs_of_nonneg)
  then have e: "r * (1 - ulp53) \<le> rnd 53 r" "rnd 53 r \<le> r * (1 + ulp53)"
    by (simp_all add: abs_le_iff right_diff_distrib distrib_left)
  have "t * (1 - ulp53) ^ k * (1 - ulp53) \<le> r * (1 - ulp53)"
    "r * (1 + ulp53) \<le> t * (1 + ulp53) ^ k * (1 + ulp53)"
    using assms ulp53_bounds by (auto simp: near_def intro: mult_right_mono)
  with e assms show ?thesis
    by (auto simp: near_def mult_ac intro: order_trans)
qed

lemma near_add:
  assumes "near k r t" "near l s u"
  shows "near (max k l) (r + s) (t + u)"
proof -
  have "near (max k l) r t" "near (max k l) s u"
    using assms by (auto intro: near_weaken)
  then show ?thesis by (auto simp: near_def distrib_right intro: add_mono)
qed

lemma near_mult:
  assumes "near k r t" "near l s u"
  shows "near (k + l) (r * s) (t * u)"
proof -
  have nn: "0 \<le> t * (1 - ulp53) ^ k" "0 \<le> u * (1 - ulp53) ^ l" "0 \<le> r" "0 \<le> s"
    using assms ulp53_bounds near_nonneg by (auto simp: near_def)
  have "(t * (1 - ulp53) ^ k) * (u * (1 - ulp53) ^ l) \<le> r * s"
    "r * s \<le> (t * (1 + ulp53) ^ k) * (u * (1 + ulp53) ^ l)"
    using assms nn by (auto simp: near_def intro!: mult_mono)
  then show ?thesis
    using assms by (auto simp: near_def power_add mult_ac)
qed

lemma near_divide: "near k r t \<Longrightarrow> 0 < c \<Longrightarrow> near k (r / c) (t / c)"
  by (auto simp: near_def divide_right_mono)

text \<open>The rational value that the roundings of \<open>ApproxExponential\<close> compute.\<close>

definition exp_terms :: "rat \<Rightarrow> rat" where
  "exp_terms q = (let sq = rnd 53 (rnd 53 (1 * q) * q); cu = rnd 53 (sq * q);
     t2 = rnd 53 (rnd 53 (0 + sq) / 2); t3 = rnd 53 (rnd 53 (0 + cu) / 6)
   in rnd 53 (rnd 53 (rnd 53 (rnd 53 (0 + 1) + q) + t2) + t3))"

lemma bprec_math [simp]:
  "bprec (NewFloat f) = 53" "bprec (bigAdd z x y) = zprec z x y" "bprec (bigMul z x y) = zprec z x y"
  "bprec (bigQuo z x y) = zprec z x y"
  by (simp_all add: NewFloat_def big_ops)

lemma zprec_pos [simp]: "0 < bprec z \<Longrightarrow> zprec z x y = bprec z"
  by (simp add: zprec_def)

lemma big_is_consts [big_intros]:
  "big_is (NewFloat (FZero False)) 53 0" "q \<noteq> 0 \<Longrightarrow> big_is (NewFloat (FFin q)) 53 q"
  by (simp_all add: big_is_def NewFloat_def)

lemma big_is_exp:
  assumes "big_is x p q"
  shows "big_is (ApproxExponential x) 53 (exp_terms q)"
  unfolding ApproxExponential_def math_AddF_def math_DivF_def math_MulF_def exp_terms_def Let_def
    foldl_Cons foldl_Nil
  by (rule big_is_Add big_is_Mul big_is_Quo_prec big_is_consts assms | (simp; fail))+

lemma exp_terms_mono:
  assumes "0 \<le> q" "q \<le> r"
  shows "exp_terms q \<le> exp_terms r"
  unfolding exp_terms_def Let_def
  using assms by (intro rnd_mono add_mono divide_right_mono mult_mono rnd_nonneg mult_nonneg_nonneg) auto

lemma near_exp_terms:
  assumes "0 \<le> q"
  shows "near 10 (exp_terms q) (1 + q + q ^ 2 / 2 + q ^ 3 / 6)"
proof -
  let ?sq = "rnd 53 (rnd 53 (1 * q) * q)"
  let ?cu = "rnd 53 (?sq * q)"
  have q: "near 0 q q" using assms by (rule near_refl)
  have sq: "near 2 ?sq (q * q)"
    using near_rnd [OF near_mult [OF near_rnd [OF q] q]] by (simp add: eval_nat_numeral)
  have cu: "near 3 ?cu (q * q * q)"
    using near_rnd [OF near_mult [OF sq q]] by (simp add: eval_nat_numeral)
  have t2: "near 4 (rnd 53 (rnd 53 (0 + ?sq) / 2)) (q * q / 2)"
    using near_rnd [OF near_divide [OF near_rnd [OF sq], of 2]] by (simp add: eval_nat_numeral)
  have t3: "near 5 (rnd 53 (rnd 53 (0 + ?cu) / 6)) (q * q * q / 6)"
    using near_rnd [OF near_divide [OF near_rnd [OF cu], of 6]] by (simp add: eval_nat_numeral)
  have one: "near 1 (rnd 53 (0 + 1)) 1"
    using near_rnd [OF near_refl [of 1]] by simp
  have "near 6 (exp_terms q) (1 + q + q * q / 2 + q * q * q / 6)"
    using near_rnd [OF near_add [OF near_rnd [OF near_add [OF near_rnd [OF near_add [OF one q]] t2]] t3]]
    by (simp add: exp_terms_def Let_def eval_nat_numeral)
  then show ?thesis
    by (simp add: near_weaken power2_eq_square power3_eq_cube)
qed

text \<open>
  C38: \<open>ApproxExponential\<close> of a finite non-negative number is finite, at least 1 and monotone, so that
  an accrual factor never shrinks a balance and a longer period never gives less; it is the cubic
  Taylor polynomial of the exponential up to ten roundings to 53 bits.
\<close>

theorem ApproxExponential_accurate:
  assumes "big_is x p q" "big_is y p' r" "0 \<le> q" "q \<le> r"
  shows "finite_float (bval (ApproxExponential x))
    \<and> 1 \<le> fval (bval (ApproxExponential x))
    \<and> fval (bval (ApproxExponential x)) \<le> fval (bval (ApproxExponential y))
    \<and> near 10 (fval (bval (ApproxExponential x))) (1 + q + q ^ 2 / 2 + q ^ 3 / 6)"
proof -
  have "exp_terms 0 = 1"
    using rnd_of_int [of 1 53] by (simp add: exp_terms_def Let_def)
  then have "1 \<le> exp_terms q" using exp_terms_mono [of 0 q] assms(3) by simp
  then show ?thesis
    using big_is_exp [OF assms(1)] big_is_exp [OF assms(2)] exp_terms_mono [OF assms(3,4)]
      near_exp_terms [OF assms(3)]
    by (simp add: big_is_def)
qed

theorem ApproxExponential_accurate_witness:
  "1 \<le> fval (bval (ApproxExponential (NewFloat (FFin (1 / 8)))))
   \<and> near 10 (fval (bval (ApproxExponential (NewFloat (FFin (1 / 8)))))) (3481 / 3072)"
proof -
  have w: "big_is (NewFloat (FFin (1 / 8))) 53 (1 / 8)"
    by (simp add: big_is_def NewFloat_def)
  show ?thesis
    using ApproxExponential_accurate [OF w w] by (simp add: power2_eq_square power3_eq_cube)
qed

end
