(* ===== verification/Pools.thy ===== *)
theory Pools
  imports Amounts Balance BigMath
begin

text \<open>
  \<open>src/pools/types/pools.go\<close>: liquidity pools. A method that mutates its receiver returns the new
  pool beside its result. Code outside the repository is a parameter: the decimal type \<open>'d\<close> of
  \<open>FeeFactor\<close> and \<open>InitialAssetsRatio\<close> with its conversion \<open>toF\<close> to \<open>float64\<close>, the clock \<open>now\<close> (unix
  seconds), \<open>pow\<close> for \<open>math.Pow\<close>, and \<open>oor\<close> for the conversion of a float outside the range of
  \<open>uint64\<close>. An outer option is \<open>None\<close> where the code panics.
\<close>

record 'd Pool =
  PoolID :: string
  BaseAsset :: string
  QuoteAsset :: string
  IsProductPool :: bool
  AmountShares :: uint64
  AmountBase :: uint64
  AmountQuote :: uint64
  FeesCollectedBase :: uint64
  FeesCollectedQuote :: uint64
  FeeFactor :: 'd
  CreatedAt :: int64
  MaturityAt :: int64
  InitialAssetsRatio :: 'd
  DisplayName :: string
  Pool_Sequence :: uint64

definition swapSimluateFraction :: gofloat where "swapSimluateFraction = F64 (1 / 100)"

section \<open>Assets and amounts\<close>

text \<open>\<open>marshal\<close> and \<open>unmarshal\<close> are the JSON library on the struct.\<close>

definition Pool_MarshalBinary :: "('d Pool \<Rightarrow> error + string) \<Rightarrow> 'd Pool \<Rightarrow> error + string" where
  "Pool_MarshalBinary marshal p = marshal p"

definition Pool_UnmarshalBinary ::
  "(string \<Rightarrow> 'd Pool \<Rightarrow> error option \<times> 'd Pool) \<Rightarrow> string \<Rightarrow> 'd Pool \<Rightarrow> error option \<times> 'd Pool" where
  "Pool_UnmarshalBinary unmarshal data p = unmarshal data p"

definition GetFeesCollectedBase :: "'d Pool \<Rightarrow> uint64" where
  "GetFeesCollectedBase p = FeesCollectedBase p"

definition GetFeesCollectedQuote :: "'d Pool \<Rightarrow> uint64" where
  "GetFeesCollectedQuote p = FeesCollectedQuote p"

definition AddAccumulatedFees :: "'d Pool \<Rightarrow> Balance \<Rightarrow> 'd Pool \<times> error option" where
  "AddAccumulatedFees p bal =
     (if \<not> Balance_Valid bal then (p, Some (New InvalidInputError ''invalid object''))
      else if Balance_Asset bal = BaseAsset p then
        (p\<lparr>FeesCollectedBase := FeesCollectedBase p + Balance_Amount bal,
           Pool_Sequence := Pool_Sequence p + 1\<rparr>, None)
      else if Balance_Asset bal = QuoteAsset p then
        (p\<lparr>FeesCollectedQuote := FeesCollectedQuote p + Balance_Amount bal,
           Pool_Sequence := Pool_Sequence p + 1\<rparr>, None)
      else (p, Some (New InvalidInputError ''did not match pool assets'')))"

definition Pool_Amount :: "'d Pool \<Rightarrow> string \<Rightarrow> Amount" where
  "Pool_Amount p assetUID =
     (if assetUID = BaseAsset p then NewAmount (BaseAsset p) (AmountBase p)
      else if assetUID = QuoteAsset p then NewAmount (QuoteAsset p) (AmountQuote p)
      else nilAmount)"

text \<open>A slice of two is sorted by one comparison.\<close>

definition Pool_AssetIDs :: "'d Pool \<Rightarrow> string list" where
  "Pool_AssetIDs p =
     (if string_less (QuoteAsset p) (BaseAsset p) then [QuoteAsset p, BaseAsset p]
      else [BaseAsset p, QuoteAsset p])"

definition Pool_Amounts :: "'d Pool \<Rightarrow> string \<Rightarrow> error + Amount \<times> Amount" where
  "Pool_Amounts p assetA =
     (if assetA = BaseAsset p
      then Inr (NewAmount (BaseAsset p) (AmountBase p), NewAmount (QuoteAsset p) (AmountQuote p))
      else if assetA = QuoteAsset p
      then Inr (NewAmount (QuoteAsset p) (AmountQuote p), NewAmount (BaseAsset p) (AmountBase p))
      else Inl ErrAssetNotFoundInPool)"

definition OtherAssetID :: "'d Pool \<Rightarrow> string \<Rightarrow> error + string" where
  "OtherAssetID p IDin =
     (let ids = Pool_AssetIDs p
      in if EqualFold (ids ! 0) (ids ! 1) then Inl ErrPoolShouldHave2Assets
         else if ToLower IDin = ToLower (ids ! 0) then Inr (ids ! 1)
         else if ToLower IDin = ToLower (ids ! 1) then Inr (ids ! 0)
         else Inl ErrAssetNotFoundInPool)"

definition contains_fold :: "string list \<Rightarrow> string \<Rightarrow> bool" where
  "contains_fold set' target = list_ex (\<lambda>s. EqualFold s target) set'"

definition OtherAssetIDFromSet :: "'d Pool \<Rightarrow> string list \<Rightarrow> string \<times> bool" where
  "OtherAssetIDFromSet p IDs =
     (let ids = Pool_AssetIDs p;
          match0 = contains_fold IDs (ids ! 0);
          match1 = contains_fold IDs (ids ! 1)
      in if match0 \<and> match1 then ('''', False)
         else if match0 then (ids ! 1, True)
         else if match1 then (ids ! 0, True)
         else ('''', False))"

definition HasHyphen :: "string \<Rightarrow> bool" where
  "HasHyphen UID = Contains UID ''-''"

definition Pool_Validate :: "'d Pool \<Rightarrow> error option" where
  "Pool_Validate p =
     (let base = BaseAsset p; quote = QuoteAsset p
      in if HasHyphen base \<or> HasHyphen quote
         then Some (Data (''cannot create pool where one asset is a pool share ('' @ base @ ''-'' @ quote @ '')''))
         else None)"

definition Pool_AddAmount :: "'d Pool \<Rightarrow> Amount \<Rightarrow> 'd Pool \<times> error option" where
  "Pool_AddAmount p amount =
     (if Amount_AssetID amount = BaseAsset p then
        (case Amount_AddUint64 amount (AmountBase p) of Inl e \<Rightarrow> (p, Some e)
         | Inr newAmount \<Rightarrow>
            (p\<lparr>AmountBase := Amount_Amount newAmount, Pool_Sequence := Pool_Sequence p + 1\<rparr>, None))
      else if Amount_AssetID amount = QuoteAsset p then
        (case Amount_AddUint64 amount (AmountQuote p) of Inl e \<Rightarrow> (p, Some e)
         | Inr newAmount \<Rightarrow>
            (p\<lparr>AmountQuote := Amount_Amount newAmount, Pool_Sequence := Pool_Sequence p + 1\<rparr>, None))
      else (p, Some (Data (''AddAsset: asset '' @ Amount_AssetID amount @ '' not found in pool '' @ PoolID p))))"

definition Pool_SubAmount :: "'d Pool \<Rightarrow> Amount \<Rightarrow> 'd Pool \<times> error option" where
  "Pool_SubAmount p amount =
     (if Amount_AssetID amount = BaseAsset p then
        (case CheckedSubU64 (AmountBase p) (Amount_Amount amount) of Inl e \<Rightarrow> (p, Some e)
         | Inr newAmount \<Rightarrow>
            (p\<lparr>AmountBase := newAmount, Pool_Sequence := Pool_Sequence p + 1\<rparr>, None))
      else if Amount_AssetID amount = QuoteAsset p then
        (case CheckedSubU64 (AmountQuote p) (Amount_Amount amount) of Inl e \<Rightarrow> (p, Some e)
         | Inr newAmount \<Rightarrow>
            (p\<lparr>AmountQuote := newAmount, Pool_Sequence := Pool_Sequence p + 1\<rparr>, None))
      else (p, Some (Data (''SubAmount: asset '' @ Amount_AssetID amount @ '' not found in pool '' @ PoolID p))))"

section \<open>Liquidity\<close>

text \<open>
  The three assignments at the end of the liquidity operations: each stores the first result of a
  checked operation, which is 0 beside an error, and then returns on the error. The pool keeps the
  assignments made so far, the 0 included.
\<close>

definition mutate_pool ::
  "(uint64 \<Rightarrow> uint64 \<Rightarrow> error + uint64) \<Rightarrow> 'd Pool \<Rightarrow> uint64 \<Rightarrow> uint64 \<Rightarrow> uint64 \<Rightarrow> 'd Pool \<times> error option" where
  "mutate_pool chk p shares base quote =
     (case chk (AmountShares p) shares of Inl e \<Rightarrow> (p\<lparr>AmountShares := 0\<rparr>, Some e)
      | Inr s \<Rightarrow> let p = p\<lparr>AmountShares := s\<rparr>
      in case chk (AmountBase p) base of Inl e \<Rightarrow> (p\<lparr>AmountBase := 0\<rparr>, Some e)
      | Inr b \<Rightarrow> let p = p\<lparr>AmountBase := b\<rparr>
      in case chk (AmountQuote p) quote of Inl e \<Rightarrow> (p\<lparr>AmountQuote := 0\<rparr>, Some e)
      | Inr q \<Rightarrow> (p\<lparr>AmountQuote := q, Pool_Sequence := Pool_Sequence p + 1\<rparr>, None))"

definition AddLiquidity ::
  "('d \<Rightarrow> gofloat) \<Rightarrow> 'd Pool \<Rightarrow> Amount \<Rightarrow> ('d Pool \<times> (error + Amount \<times> Amount)) option" where
  "AddLiquidity toF p baseIn =
     (case Amount_Validate baseIn of Some e \<Rightarrow> Some (p, Inl e)
      | None \<Rightarrow>
     if Amount_IsZero baseIn then Some (p, Inl ErrAmountCannotBeZero)
     else if Amount_AssetID baseIn \<noteq> BaseAsset p then Some (p, Inl ErrBaseAssetMismatch)
     else
       let baseInF = SetInt64 newBigFloat (Amount_Amount baseIn);
           poolBaseF = SetInt64 newBigFloat (AmountBase p);
           poolQuoteF = SetInt64 newBigFloat (AmountQuote p);
           poolSharesF = SetInt64 newBigFloat (AmountShares p);
           amounts =
             (if IsFloatZero (Some poolBaseF) then
                let ratio = toF (InitialAssetsRatio p);
                    quoteInAmtF = MulFloat64ByBigFloat ratio baseInF
                in (math_Int quoteInAmtF, math_Int (math_AddF [baseInF, quoteInAmtF]))
              else
                let addedRatio = bigQuo newBigFloat baseInF poolBaseF
                in (math_Int (math_MulF [poolQuoteF, addedRatio]), math_Int (math_MulF [poolSharesF, addedRatio])))
       in case amounts of
          (Some quoteInAmt, Some sharesOutAmt) \<Rightarrow>
            let quoteIn = NewAmount (QuoteAsset p) (BigInt_Uint64 quoteInAmt);
                sharesOut = NewAmount (PoolID p) (BigInt_Uint64 sharesOutAmt)
            in (case mutate_pool CheckedAddU64 p (Amount_Amount sharesOut) (Amount_Amount baseIn) (Amount_Amount quoteIn) of
                  (p, Some e) \<Rightarrow> Some (p, Inl e)
                | (p, None) \<Rightarrow> Some (p, Inr (quoteIn, sharesOut)))
        | _ \<Rightarrow> None)"

definition RemoveLiquidity :: "'d Pool \<Rightarrow> Amount \<Rightarrow> ('d Pool \<times> (error + Amount list)) option" where
  "RemoveLiquidity p sharesIn =
     (case Amount_Validate sharesIn of Some e \<Rightarrow> Some (p, Inl e)
      | None \<Rightarrow>
     if Amount_IsZero sharesIn then Some (p, Inl ErrAmountCannotBeZero)
     else if Amount_AssetID sharesIn \<noteq> PoolID p
     then Some (p, Inl (ErrorString ''RemoveLiquidity: pool and lp asset id mismatch''))
     else if AmountShares p < Amount_Amount sharesIn
     then Some (p, Inl (ErrorString ''RemoveLiquidity: removing more sharesIn than pool has''))
     else
       let sharesF = SetInt64 newBigFloat (Amount_Amount sharesIn);
           poolBaseF = SetInt64 newBigFloat (AmountBase p);
           poolQuoteF = SetInt64 newBigFloat (AmountQuote p);
           poolSharesF = SetInt64 newBigFloat (AmountShares p);
           removeRatio = bigQuo newBigFloat sharesF poolSharesF
       in case (math_Int (math_MulF [poolBaseF, removeRatio]), math_Int (math_MulF [poolQuoteF, removeRatio])) of
          (Some baseOutAmt, Some quoteOutAmt) \<Rightarrow>
            let baseOut = NewAmount (BaseAsset p) (BigInt_Uint64 baseOutAmt);
                quoteOut = NewAmount (QuoteAsset p) (BigInt_Uint64 quoteOutAmt)
            in (case mutate_pool CheckedSubU64 p (Amount_Amount sharesIn) (Amount_Amount baseOut) (Amount_Amount quoteOut) of
                  (p, Some e) \<Rightarrow> Some (p, Inl e)
                | (p, None) \<Rightarrow> Some (p, Inr [baseOut, quoteOut]))
        | _ \<Rightarrow> None)"

section \<open>Swaps\<close>

definition Pool_Balances :: "'d Pool \<Rightarrow> string \<Rightarrow> error + Balance \<times> Balance" where
  "Pool_Balances p assetA =
     (if assetA = BaseAsset p
      then Inr (NewBalance_int64 (BaseAsset p) (AmountBase p), NewBalance_int64 (QuoteAsset p) (AmountQuote p))
      else if assetA = QuoteAsset p
      then Inr (NewBalance_int64 (QuoteAsset p) (AmountQuote p), NewBalance_int64 (BaseAsset p) (AmountBase p))
      else Inl ErrAssetNotFoundInPool)"

definition Duration :: "'d Pool \<Rightarrow> int64" where
  "Duration p = (if IsProductPool p then 0 else MaturityAt p - CreatedAt p)"

definition SwapFee :: "('d \<Rightarrow> gofloat) \<Rightarrow> 'd Pool \<Rightarrow> gofloat" where
  "SwapFee toF p = (if \<not> IsProductPool p then FZero False else toF (FeeFactor p))"

definition Pool_G :: "('d \<Rightarrow> gofloat) \<Rightarrow> 'd Pool \<Rightarrow> gofloat" where
  "Pool_G toF p = (if IsProductPool p then FZero False else toF (FeeFactor p))"

definition calculateT :: "int64 \<Rightarrow> int64 \<Rightarrow> int64 \<Rightarrow> gofloat" where
  "calculateT now end' duration =
     (if duration \<le>s 0 \<or> end' \<le>s now then FZero False
      else let t = f64_div (f64_of_int (sint (end' - now))) (f64_of_int (sint duration))
        in if flt (FFin 1) t then FFin 1 else t)"

definition calculateZ :: "gofloat \<Rightarrow> gofloat \<Rightarrow> bool \<Rightarrow> gofloat" where
  "calculateZ t g isSell =
     (if feq g (FZero False) then FZero False
      else if isSell then f64_sub (FFin 1) (f64_div t g)
      else f64_sub (FFin 1) (f64_mul t g))"

definition calculateK :: "(gofloat \<Rightarrow> gofloat \<Rightarrow> gofloat) \<Rightarrow> int \<Rightarrow> int \<Rightarrow> gofloat \<Rightarrow> gofloat \<Rightarrow> gofloat" where
  "calculateK pow x y t g =
     (let xf = BigInt_Float64 x; yf = BigInt_Float64 y;
          tPrime = f64_sub (FFin 1) (f64_mul t g)
      in f64_add (pow xf tPrime) (pow yf tPrime))"

definition calculateDelta ::
  "(gofloat \<Rightarrow> gofloat \<Rightarrow> gofloat) \<Rightarrow> int \<Rightarrow> int \<Rightarrow> gofloat \<Rightarrow> gofloat \<Rightarrow> gofloat \<Rightarrow> int option" where
  "calculateDelta pow assetOutBalance assetInBalance k timeToMaturity gFeeFactor =
     (let inp = BigInt_Float64 assetInBalance; out = BigInt_Float64 assetOutBalance;
          e = f64_sub (FFin 1) (f64_mul gFeeFactor timeToMaturity);
          updatedOut = f64_sub k (pow inp e);
          updatedOut = pow updatedOut (f64_div (FFin 1) e)
      in math_Int (NewFloat (f64_sub updatedOut out)))"

definition simulateProductPoolSwap ::
  "('d \<Rightarrow> gofloat) \<Rightarrow> 'd Pool \<Rightarrow> Balance \<Rightarrow> (error + Balance \<times> Balance) option" where
  "simulateProductPoolSwap toF p balanceIn =
     (if \<not> Balance_Valid balanceIn then Some (Inl (New InvalidInputError ''invalid balance''))
      else if Balance_IsZero balanceIn then Some (Inl ErrAmountCannotBeZero)
      else case Pool_Balances p (Balance_Asset balanceIn) of Inl e \<Rightarrow> Some (Inl e)
      | Inr (poolReserveAssetIn, poolReserveAssetOut) \<Rightarrow>
        let amtIn = sint (Balance_Amt balanceIn)
        in case math_MulIF64 amtIn (SwapFee toF p) of
          Some (Some fee) \<Rightarrow>
            let amtInAfterFee = math_Sub amtIn [fee]
            in if sgn amtInAfterFee \<noteq> 1 then Some (Inl ErrInsufficientBalance)
               else let poolReserveAmountOut = sint (Balance_Amount poolReserveAssetOut);
                     poolReserveAmountIn = sint (Balance_Amount poolReserveAssetIn);
                     poolReserveAmountOutMulAmountIn = math_Mul [poolReserveAmountOut, amtInAfterFee];
                     poolReserveAmountInPlusAmountIn = math_Add [poolReserveAmountIn, amtInAfterFee]
                 in if poolReserveAmountInPlusAmountIn = 0 then None
                    else let amountOut = ftrunc (of_int poolReserveAmountOutMulAmountIn / of_int poolReserveAmountInPlusAmountIn);
                        balanceOut = NewBalance_int64 (Balance_Asset poolReserveAssetOut) (BigInt_Int64 amountOut);
                        balanceFee = NewBalance_int64 (Balance_Asset balanceIn) (BigInt_Int64 fee)
                      in Some (Inr (balanceOut, balanceFee))
        | _ \<Rightarrow> None)"

definition simulateYieldPoolSwap ::
  "('d \<Rightarrow> gofloat) \<Rightarrow> (gofloat \<Rightarrow> gofloat \<Rightarrow> gofloat) \<Rightarrow> int64 \<Rightarrow> 'd Pool \<Rightarrow> Balance
     \<Rightarrow> (error + Balance \<times> Balance) option" where
  "simulateYieldPoolSwap toF pow now p balanceIn =
     (if \<not> Balance_Valid balanceIn then Some (Inl (New InvalidInputError ''invalid balance''))
      else if Balance_IsZero balanceIn then Some (Inl ErrAmountCannotBeZero)
      else let timeToMaturity = calculateT now (MaturityAt p) (Duration p);
          stableAmount = \<lparr>Balance_Asset = QuoteAsset p, Balance_Amount = AmountQuote p\<rparr>;
          bondAmount = \<lparr>Balance_Asset = BaseAsset p, Balance_Amount = AmountBase p\<rparr>
      in case OtherAssetID p (Balance_Asset balanceIn) of Inl e \<Rightarrow> Some (Inl e)
      | Inr assetOutID \<Rightarrow> (case Pool_Balances p (Balance_Asset balanceIn) of Inl e \<Rightarrow> Some (Inl e)
      | Inr (poolBalanceOfIn, poolBalanceOfOut) \<Rightarrow>
        let G = Pool_G toF p;
            G = (if Balance_Asset balanceIn = BaseAsset p then f64_div (FFin 1) G else G)
        in case Balance_Add poolBalanceOfIn (Some balanceIn) of Inl e \<Rightarrow> Some (Inl e)
        | Inr poolBalanceOfIn \<Rightarrow>
          let stable = sint (Balance_Amount stableAmount);
              bond = sint (Balance_Amount bondAmount);
              k = calculateK pow stable bond timeToMaturity (FFin 1);
              pbOut = sint (Balance_Amount poolBalanceOfOut);
              pbIn = sint (Balance_Amount poolBalanceOfIn);
              withoutFee = calculateDelta pow pbOut pbIn k timeToMaturity (FFin 1);
              k = calculateK pow stable bond timeToMaturity G;
              withFee = calculateDelta pow pbOut pbIn k timeToMaturity G
          in case (withoutFee, withFee) of
              (Some outWithoutFee, Some outWithFee) \<Rightarrow>
                let feeAmt = math_Sub outWithFee [outWithoutFee];
                    outWithFee = math_Mul [outWithFee, - 1];
                    balanceOut = NewBalance_int64 assetOutID (BigInt_Int64 outWithFee);
                    balanceFee = NewBalance_int64 (Balance_Asset balanceIn) (BigInt_Int64 feeAmt)
                in Some (Inr (balanceOut, balanceFee))
            | _ \<Rightarrow> None))"

definition SimulateSwap ::
  "('d \<Rightarrow> gofloat) \<Rightarrow> (gofloat \<Rightarrow> gofloat \<Rightarrow> gofloat) \<Rightarrow> int64 \<Rightarrow> 'd Pool \<Rightarrow> Balance
     \<Rightarrow> (error + Balance \<times> Balance) option" where
  "SimulateSwap toF pow now p balanceIn =
     (if IsProductPool p then simulateProductPoolSwap toF p balanceIn
      else simulateYieldPoolSwap toF pow now p balanceIn)"

definition Pool_T :: "int64 \<Rightarrow> 'd Pool \<Rightarrow> error + gofloat" where
  "Pool_T now p = (if IsProductPool p then Inl (Data ''product pool does not have t'')
     else Inr (calculateT now (MaturityAt p) (Duration p)))"

text \<open>\<open>Price\<close> reads the clock at each of its two swaps.\<close>

definition Pool_Price ::
  "('d \<Rightarrow> gofloat) \<Rightarrow> (gofloat \<Rightarrow> gofloat \<Rightarrow> gofloat) \<Rightarrow> (gofloat \<Rightarrow> uint64) \<Rightarrow> int64 \<Rightarrow> int64
     \<Rightarrow> 'd Pool \<Rightarrow> (error + gofloat) option" where
  "Pool_Price toF pow oor now now' p =
     (let balanceInBase = \<lparr>Balance_Asset = BaseAsset p, Balance_Amount =
            f64_to_uint64 oor (f64_mul (f64_of_int (uint (AmountBase p))) swapSimluateFraction)\<rparr>
      in case SimulateSwap toF pow now p balanceInBase of None \<Rightarrow> None | Some (Inl e) \<Rightarrow> Some (Inl e)
      | Some (Inr (balanceOutQuote, _)) \<Rightarrow>
        let priceBuy = f64_div (f64_of_int (uint (Balance_Amount balanceInBase)))
              (f64_of_int (uint (Balance_Amount balanceOutQuote)));
            balanceInQuote = \<lparr>Balance_Asset = QuoteAsset p, Balance_Amount =
              f64_to_uint64 oor (f64_mul (f64_of_int (uint (AmountQuote p))) swapSimluateFraction)\<rparr>
        in case SimulateSwap toF pow now' p balanceInQuote of None \<Rightarrow> None | Some (Inl e) \<Rightarrow> Some (Inl e)
        | Some (Inr (balanceOutBase, _)) \<Rightarrow>
          let priceSell = f64_div (f64_of_int (uint (Balance_Amount balanceOutBase)))
                (f64_of_int (uint (Balance_Amount balanceInQuote)))
          in Some (Inr (f64_div (f64_add priceBuy priceSell) (FFin 2))))"

definition SimulateSwapPrice ::
  "('d \<Rightarrow> gofloat) \<Rightarrow> (gofloat \<Rightarrow> gofloat \<Rightarrow> gofloat) \<Rightarrow> int64 \<Rightarrow> 'd Pool \<Rightarrow> string \<Rightarrow> Balance
     \<Rightarrow> (error + gofloat) option" where
  "SimulateSwapPrice toF pow now p baseAssetID balIn =
     (case SimulateSwap toF pow now p balIn of None \<Rightarrow> None | Some (Inl e) \<Rightarrow> Some (Inl e)
      | Some (Inr (balOut, _)) \<Rightarrow>
          Some (Inr (ExecutedPrice (Balance_Asset balIn = baseAssetID) (Balance_Amount balIn) (Balance_Amount balOut))))"

end
