(* ===== verification/PoolsLaws.thy ===== *)
theory PoolsLaws
  imports Pools
begin

text \<open>
  The properties of the pools: the constant-product invariant of a swap, the pro-rata amounts of the
  liquidity operations, the time factor of the yield pools, and the behaviour at the edges.
\<close>

section \<open>Product swaps\<close>

abbreviation reserve :: "uint64 \<Rightarrow> int" where
  "reserve n \<equiv> max 0 (sint n)"

lemma ftrunc_div: "0 \<le> a \<Longrightarrow> 0 < b \<Longrightarrow> ftrunc (of_int a / of_int b) = a div b"
  by (simp add: ftrunc_def floor_divide_of_int_eq)

lemma swap_invariant:
  fixes x y a :: int
  assumes "0 \<le> x" "0 \<le> y" "0 < a"
  shows "y * a div (x + a) \<le> y \<and> x * y \<le> (x + a) * (y - y * a div (x + a))"
proof -
  have s: "0 < x + a" using assms by simp
  have "y * a div (x + a) * (x + a) \<le> y * a"
    using s pos_mod_sign [OF s, of "y * a"] by (simp add: minus_mod_eq_div_mult [symmetric])
  moreover have "y * a div (x + a) \<le> y * (x + a) div (x + a)"
    using assms s by (intro zdiv_mono1 mult_left_mono) auto
  moreover have "y * (x + a) div (x + a) = y" using s by simp
  ultimately show ?thesis by (auto simp add: algebra_simps)
qed

lemma math_Int_is: "big_is x p q \<Longrightarrow> math_Int x = Some (ftrunc q) \<and> bigInt_ptr x = Some (Some (ftrunc q))"
  by (cases "bval x") (auto simp: big_is_def math_Int_def bigInt_ptr_def ftrunc_def)

lemma fmul_FFin_0: "finite_float x \<Longrightarrow> finite_float (fmul (rnbig p) x (FFin 0)) \<and> fval (fmul (rnbig p) x (FFin 0)) = 0"
  using rnbig_finite [of p 0] by (cases x) auto

lemma MulIF64_finite:
  assumes "finite_float f"
  shows "math_MulIF64 i f = Some (Some (ftrunc (rnd 53 (rnd 53 (1 * rnd 53 (of_int i)) * fval f))))"
proof -
  let ?m = "bigMul (NewFloat (FFin 1)) (NewFloat (FFin 1)) (SetInt (NewFloat (FZero False)) i)"
  have m: "big_is ?m 53 (rnd 53 (1 * rnd 53 (of_int i)))"
    by (rule big_is_Mul big_is_consts big_is_SetInt_53 | simp)+
  have eq: "math_MulIF64 i f = bigInt_ptr (bigMul ?m ?m (NewFloat f))"
    using assms by (auto simp: math_MulIF64_def math_MulIF_def math_MulF_def Let_def)
  show ?thesis
  proof (cases "f = FFin 0")
    case True
    have "finite_float (bval ?m)" using m by (simp add: big_is_def)
    from fmul_FFin_0 [OF this, of 53] have "bigInt_ptr (bigMul ?m ?m (NewFloat f)) = Some (Some 0)"
      using m unfolding True
      by (cases "fmul (rnbig 53) (bval ?m) (FFin 0)")
        (auto simp: bigInt_ptr_def bigMul_def zprec_def NewFloat_def ftrunc_def)
    then show ?thesis using True eq by (simp add: ftrunc_def)
  next
    case False
    then have "big_is (bigMul ?m ?m (NewFloat f)) 53 (rnd 53 (rnd 53 (1 * rnd 53 (of_int i)) * fval f))"
      using assms m by (intro big_is_Mul [OF m big_is_NewFloat]) simp_all
    then show ?thesis using math_Int_is eq by simp
  qed
qed

lemma Pool_Balances_reserve:
  assumes "BaseAsset p \<noteq> ''''" "QuoteAsset p \<noteq> ''''" "Pool_Balances p a = Inr (x, y)"
  shows "sint (Balance_Amount x) = reserve (Amount_Amount (Pool_Amount p a))
    \<and> 0 \<le> sint (Balance_Amount y) \<and> Balance_Asset x = a \<and> Balance_Asset y \<noteq> ''''"
  using assms
  by (auto simp: Pool_Balances_def Pool_Amount_def NewAmount_def word_sless_alt split: if_splits)

lemma product_swap_eq:
  assumes "IsProductPool p" "Pool_Balances p (Balance_Asset bal) = Inr (x, y)"
    and "math_MulIF64 (sint (Balance_Amount bal)) (SwapFee toF p) = Some (Some F)"
    and "a = sint (Balance_Amount bal) - F" "0 \<le> sint (Balance_Amount x)" "0 \<le> sint (Balance_Amount y)"
  shows "SimulateSwap toF pow now p bal =
    Some (if \<not> Balance_Valid bal then Inl (New InvalidInputError ''invalid balance'')
      else if Balance_IsZero bal then Inl ErrAmountCannotBeZero
      else if a \<le> 0 then Inl ErrInsufficientBalance
      else Inr (NewBalance_int64 (Balance_Asset y)
            (of_int (sint (Balance_Amount y) * a div (sint (Balance_Amount x) + a))),
          NewBalance_int64 (Balance_Asset bal) (of_int F)))"
  using assms
  by (simp add: SimulateSwap_def simulateProductPoolSwap_def Balance_Amt_def Let_def math_Sub_def
      math_Mul_def math_Add_def ftrunc_div BigInt_Int64_def sgn_1_pos
      del: of_int_mult of_int_add of_int_diff of_int_sint)

lemma NewBalance_int64_of_int:
  "a \<noteq> '''' \<Longrightarrow> 0 \<le> k \<Longrightarrow> k < 2 ^ 63 \<Longrightarrow>
     Balance_Asset (NewBalance_int64 a (of_int k)) = a \<and> sint (Balance_Amount (NewBalance_int64 a (of_int k))) = k"
  by (auto simp: sint_of_int_64 word_sless_alt simp del: signed_of_int)

lemma product_swap_result:
  assumes "IsProductPool p" "BaseAsset p \<noteq> ''''" "QuoteAsset p \<noteq> ''''"
    and "finite_float (toF (FeeFactor p))" "0 \<le> fval (toF (FeeFactor p))"
    and "Pool_Balances p (Balance_Asset bal) = Inr (x, y)" "0 \<le> sint (Balance_Amount bal)"
  shows "case SimulateSwap toF pow now p bal of None \<Rightarrow> False
    | Some (Inl e) \<Rightarrow> True
    | Some (Inr (out, fee)) \<Rightarrow> let a = sint (Balance_Amount bal) - sint (Balance_Amount fee) in
        Balance_Asset out = Balance_Asset y \<and> Balance_Asset fee = Balance_Asset bal
        \<and> 0 \<le> sint (Balance_Amount fee) \<and> 0 < a
        \<and> sint (Balance_Amount out) = sint (Balance_Amount y) * a div (sint (Balance_Amount x) + a)
        \<and> sint (Balance_Amount out) \<le> sint (Balance_Amount y)
        \<and> sint (Balance_Amount x) * sint (Balance_Amount y)
            \<le> (sint (Balance_Amount x) + a) * (sint (Balance_Amount y) - sint (Balance_Amount out))"
proof -
  let ?n = "sint (Balance_Amount bal)" and ?x = "sint (Balance_Amount x)" and ?y = "sint (Balance_Amount y)"
  define F where "F = ftrunc (rnd 53 (rnd 53 (1 * rnd 53 (of_int ?n)) * fval (toF (FeeFactor p))))"
  define a where "a = ?n - F"
  let ?out = "?y * a div (?x + a)"
  have fee: "math_MulIF64 ?n (SwapFee toF p) = Some (Some F)"
    using MulIF64_finite [OF assms(4)] assms(1) by (simp add: SwapFee_def F_def)
  have F: "0 \<le> F"
    unfolding F_def using assms(5,7)
    by (intro ftrunc_nonneg rnd_nonneg mult_nonneg_nonneg) (auto simp del: of_int_sint)
  have xy: "0 \<le> ?x" "0 \<le> ?y" "Balance_Asset y \<noteq> ''''"
    using Pool_Balances_reserve [OF assms(2,3,6)] by auto
  note eq = product_swap_eq [OF assms(1,6) fee a_def xy(1,2), of pow now]
  show ?thesis
  proof (cases "Balance_Valid bal \<and> \<not> Balance_IsZero bal \<and> 0 < a")
    case False
    then show ?thesis unfolding eq by auto
  next
    case True
    have out: "0 \<le> ?out" "?out \<le> ?y" "?x * ?y \<le> (?x + a) * (?y - ?out)"
      using swap_invariant [of ?x ?y a] xy True by (auto simp: pos_imp_zdiv_nonneg_iff)
    have lt: "?out < 2 ^ 63" "F < 2 ^ 63"
      using out(2) sint_range_64 [of "Balance_Amount y"] sint_range_64 [of "Balance_Amount bal"] True
      by (auto simp: a_def)
    have "Balance_Asset bal \<noteq> ''''" using True by (simp add: Balance_Valid_def)
    with True show ?thesis
      unfolding eq
      using NewBalance_int64_of_int [OF xy(3) out(1) lt(1)] out F
        NewBalance_int64_of_int [OF _ F lt(2), of "Balance_Asset bal"]
      by (simp add: Let_def a_def)
  qed
qed

text \<open>The reserves of a pool: of the asset that comes in, of the other one, and the name of that.\<close>

definition reserves :: "'d Pool \<Rightarrow> string \<Rightarrow> int \<times> int \<times> string" where
  "reserves p a = (if a = BaseAsset p then (uint (AmountBase p), uint (AmountQuote p), QuoteAsset p)
     else (uint (AmountQuote p), uint (AmountBase p), BaseAsset p))"

lemma sint_clamped: "reserve n = (if uint n < 2 ^ 63 then uint n else 0)" for n :: uint64
proof (cases "0 \<le> sint n")
  case True
  then show ?thesis using uint_eq_sint_64 [of n] sint_range_64 [of n] by simp
next
  case False
  then have "\<not> uint n < 2 ^ 63" using sint_uint_64 [of n] uint_ge_0 [of n] by linarith
  then show ?thesis using False by simp
qed

lemma Pool_Balances_reserves:
  assumes "BaseAsset p \<noteq> ''''" "QuoteAsset p \<noteq> ''''" "Pool_Balances p a = Inr (x, y)" "reserves p a = (rin, rout, other)"
  shows "sint (Balance_Amount x) = (if rin < 2 ^ 63 then rin else 0)
    \<and> sint (Balance_Amount y) = (if rout < 2 ^ 63 then rout else 0) \<and> Balance_Asset y = other
    \<and> a \<in> {BaseAsset p, QuoteAsset p}"
  using assms sint_clamped [of "AmountBase p"] sint_clamped [of "AmountQuote p"]
  by (auto simp: Pool_Balances_def reserves_def word_sless_alt split: if_splits)

text \<open>
  C2: a swap in a product pool with a finite non-negative fee never panics; when it succeeds with output
  \<open>out\<close> and fee \<open>fee\<close>, the fee is less than the amount in. If the reserves are below \<open>2^63\<close>, the output is
  the constant-product amount, it is at most the reserve and the product of the reserves does not fall,
  even when the fee is kept outside the pool. A reserve from \<open>2^63\<close> on is taken for empty: if it is the
  one of the asset that comes in, any swap is quoted the whole other reserve.
\<close>

theorem product_swap_invariant:
  assumes "IsProductPool p" "BaseAsset p \<noteq> ''''" "QuoteAsset p \<noteq> ''''"
    and "finite_float (toF (FeeFactor p))" "0 \<le> fval (toF (FeeFactor p))"
    and "0 \<le> sint (Balance_Amount bal)" "reserves p (Balance_Asset bal) = (x, y, other)"
  shows "case SimulateSwap toF pow now p bal of None \<Rightarrow> False
    | Some (Inl e) \<Rightarrow> True
    | Some (Inr (out, fee)) \<Rightarrow> let a = sint (Balance_Amount bal) - sint (Balance_Amount fee) in
        Balance_Asset bal \<in> {BaseAsset p, QuoteAsset p}
        \<and> Balance_Asset out = other \<and> Balance_Asset fee = Balance_Asset bal
        \<and> 0 \<le> sint (Balance_Amount fee) \<and> 0 < a
        \<and> (x < 2 ^ 63 \<longrightarrow> y < 2 ^ 63 \<longrightarrow>
             sint (Balance_Amount out) = y * a div (x + a) \<and> sint (Balance_Amount out) \<le> y
             \<and> x * y \<le> (x + a) * (y - sint (Balance_Amount out)))
        \<and> (2 ^ 63 \<le> x \<longrightarrow> y < 2 ^ 63 \<longrightarrow> sint (Balance_Amount out) = y)
        \<and> (2 ^ 63 \<le> y \<longrightarrow> sint (Balance_Amount out) = 0)"
proof (cases "Pool_Balances p (Balance_Asset bal)")
  case (Inl e)
  then show ?thesis using assms(1) by (simp add: SimulateSwap_def simulateProductPoolSwap_def)
next
  case (Inr xy)
  obtain bx by' where xy: "Pool_Balances p (Balance_Asset bal) = Inr (bx, by')" using Inr by (cases xy) simp
  note r = Pool_Balances_reserves [OF assms(2,3) xy assms(7)]
  from product_swap_result [where toF = toF and pow = pow and now = now, OF assms(1-5) xy assms(6)] r show ?thesis
    by (auto simp: Let_def split: option.splits sum.splits prod.splits)
qed

definition product_pool :: "rat Pool" where
  "product_pool = \<lparr>PoolID = ''A-B'', BaseAsset = ''A'', QuoteAsset = ''B'', IsProductPool = True,
     AmountShares = 300, AmountBase = 1000, AmountQuote = 2000, FeesCollectedBase = 0,
     FeesCollectedQuote = 0, FeeFactor = 1 / 128, CreatedAt = 0, MaturityAt = 0,
     InitialAssetsRatio = 1, DisplayName = '''', Pool_Sequence = 7\<rparr>"

theorem product_swap_invariant_witness:
  "\<exists>out fee. SimulateSwap FFin (\<lambda>x y. x) 0 product_pool \<lparr>Balance_Asset = ''A'', Balance_Amount = 64\<rparr> = Some (Inr (out, fee))
     \<and> Balance_Asset out = ''B'' \<and> 1000 * 2000 \<le> (1064 - sint (Balance_Amount fee)) * (2000 - sint (Balance_Amount out))"
proof -
  let ?b = "\<lparr>Balance_Asset = ''A'', Balance_Amount = 64\<rparr>"
  let ?s = "SimulateSwap FFin (\<lambda>x y. x) 0 product_pool ?b"
  have w: "IsProductPool product_pool" "BaseAsset product_pool \<noteq> ''''" "QuoteAsset product_pool \<noteq> ''''"
    "finite_float (FFin (FeeFactor product_pool))" "0 \<le> fval (FFin (FeeFactor product_pool))"
    "0 \<le> sint (Balance_Amount ?b)" "reserves product_pool (Balance_Asset ?b) = (1000, 2000, ''B'')"
    by (simp_all add: product_pool_def reserves_def)
  note inv = product_swap_invariant [where toF = FFin, OF w, of "\<lambda>x y. x" 0]
  have "(case ?s of Some (Inr r) \<Rightarrow> True | _ \<Rightarrow> False)" by code_simp
  then obtain out fee where s: "?s = Some (Inr (out, fee))" by (auto split: option.splits sum.splits)
  have "Balance_Asset out = ''B'' \<and> 1000 * 2000 \<le> (1064 - sint (Balance_Amount fee)) * (2000 - sint (Balance_Amount out))"
    using inv unfolding s Let_def w(7) option.case sum.case prod.case by auto
  then show ?thesis using s by blast
qed

section \<open>Liquidity\<close>

text \<open>\<open>x\<close> is the share \<open>n a / b\<close> rounded to one of the two integers around it, and exact if it is one.\<close>

definition pro_rata :: "int \<Rightarrow> int \<Rightarrow> int \<Rightarrow> int \<Rightarrow> bool" where
  "pro_rata n a b x \<longleftrightarrow> (x = n * a div b \<or> x = n * a div b + 1) \<and> (b dvd n * a \<longrightarrow> x = n * a div b)"

lemma rnd53_below: "0 \<le> k \<Longrightarrow> k \<le> 2 ^ 53 \<Longrightarrow> of_int k * (1 - 2 powi (- 64)) \<le> y \<Longrightarrow> of_int k \<le> rnd 53 y"
proof (cases "k = 0")
  case False
  assume "0 \<le> k" "k \<le> 2 ^ 53" and y: "of_int k * (1 - 2 powi (- 64)) \<le> y"
  with False have "rnd 53 (of_int k * (1 - 2 powi (- 64))) = of_int k"
    by (intro rnd_snap) (auto simp: right_diff_distrib power_int_minus)
  then show ?thesis using rnd_mono [of 53, OF _ y] by simp
qed (simp add: rnd_nonneg)

lemma rnd53_above: "0 \<le> k \<Longrightarrow> k \<le> 2 ^ 53 \<Longrightarrow> y \<le> of_int k * (1 + 2 powi (- 64)) \<Longrightarrow> rnd 53 y \<le> of_int k"
proof (cases "k = 0")
  case False
  assume "0 \<le> k" "k \<le> 2 ^ 53" and y: "y \<le> of_int k * (1 + 2 powi (- 64))"
  with False have "rnd 53 (of_int k * (1 + 2 powi (- 64))) = of_int k"
    by (intro rnd_snap) (auto simp: distrib_left power_int_minus)
  then show ?thesis using rnd_mono [of 53, OF _ y] by simp
qed (use rnd_mono [of 53 y 0] in simp)

lemma relative_error_mult:
  fixes r c n u :: rat
  assumes "\<bar>r - c\<bar> \<le> c * u" "0 \<le> n"
  shows "n * c * (1 - u) \<le> n * r \<and> n * r \<le> n * c * (1 + u)"
proof -
  have "c * (1 - u) \<le> r" "r \<le> c * (1 + u)"
    using assms(1) by (auto simp: abs_le_iff algebra_simps)
  then show ?thesis using assms(2) by (simp add: mult.assoc mult_left_mono)
qed

lemma scaled_pro_rata:
  fixes n a b :: int
  assumes "0 \<le> n" "n \<le> 2 ^ 53" "0 \<le> a" "0 < b" "n * a div b < 2 ^ 53"
  shows "pro_rata n a b (ftrunc (rnd 53 (rnd 53 (1 * of_int n) * rnd 64 (of_int a / of_int b))))"
proof -
  let ?v = "of_int (n * a) / of_int b :: rat"
  let ?y = "of_int n * rnd 64 (of_int a / of_int b) :: rat"
  let ?k = "n * a div b"
  have n: "rnd 53 (1 * of_int n) = of_int n" using rnd_of_int [of n 53] assms by simp
  have ab: "(0 :: rat) \<le> of_int a / of_int b" using assms by simp
  have "\<bar>rnd 64 (of_int a / of_int b) - of_int a / of_int b\<bar> \<le> of_int a / of_int b * (2 :: rat) powi (- 64)"
    using rnd_error [of 64 "of_int a / of_int b"] ab by (simp only: abs_of_nonneg) simp
  from relative_error_mult [OF this, of "of_int n"]
  have y: "?v * (1 - 2 powi (- 64)) \<le> ?y" "?y \<le> ?v * (1 + 2 powi (- 64))"
    using assms(1) by simp_all
  have f: "\<lfloor>?v\<rfloor> = ?k" by (rule floor_divide_of_int_eq)
  have k: "of_int ?k \<le> ?v" "?v \<le> of_int (?k + 1)"
    using floor_correct [of ?v] unfolding f by linarith+
  have k0: "0 \<le> ?k" using assms by (simp add: pos_imp_zdiv_nonneg_iff)
  have u: "(0 :: rat) \<le> 1 - 2 powi (- 64)" "(0 :: rat) \<le> 1 + 2 powi (- 64)"
    by (simp_all add: power_int_minus)
  have "of_int ?k * (1 - 2 powi (- 64)) \<le> ?y"
    using y(1) mult_right_mono [OF k(1) u(1)] by linarith
  then have lo: "of_int ?k \<le> rnd 53 ?y" using k0 assms(5) by (intro rnd53_below) linarith+
  have up: "?y \<le> of_int m * (1 + 2 powi (- 64))" if "?v \<le> of_int m" for m
    using y(2) mult_right_mono [OF that u(2)] by linarith
  have hi: "rnd 53 ?y \<le> of_int (?k + 1)"
    using up [OF k(2)] k0 assms(5) by (intro rnd53_above) linarith+
  have ex: "rnd 53 ?y \<le> of_int ?k" if "b dvd n * a"
  proof -
    have "?v = of_int ?k" using that assms(4) by (simp only: of_int_div)
    with up [of ?k] k0 assms(5) show ?thesis by (intro rnd53_above) linarith+
  qed
  have "?k \<le> ftrunc (rnd 53 ?y)" "ftrunc (rnd 53 ?y) \<le> ?k + 1" "b dvd n * a \<Longrightarrow> ftrunc (rnd 53 ?y) \<le> ?k"
    using ftrunc_mono [OF lo] ftrunc_mono [OF hi] ftrunc_mono [OF ex] by (simp_all only: ftrunc_of_int)
  then show ?thesis unfolding n pro_rata_def by linarith
qed

lemma big_is_int64: "sint x = n \<Longrightarrow> big_is (SetInt64 newBigFloat x) 64 (of_int n)"
  using big_is_SetInt64_new [of x] by (simp del: of_int_sint)

lemma bprec_newBigFloat [simp]: "bprec newBigFloat = 0"
  by (simp add: newBigFloat_def)

lemma portion_value:
  assumes "sint N = n" "sint A = a" "sint B = b" "0 < b"
  shows "math_Int (math_MulF [SetInt64 newBigFloat N,
      bigQuo newBigFloat (SetInt64 newBigFloat A) (SetInt64 newBigFloat B)])
    = Some (ftrunc (rnd 53 (rnd 53 (1 * of_int n) * rnd 64 (of_int a / of_int b))))"
proof -
  have q: "big_is (bigQuo newBigFloat (SetInt64 newBigFloat A) (SetInt64 newBigFloat B)) 64
      (rnd 64 (of_int a / of_int b))"
    using big_is_Quo [OF big_is_int64 [OF assms(2)] big_is_int64 [OF assms(3)], of newBigFloat] assms(4)
    by simp
  have "big_is (math_MulF [SetInt64 newBigFloat N,
      bigQuo newBigFloat (SetInt64 newBigFloat A) (SetInt64 newBigFloat B)]) 53
      (rnd 53 (rnd 53 (1 * of_int n) * rnd 64 (of_int a / of_int b)))"
    unfolding math_MulF_def foldl_Cons foldl_Nil
    by (rule big_is_Mul big_is_consts big_is_int64 [OF assms(1)] q | (simp; fail))+
  then show ?thesis by (simp only: math_Int_is)
qed

lemma portion:
  assumes "sint N = n" "sint A = a" "sint B = b" "0 < b" "0 \<le> n" "n \<le> 2 ^ 53" "0 \<le> a" "n * a div b < 2 ^ 53"
  obtains x where "math_Int (math_MulF [SetInt64 newBigFloat N,
      bigQuo newBigFloat (SetInt64 newBigFloat A) (SetInt64 newBigFloat B)]) = Some (uint x)"
    "pro_rata n a b (uint x)" "BigInt_Uint64 (uint x) = x"
proof -
  let ?k = "ftrunc (rnd 53 (rnd 53 (1 * of_int n) * rnd 64 (of_int a / of_int b)))"
  have p: "pro_rata n a b ?k" using assms by (intro scaled_pro_rata)
  have "0 \<le> n * a div b" using assms by (simp add: pos_imp_zdiv_nonneg_iff)
  with p assms(8) have "0 \<le> ?k" "?k < 2 ^ 64" by (auto simp: pro_rata_def)
  then have u: "uint (of_int ?k :: uint64) = ?k" by (rule uint_of_int_64)
  show ?thesis
    by (rule that [of "of_int ?k"])
      (use portion_value [OF assms(1-4)] p in \<open>simp_all only: u BigInt_Uint64_def abs_of_nonneg [OF \<open>0 \<le> ?k\<close>]\<close>)
qed

lemma pro_rata_le:
  assumes "pro_rata n a b x" "0 \<le> n" "0 \<le> a" "a \<le> b" "0 < b"
  shows "x \<le> n"
proof -
  have "n * a \<le> n * b" using assms by (intro mult_left_mono)
  then have le: "n * a div b \<le> n" using zdiv_mono1 [of "n * a" "n * b" b] assms(5) by simp
  have ex: "b dvd n * a" if "n * a div b = n"
  proof -
    have "n * a = n * b + n * a mod b" using div_mult_mod_eq [of "n * a" b] that by simp
    then have "n * a mod b = 0" using \<open>n * a \<le> n * b\<close> pos_mod_sign [OF assms(5), of "n * a"] by linarith
    then show ?thesis by (simp add: dvd_eq_mod_eq_0)
  qed
  show ?thesis
  proof (cases "n * a div b = n")
    case True
    then show ?thesis using assms(1) ex by (simp add: pro_rata_def)
  next
    case False
    then have "n * a div b + 1 \<le> n" using le by simp
    with assms(1) le show ?thesis unfolding pro_rata_def by linarith
  qed
qed

lemma RemoveLiquidity_result:
  assumes "PoolID p \<noteq> ''''" "Amount_AssetID sh = PoolID p" "0 < Amount_Amount sh"
    and "Amount_Amount sh \<le> AmountShares p" "uint (AmountShares p) < 2 ^ 63"
    and "uint (AmountBase p) < 2 ^ 53" "uint (AmountQuote p) < 2 ^ 53"
  shows "\<exists>b q p'. RemoveLiquidity p sh = Some (p', Inr [NewAmount (BaseAsset p) b, NewAmount (QuoteAsset p) q])
    \<and> pro_rata (uint (AmountBase p)) (uint (Amount_Amount sh)) (uint (AmountShares p)) (uint b)
    \<and> pro_rata (uint (AmountQuote p)) (uint (Amount_Amount sh)) (uint (AmountShares p)) (uint q)
    \<and> b \<le> AmountBase p \<and> q \<le> AmountQuote p
    \<and> p' = p\<lparr>AmountShares := AmountShares p - Amount_Amount sh, AmountBase := AmountBase p - b,
              AmountQuote := AmountQuote p - q, Pool_Sequence := Pool_Sequence p + 1\<rparr>
    \<and> (Amount_Amount sh = AmountShares p \<longrightarrow> b = AmountBase p \<and> q = AmountQuote p)"
proof -
  let ?s = "uint (Amount_Amount sh)" and ?S = "uint (AmountShares p)"
    and ?B = "uint (AmountBase p)" and ?Q = "uint (AmountQuote p)"
  have s: "0 < ?s" "?s \<le> ?S" "0 < ?S" using assms(3,4) by (auto simp: word_less_def word_le_def)
  have i: "sint (Amount_Amount sh) = ?s" "sint (AmountShares p) = ?S" "sint (AmountBase p) = ?B" "sint (AmountQuote p) = ?Q"
    using assms(5-7) s by (auto intro!: sint_uint_64)
  have lt: "n * ?s div ?S < 2 ^ 53" if "0 \<le> n" "n < 2 ^ 53" for n
  proof -
    have "n * ?s div ?S \<le> n * ?S div ?S" using s that by (intro zdiv_mono1 mult_left_mono) auto
    with s that show ?thesis by simp
  qed
  obtain b where b: "math_Int (math_MulF [SetInt64 newBigFloat (AmountBase p),
      bigQuo newBigFloat (SetInt64 newBigFloat (Amount_Amount sh)) (SetInt64 newBigFloat (AmountShares p))]) = Some (uint b)"
    "pro_rata ?B ?s ?S (uint b)" "BigInt_Uint64 (uint b) = b"
    using portion [OF i(3,1,2) s(3)] lt [of ?B] assms(6) s by (metis order_less_imp_le uint_ge_0)
  obtain q where q: "math_Int (math_MulF [SetInt64 newBigFloat (AmountQuote p),
      bigQuo newBigFloat (SetInt64 newBigFloat (Amount_Amount sh)) (SetInt64 newBigFloat (AmountShares p))]) = Some (uint q)"
    "pro_rata ?Q ?s ?S (uint q)" "BigInt_Uint64 (uint q) = q"
    using portion [OF i(4,1,2) s(3)] lt [of ?Q] assms(7) s by (metis order_less_imp_le uint_ge_0)
  have le: "b \<le> AmountBase p" "q \<le> AmountQuote p"
    using pro_rata_le [OF b(2)] pro_rata_le [OF q(2)] s by (auto simp: word_le_def)
  have all: "b = AmountBase p \<and> q = AmountQuote p" if "Amount_Amount sh = AmountShares p"
    using b(2) q(2) s that by (simp add: pro_rata_def word_uint_eq_iff [of b] word_uint_eq_iff [of q])
  have "RemoveLiquidity p sh = Some (p\<lparr>AmountShares := AmountShares p - Amount_Amount sh, AmountBase := AmountBase p - b,
              AmountQuote := AmountQuote p - q, Pool_Sequence := Pool_Sequence p + 1\<rparr>,
      Inr [NewAmount (BaseAsset p) b, NewAmount (QuoteAsset p) q])"
    using assms(1-4) b(1,3) q(1,3) le
    by (simp add: RemoveLiquidity_def Amount_Validate_def Amount_IsZero_def not_less NewAmount_def
        mutate_pool_def CheckedSubU64_cases Let_def)
  with b(2) q(2) le all show ?thesis by blast
qed

text \<open>
  C4: removing liquidity from a pool whose reserves are below \<open>2 ^ 53\<close> succeeds for every valid
  amount of its shares; the shares, the base and the quote fall by exactly what is returned, each
  amount returned is the pro-rata part rounded to one of the two integers around it (and exact when it
  is an integer), never more than the reserve, and removing all shares empties the pool.
\<close>

theorem RemoveLiquidity_pro_rata:
  assumes "PoolID p \<noteq> ''''" "Amount_AssetID sh = PoolID p" "0 < Amount_Amount sh"
    and "Amount_Amount sh \<le> AmountShares p" "uint (AmountShares p) < 2 ^ 63"
    and "uint (AmountBase p) < 2 ^ 53" "uint (AmountQuote p) < 2 ^ 53"
  shows "\<exists>b q p'. RemoveLiquidity p sh = Some (p', Inr [NewAmount (BaseAsset p) b, NewAmount (QuoteAsset p) q])
    \<and> pro_rata (uint (AmountBase p)) (uint (Amount_Amount sh)) (uint (AmountShares p)) (uint b)
    \<and> pro_rata (uint (AmountQuote p)) (uint (Amount_Amount sh)) (uint (AmountShares p)) (uint q)
    \<and> b \<le> AmountBase p \<and> q \<le> AmountQuote p
    \<and> p' = p\<lparr>AmountShares := AmountShares p - Amount_Amount sh, AmountBase := AmountBase p - b,
              AmountQuote := AmountQuote p - q, Pool_Sequence := Pool_Sequence p + 1\<rparr>
    \<and> (Amount_Amount sh = AmountShares p \<longrightarrow> b = AmountBase p \<and> q = AmountQuote p)"
  by (rule RemoveLiquidity_result [OF assms])

theorem RemoveLiquidity_pro_rata_witness:
  "\<exists>b q p'. RemoveLiquidity product_pool (NewAmount ''A-B'' 100)
       = Some (p', Inr [NewAmount ''A'' b, NewAmount ''B'' q])
     \<and> pro_rata 1000 100 300 (uint b) \<and> AmountShares p' = 200"
proof -
  have w: "PoolID product_pool \<noteq> ''''" "Amount_AssetID (NewAmount ''A-B'' 100) = PoolID product_pool"
    "0 < Amount_Amount (NewAmount ''A-B'' 100)"
    "Amount_Amount (NewAmount ''A-B'' 100) \<le> AmountShares product_pool"
    "uint (AmountShares product_pool) < 2 ^ 63"
    "uint (AmountBase product_pool) < 2 ^ 53" "uint (AmountQuote product_pool) < 2 ^ 53"
    by (simp_all add: product_pool_def NewAmount_def)
  show ?thesis
    using RemoveLiquidity_pro_rata [OF w] by (auto simp: product_pool_def NewAmount_def)
qed

text \<open>
  With a base reserve of \<open>2 ^ 53 + 3\<close>, which does not fit the 53 bits of the product, removing all
  shares computes one unit more than the reserve: it fails with the overflow error, and the pool it
  leaves has its shares taken and its base set to zero.
\<close>

theorem RemoveLiquidity_large_reserve_fails:
  "case RemoveLiquidity (product_pool\<lparr>AmountBase := 2 ^ 53 + 3\<rparr>) (NewAmount ''A-B'' 300) of
     None \<Rightarrow> False
   | Some (p', r) \<Rightarrow> r = Inl ErrOverflowSub \<and> AmountShares p' = 0 \<and> AmountBase p' = 0 \<and> AmountQuote p' = 2000"
  by code_simp

lemma AddLiquidity_result:
  assumes "BaseAsset p \<noteq> ''''" "Amount_AssetID a = BaseAsset p" "0 < Amount_Amount a"
    and "uint (Amount_Amount a) < 2 ^ 63" "0 < AmountBase p"
    and "uint (AmountShares p) < 2 ^ 53" "uint (AmountBase p) < 2 ^ 53" "uint (AmountQuote p) < 2 ^ 53"
    and "uint (AmountQuote p) * uint (Amount_Amount a) div uint (AmountBase p) < 2 ^ 53"
    and "uint (AmountShares p) * uint (Amount_Amount a) div uint (AmountBase p) < 2 ^ 53"
  shows "\<exists>q s p'. AddLiquidity toF p a = Some (p', Inr (NewAmount (QuoteAsset p) q, NewAmount (PoolID p) s))
    \<and> pro_rata (uint (AmountQuote p)) (uint (Amount_Amount a)) (uint (AmountBase p)) (uint q)
    \<and> pro_rata (uint (AmountShares p)) (uint (Amount_Amount a)) (uint (AmountBase p)) (uint s)
    \<and> uint (AmountShares p') = uint (AmountShares p) + uint s
    \<and> uint (AmountBase p') = uint (AmountBase p) + uint (Amount_Amount a)
    \<and> uint (AmountQuote p') = uint (AmountQuote p) + uint q
    \<and> Pool_Sequence p' = Pool_Sequence p + 1"
proof -
  let ?a = "uint (Amount_Amount a)" and ?S = "uint (AmountShares p)"
    and ?B = "uint (AmountBase p)" and ?Q = "uint (AmountQuote p)"
  have B: "0 < ?B" "0 < ?a" using assms(3,5) by (auto simp: word_less_def)
  have i: "sint (Amount_Amount a) = ?a" "sint (AmountShares p) = ?S" "sint (AmountBase p) = ?B" "sint (AmountQuote p) = ?Q"
    using assms(4,6-8) by (auto intro!: sint_uint_64)
  obtain q where q: "math_Int (math_MulF [SetInt64 newBigFloat (AmountQuote p),
      bigQuo newBigFloat (SetInt64 newBigFloat (Amount_Amount a)) (SetInt64 newBigFloat (AmountBase p))]) = Some (uint q)"
    "pro_rata ?Q ?a ?B (uint q)" "BigInt_Uint64 (uint q) = q"
    using portion [OF i(4,1,3) B(1)] assms(8,9) B by (metis order_less_imp_le uint_ge_0)
  obtain s where s: "math_Int (math_MulF [SetInt64 newBigFloat (AmountShares p),
      bigQuo newBigFloat (SetInt64 newBigFloat (Amount_Amount a)) (SetInt64 newBigFloat (AmountBase p))]) = Some (uint s)"
    "pro_rata ?S ?a ?B (uint s)" "BigInt_Uint64 (uint s) = s"
    using portion [OF i(2,1,3) B(1)] assms(6,10) B by (metis order_less_imp_le uint_ge_0)
  have nz: "\<not> IsFloatZero (Some (SetInt64 newBigFloat (AmountBase p)))"
    using bigSign_is [OF big_is_int64 [OF i(3)]] B by (simp add: IsFloatZero_def del: of_int_uint)
  have qs: "uint q \<le> 2 ^ 53" "uint s \<le> 2 ^ 53"
    using q(2) s(2) assms(9,10) by (auto simp: pro_rata_def)
  obtain S' where S': "CheckedAddU64 (AmountShares p) s = Inr S'" "uint S' = ?S + uint s"
    using add.in_range [of "AmountShares p" s] add.Inr_iff assms(6) qs(2) by fastforce
  obtain B' where B': "CheckedAddU64 (AmountBase p) (Amount_Amount a) = Inr B'" "uint B' = ?B + ?a"
    using add.in_range [of "AmountBase p" "Amount_Amount a"] add.Inr_iff assms(4,7) by fastforce
  obtain Q' where Q': "CheckedAddU64 (AmountQuote p) q = Inr Q'" "uint Q' = ?Q + uint q"
    using add.in_range [of "AmountQuote p" q] add.Inr_iff assms(8) qs(1) by fastforce
  have "Amount_AssetID a \<noteq> ''''" "Amount_Amount a \<noteq> 0" using assms(1-3) by auto
  then have "AddLiquidity toF p a = Some (p\<lparr>AmountShares := S', AmountBase := B', AmountQuote := Q',
      Pool_Sequence := Pool_Sequence p + 1\<rparr>, Inr (NewAmount (QuoteAsset p) q, NewAmount (PoolID p) s))"
    using assms(2) nz q(1,3) s(1,3) S'(1) B'(1) Q'(1)
    by (simp add: AddLiquidity_def Amount_Validate_def Amount_IsZero_def NewAmount_def mutate_pool_def Let_def)
  with q(2) s(2) S'(2) B'(2) Q'(2) show ?thesis by fastforce
qed

text \<open>
  C8: adding liquidity to a pool with shares and reserves (below \<open>2 ^ 53\<close>) succeeds as long as the
  pro-rata amounts stay below \<open>2 ^ 53\<close>: the quote asked for and the shares given are the pro-rata parts
  rounded to an integer next to them, and the pool grows by exactly these amounts.
\<close>

theorem AddLiquidity_pro_rata:
  assumes "BaseAsset p \<noteq> ''''" "Amount_AssetID a = BaseAsset p" "0 < Amount_Amount a"
    and "uint (Amount_Amount a) < 2 ^ 63" "0 < AmountBase p"
    and "uint (AmountShares p) < 2 ^ 53" "uint (AmountBase p) < 2 ^ 53" "uint (AmountQuote p) < 2 ^ 53"
    and "uint (AmountQuote p) * uint (Amount_Amount a) div uint (AmountBase p) < 2 ^ 53"
    and "uint (AmountShares p) * uint (Amount_Amount a) div uint (AmountBase p) < 2 ^ 53"
  shows "\<exists>q s p'. AddLiquidity toF p a = Some (p', Inr (NewAmount (QuoteAsset p) q, NewAmount (PoolID p) s))
    \<and> pro_rata (uint (AmountQuote p)) (uint (Amount_Amount a)) (uint (AmountBase p)) (uint q)
    \<and> pro_rata (uint (AmountShares p)) (uint (Amount_Amount a)) (uint (AmountBase p)) (uint s)
    \<and> uint (AmountShares p') = uint (AmountShares p) + uint s
    \<and> uint (AmountBase p') = uint (AmountBase p) + uint (Amount_Amount a)
    \<and> uint (AmountQuote p') = uint (AmountQuote p) + uint q
    \<and> Pool_Sequence p' = Pool_Sequence p + 1"
  by (rule AddLiquidity_result [OF assms])

theorem AddLiquidity_pro_rata_witness:
  "\<exists>q s p'. AddLiquidity FFin product_pool (NewAmount ''A'' 10) = Some (p', Inr (NewAmount ''B'' q, NewAmount ''A-B'' s))
     \<and> uint q = 20 \<and> uint s = 3"
proof -
  have w: "BaseAsset product_pool \<noteq> ''''" "Amount_AssetID (NewAmount ''A'' 10) = BaseAsset product_pool"
    "0 < Amount_Amount (NewAmount ''A'' 10)" "uint (Amount_Amount (NewAmount ''A'' 10)) < 2 ^ 63"
    "0 < AmountBase product_pool" "uint (AmountShares product_pool) < 2 ^ 53"
    "uint (AmountBase product_pool) < 2 ^ 53" "uint (AmountQuote product_pool) < 2 ^ 53"
    "uint (AmountQuote product_pool) * uint (Amount_Amount (NewAmount ''A'' 10)) div uint (AmountBase product_pool) < 2 ^ 53"
    "uint (AmountShares product_pool) * uint (Amount_Amount (NewAmount ''A'' 10)) div uint (AmountBase product_pool) < 2 ^ 53"
    by (simp_all add: product_pool_def NewAmount_def)
  show ?thesis
    using AddLiquidity_pro_rata [OF w, of FFin] by (auto simp: product_pool_def NewAmount_def pro_rata_def)
qed

text \<open>
  When adding liquidity overflows the share counter, the error is returned and the pool passed in
  has lost all its shares: the failed assignment stores 0.
\<close>

theorem AddLiquidity_overflow_clears_shares:
  "case AddLiquidity FFin (product_pool\<lparr>AmountShares := - 1, AmountBase := 0\<rparr>) (NewAmount ''A'' 10) of
     None \<Rightarrow> False
   | Some (p', r) \<Rightarrow> r = Inl ErrOverflowAdd \<and> AmountShares p' = 0"
  by code_simp

section \<open>Yield pools\<close>

text \<open>The exact positive value of the conversion of an \<open>int64\<close>, and of the quotient of two.\<close>

lemma rnd64_le_big: "q \<le> 2 ^ 64 \<Longrightarrow> rnd64 q \<le> 2 ^ 64"
proof -
  assume "q \<le> 2 ^ 64"
  then have "rnd64 q \<le> rnd64 (2 ^ 64)" by (rule rnd64_mono)
  moreover have "rnd64 (2 ^ 64) = 2 ^ 64" by code_simp
  ultimately show ?thesis by simp
qed

lemma rn64_finite: "0 \<le> q \<Longrightarrow> q \<le> 2 ^ 64 \<Longrightarrow> finite_float (rn64 q) \<and> fval (rn64 q) = rnd64 q"
proof -
  assume q: "0 \<le> q" "q \<le> 2 ^ 64"
  have "(2 :: rat) ^ 64 < 2 ^ 1024" by (intro power_strict_increasing) auto
  then have "\<bar>rnd64 q\<bar> < 2 ^ 1024" using rnd64_le_big [OF q(2)] rnd64_nonneg [OF q(1)] by simp
  then show ?thesis by (rule fval_rn64)
qed

lemma f64_of_int_pos:
  assumes "0 < i" "i < 2 ^ 63"
  shows "f64_of_int i = FFin (rnd64 (of_int i)) \<and> 1 \<le> rnd64 (of_int i) \<and> rnd64 (of_int i) \<le> 2 ^ 64"
proof -
  have "i \<le> 2 ^ 64" using assms by simp
  then have i: "1 \<le> (of_int i :: rat)" "(of_int i :: rat) \<le> of_int (2 ^ 64)"
    using assms by (simp, simp only: of_int_le_iff)
  then have b: "1 \<le> rnd64 (of_int i)" "rnd64 (of_int i) \<le> 2 ^ 64"
    using rnd64_mono [OF i(1)] rnd64_of_int [of 1] rnd64_le_big [of "of_int i"] by simp_all
  have "rn64 (of_int i) = FFin (rnd64 (of_int i))"
    using rn64_finite [of "of_int i"] i b by (cases "rn64 (of_int i)") auto
  then show ?thesis using b assms by (simp add: f64_of_int_def F64_def)
qed

lemma flt_FFin: "finite_float x \<Longrightarrow> flt (FFin q) x \<longleftrightarrow> q < fval x"
  by (cases x) (auto simp: flt_def fcmp_def)

lemma calculateT_value:
  assumes "0 < sint d" "sint now < sint e" "sint e - sint now < 2 ^ 63"
  shows "finite_float (calculateT now e d) \<and>
    fval (calculateT now e d) = min 1 (rnd64 (rnd64 (of_int (sint e - sint now)) / rnd64 (of_int (sint d))))"
proof -
  let ?n = "rnd64 (of_int (sint e - sint now))" and ?d = "rnd64 (of_int (sint d))"
  have s: "sint (e - now) = sint e - sint now"
    using assms(2,3) by (intro sint_diff_64) auto
  have n: "f64_of_int (sint e - sint now) = FFin ?n" "1 \<le> ?n" "?n \<le> 2 ^ 64"
    using f64_of_int_pos [of "sint e - sint now"] assms by auto
  have d: "f64_of_int (sint d) = FFin ?d" "1 \<le> ?d"
    using f64_of_int_pos [of "sint d"] assms sint_range_64 [of d] by auto
  have q: "0 \<le> ?n / ?d" using n d by simp
  have "?n / ?d \<le> ?n / 1" using n d by (intro divide_left_mono) auto
  then have t: "finite_float (rn64 (?n / ?d))" "fval (rn64 (?n / ?d)) = rnd64 (?n / ?d)"
    using rn64_finite [OF q] n(3) by auto
  have "f64_div (f64_of_int (sint (e - now))) (f64_of_int (sint d)) = rn64 (?n / ?d)"
    unfolding s n(1) d(1) by (simp add: f64_div_def)
  then have "calculateT now e d = (if 1 < rnd64 (?n / ?d) then FFin 1 else rn64 (?n / ?d))"
    using assms(1,2) flt_FFin [OF t(1), of 1] t(2) by (simp add: calculateT_def word_sle_eq Let_def)
  then show ?thesis using t by simp
qed

text \<open>
  The time factor \<open>calculateT\<close> is a finite number between 0 and 1, it is 0 from the maturity on and
  never increases as time passes.
\<close>

theorem calculateT_decreases:
  assumes "sint now \<le> sint now'" "sint e - sint now < 2 ^ 63"
  shows "finite_float (calculateT now e d) \<and> 0 \<le> fval (calculateT now e d) \<and> fval (calculateT now e d) \<le> 1
    \<and> (sint e \<le> sint now \<longrightarrow> fval (calculateT now e d) = 0)
    \<and> fval (calculateT now' e d) \<le> fval (calculateT now e d)"
proof -
  have zero: "calculateT t e d = FZero False" if "\<not> (0 < sint d \<and> sint t < sint e)" for t
    using that by (auto simp: calculateT_def word_sle_eq not_less)
  have nonneg: "0 \<le> fval (calculateT t e d)" if "sint e - sint t < 2 ^ 63" for t
  proof (cases "0 < sint d \<and> sint t < sint e")
    case True
    with that show ?thesis
      using calculateT_value [of d t e] rnd64_nonneg [of "of_int (sint e - sint t)"] rnd64_nonneg [of "of_int (sint d)"]
      by (simp add: rnd64_nonneg del: of_int_diff of_int_sint)
  qed (simp add: zero)
  have mono: "fval (calculateT now' e d) \<le> fval (calculateT now e d)"
  proof (cases "0 < sint d \<and> sint now' < sint e")
    case True
    have "rnd64 (of_int (sint e - sint now')) \<le> rnd64 (of_int (sint e - sint now))"
      using assms(1) by (intro rnd64_mono) (simp del: of_int_sint)
    then have "rnd64 (of_int (sint e - sint now')) / rnd64 (of_int (sint d))
        \<le> rnd64 (of_int (sint e - sint now)) / rnd64 (of_int (sint d))"
      using True by (intro divide_right_mono rnd64_nonneg) (simp_all del: of_int_sint)
    from rnd64_mono [OF this] show ?thesis
      using calculateT_value [of d now e] calculateT_value [of d now' e] True assms
      by (simp del: of_int_diff of_int_sint)
  next
    case False
    then show ?thesis using zero [of now'] nonneg [of now] assms by simp
  qed
  show ?thesis
  proof (cases "0 < sint d \<and> sint now < sint e")
    case True
    with assms mono nonneg [of now] show ?thesis
      using calculateT_value [of d now e] by simp
  next
    case False
    then show ?thesis using zero [of now] mono by simp
  qed
qed

theorem calculateT_decreases_witness:
  "fval (calculateT 80 100 50) \<le> fval (calculateT 60 100 50) \<and> fval (calculateT 60 100 50) \<le> 1"
  using calculateT_decreases [of 60 80 100 50] by simp

text \<open>
  After maturity the exponents are 1, and the only thing the swap uses of \<open>math.Pow\<close> is its documented
  special case \<open>Pow(x, 1) = x\<close>.
\<close>

definition fint :: "int \<Rightarrow> gofloat" where
  "fint i = (if i = 0 then FZero False else FFin (of_int i))"

lemma rn64_of_int:
  assumes "\<bar>i\<bar> < 2 ^ 53" "i \<noteq> 0"
  shows "rn64 (of_int i) = FFin (of_int i)"
proof -
  have "finite_float (f64_of_int i)" "fval (f64_of_int i) = of_int i"
    using f64_of_int_exact [OF assms(1)] by auto
  moreover have "f64_of_int i = rn64 (of_int i)" using assms(2) by (simp add: f64_of_int_def F64_def)
  ultimately show ?thesis using assms(2) by (cases "rn64 (of_int i)") auto
qed

lemma f64_of_int_fint: "\<bar>i\<bar> < 2 ^ 53 \<Longrightarrow> f64_of_int i = fint i"
  using rn64_of_int [of i] by (auto simp: fint_def f64_of_int_def F64_def)

lemma f64_add_fint: "\<bar>i\<bar> < 2 ^ 53 \<Longrightarrow> \<bar>j\<bar> < 2 ^ 53 \<Longrightarrow> \<bar>i + j\<bar> < 2 ^ 53 \<Longrightarrow> f64_add (fint i) (fint j) = fint (i + j)"
  using rn64_of_int [of i] rn64_of_int [of j] rn64_of_int [of "i + j"]
  by (auto simp: fint_def f64_add_def of_int_add [symmetric] simp del: of_int_add)

lemma fneg_fint: "fneg (fint i) = (if i = 0 then FZero True else fint (- i))"
  by (simp add: fint_def)

lemma f64_sub_fint: "\<bar>i\<bar> < 2 ^ 53 \<Longrightarrow> \<bar>j\<bar> < 2 ^ 53 \<Longrightarrow> \<bar>i - j\<bar> < 2 ^ 53 \<Longrightarrow> f64_sub (fint i) (fint j) = fint (i - j)"
  using f64_add_fint [of i "- j"] rn64_of_int [of i]
  by (cases "j = 0") (auto simp: f64_sub_def fsub_def fneg_fint f64_add_def, auto simp: fint_def)

lemma matured_exponent: "finite_float g \<Longrightarrow>
   f64_sub (FFin 1) (f64_mul (FZero False) g) = FFin 1 \<and> f64_sub (FFin 1) (f64_mul g (FZero False)) = FFin 1"
  using rn64_of_int [of 1] by (cases g) (auto simp: f64_ops fsub_def)

lemma matured_K:
  assumes "\<And>x. pow x (FFin 1) = x" "finite_float g" "0 \<le> x" "x < 2 ^ 51" "0 \<le> y" "y < 2 ^ 51"
  shows "calculateK pow x y (FZero False) g = fint (x + y)"
  using assms(3-) f64_add_fint [of x y] matured_exponent [OF assms(2)]
  by (simp add: calculateK_def BigInt_Float64_def f64_of_int_fint assms(1))

lemma matured_delta:
  assumes "\<And>x. pow x (FFin 1) = x" "finite_float g" "0 \<le> o'" "o' < 2 ^ 51" "0 \<le> i" "i < 2 ^ 52" "0 \<le> k" "k < 2 ^ 52"
  shows "calculateDelta pow o' i (fint k) (FZero False) g = Some (k - i - o')"
proof -
  have one: "f64_div (FFin 1) (FFin 1) = FFin 1" using rn64_of_int [of 1] by (simp add: f64_div_def)
  have "f64_sub (f64_sub (fint k) (fint i)) (fint o') = fint (k - i - o')"
    using assms(3-) f64_sub_fint [of k i] f64_sub_fint [of "k - i" o'] by simp
  moreover have "math_Int (NewFloat (fint n)) = Some n" for n
    by (simp add: math_Int_def NewFloat_def fint_def)
  ultimately show ?thesis
    using assms(3-) matured_exponent [OF assms(2)]
    by (simp add: calculateDelta_def BigInt_Float64_def f64_of_int_fint assms(1) one Let_def)
qed

lemma OtherAssetID_member:
  assumes "\<not> EqualFold (BaseAsset p) (QuoteAsset p)"
  shows "OtherAssetID p (BaseAsset p) = Inr (QuoteAsset p) \<and> OtherAssetID p (QuoteAsset p) = Inr (BaseAsset p)"
  using assms by (auto simp: OtherAssetID_def Pool_AssetIDs_def EqualFold_def Let_def)

lemma NewBalance_int64_small:
  "a \<noteq> '''' \<Longrightarrow> uint n < 2 ^ 51 \<Longrightarrow> NewBalance_int64 a n = \<lparr>Balance_Asset = a, Balance_Amount = n\<rparr>"
  using sint_uint_64 [of n] by (auto simp: word_sless_alt not_less simp flip: uint_0_iff)

lemma uint_add_small: "uint x < 2 ^ 51 \<Longrightarrow> uint y < 2 ^ 51 \<Longrightarrow> uint (x + y) = uint x + uint y" for x y :: uint64
  by (subst uint_add_lem [THEN iffD1]) auto

text \<open>The two reserves as a swap sees them, and what a matured pool computes from them.\<close>

lemma yield_balances:
  assumes "a = BaseAsset p \<and> other = QuoteAsset p \<or> a = QuoteAsset p \<and> other = BaseAsset p"
    and "BaseAsset p \<noteq> ''''" "QuoteAsset p \<noteq> ''''" "BaseAsset p \<noteq> QuoteAsset p"
    and "uint (AmountBase p) < 2 ^ 51" "uint (AmountQuote p) < 2 ^ 51"
  obtains rin rout where "Pool_Balances p a
      = Inr (\<lparr>Balance_Asset = a, Balance_Amount = rin\<rparr>, \<lparr>Balance_Asset = other, Balance_Amount = rout\<rparr>)"
    "rin = AmountBase p \<and> rout = AmountQuote p \<or> rin = AmountQuote p \<and> rout = AmountBase p"
proof (cases "a = BaseAsset p")
  note nb = NewBalance_int64_small [OF assms(2,5)] NewBalance_int64_small [OF assms(3,6)]
  {
    case True
    then show ?thesis
      using assms(1,4) by (intro that [of "AmountBase p" "AmountQuote p"]) (simp_all only: Pool_Balances_def nb if_True, auto)
  next
    case False
    then have "a = QuoteAsset p" "other = BaseAsset p" using assms(1) by auto
    then show ?thesis
      using assms(4) by (intro that [of "AmountQuote p" "AmountBase p"]) (simp_all only: Pool_Balances_def nb if_False if_True, auto)
  }
qed

lemma matured_quote:
  fixes rin rout b q d :: uint64
  assumes "rin = b \<and> rout = q \<or> rin = q \<and> rout = b" "uint b < 2 ^ 51" "uint q < 2 ^ 51" "uint d < 2 ^ 51"
    and "\<And>x. pow x (FFin 1) = x" "finite_float g"
  shows "calculateK pow (sint q) (sint b) (FZero False) g = fint (sint q + sint b)"
    "calculateDelta pow (sint rout) (sint (rin + d)) (fint (sint q + sint b)) (FZero False) g = Some (- uint d)"
proof -
  have s: "sint b = uint b" "sint q = uint q" "sint rout = uint rout"
    using assms(1-3) by (auto intro: sint_uint_64)
  show "calculateK pow (sint q) (sint b) (FZero False) g = fint (sint q + sint b)"
    using assms(2,3,6) s by (intro matured_K assms(5)) auto
  have io: "uint rin + uint rout = uint q + uint b" "uint rin < 2 ^ 51" "uint rout < 2 ^ 51"
    using assms(1-3) by auto
  have i: "sint (rin + d) = uint rin + uint d"
    using uint_add_small [of rin d] sint_uint_64 [of "rin + d"] io(2) assms(4) by auto
  have "0 \<le> uint rout" "uint rin + uint d < 2 ^ 52" "0 \<le> uint rin + uint d" "0 \<le> uint q + uint b" "uint q + uint b < 2 ^ 52"
    using io assms(2-4) by auto
  then have "calculateDelta pow (uint rout) (uint rin + uint d) (fint (uint q + uint b)) (FZero False) g
      = Some (uint q + uint b - (uint rin + uint d) - uint rout)"
    using io(3) by (intro matured_delta [where pow = pow, OF assms(5,6)]) auto
  moreover have "uint q + uint b - (uint rin + uint d) - uint rout = - uint d" using io(1) by simp
  ultimately show "calculateDelta pow (sint rout) (sint (rin + d)) (fint (sint q + sint b)) (FZero False) g = Some (- uint d)"
    unfolding i s by simp
qed

text \<open>
  C33: from its maturity on, a yield pool swaps one for one and without a fee, in both directions. The
  reserve of the asset paid out does not bound the amount: a swap of more than the pool holds is
  quoted all the same.
\<close>

theorem yield_swap_at_maturity:
  assumes "\<not> IsProductPool p" "MaturityAt p \<le>s now" "\<not> EqualFold (BaseAsset p) (QuoteAsset p)"
    and "BaseAsset p \<noteq> ''''" "QuoteAsset p \<noteq> ''''"
    and "Balance_Asset bal = BaseAsset p \<and> other = QuoteAsset p \<or> Balance_Asset bal = QuoteAsset p \<and> other = BaseAsset p"
    and "0 < Balance_Amount bal" "uint (Balance_Amount bal) < 2 ^ 51"
    and "uint (AmountBase p) < 2 ^ 51" "uint (AmountQuote p) < 2 ^ 51"
    and "finite_float (toF (FeeFactor p))" "finite_float (f64_div (FFin 1) (toF (FeeFactor p)))"
    and "\<And>x. pow x (FFin 1) = x"
  shows "SimulateSwap toF pow now p bal =
    Some (Inr (\<lparr>Balance_Asset = other, Balance_Amount = Balance_Amount bal\<rparr>,
      \<lparr>Balance_Asset = Balance_Asset bal, Balance_Amount = 0\<rparr>))"
proof -
  have ne: "BaseAsset p \<noteq> QuoteAsset p" using assms(3) by auto
  obtain rin rout where r: "Pool_Balances p (Balance_Asset bal)
      = Inr (\<lparr>Balance_Asset = Balance_Asset bal, Balance_Amount = rin\<rparr>, \<lparr>Balance_Asset = other, Balance_Amount = rout\<rparr>)"
    and io: "rin = AmountBase p \<and> rout = AmountQuote p \<or> rin = AmountQuote p \<and> rout = AmountBase p"
    by (rule yield_balances [OF assms(6,4,5) ne assms(9,10)])
  have T: "calculateT now (MaturityAt p) (Duration p) = FZero False"
    using assms(2) by (simp add: calculateT_def)
  note K = matured_quote(1) [where pow = pow, OF io assms(9,10,8,13)]
    and D = matured_quote(2) [where pow = pow, OF io assms(9,10,8,13)]
  have add: "Balance_Add \<lparr>Balance_Asset = Balance_Asset bal, Balance_Amount = rin\<rparr> (Some bal)
      = Inr \<lparr>Balance_Asset = Balance_Asset bal, Balance_Amount = rin + Balance_Amount bal\<rparr>"
    using assms(4-7) by (auto simp: Balance_Add_def Balance_Valid_def)
  have other: "OtherAssetID p (Balance_Asset bal) = Inr other"
    using OtherAssetID_member [OF assms(3)] assms(6) by auto
  have v: "Balance_Valid bal" "\<not> Balance_IsZero bal" "other \<noteq> ''''"
    using assms(4-7) by (auto simp: Balance_Valid_def Balance_IsZero_def)
  have G: "finite_float (if Balance_Asset bal = BaseAsset p then f64_div (FFin 1) (Pool_G toF p) else Pool_G toF p)"
    using assms(1,11,12) by (simp add: Pool_G_def)
  have out: "BigInt_Int64 (math_Mul [- uint (Balance_Amount bal), - 1]) = Balance_Amount bal" "BigInt_Int64 (math_Sub (- uint (Balance_Amount bal)) [- uint (Balance_Amount bal)]) = 0"
    by (simp_all add: math_Mul_def math_Sub_def BigInt_Int64_def)
  have nb': "NewBalance_int64 other (Balance_Amount bal) = \<lparr>Balance_Asset = other, Balance_Amount = Balance_Amount bal\<rparr>"
    "NewBalance_int64 (Balance_Asset bal) 0 = \<lparr>Balance_Asset = Balance_Asset bal, Balance_Amount = 0\<rparr>"
    using v assms(8) NewBalance_int64_small [of other "Balance_Amount bal"] by (auto simp: Balance_Valid_def)
  have one: "finite_float (FFin 1)" by simp
  show ?thesis
    unfolding SimulateSwap_def simulateYieldPoolSwap_def Let_def r other sum.case prod.case add T
      Balance.simps K [OF one] K [OF G] D [OF one] D [OF G] option.case out nb'
    using assms(1) v by simp
qed

theorem yield_swap_at_maturity_witness:
  "SimulateSwap FFin (\<lambda>x y. x) 50 (product_pool\<lparr>IsProductPool := False\<rparr>) \<lparr>Balance_Asset = ''A'', Balance_Amount = 5000\<rparr>
    = Some (Inr (\<lparr>Balance_Asset = ''B'', Balance_Amount = 5000\<rparr>, \<lparr>Balance_Asset = ''A'', Balance_Amount = 0\<rparr>))"
proof -
  have "f64_div (FFin 1) (FFin (1 / 128)) = FFin 128" by code_simp
  then show ?thesis
    using yield_swap_at_maturity [where p = "product_pool\<lparr>IsProductPool := False\<rparr>" and now = 50
        and bal = "\<lparr>Balance_Asset = ''A'', Balance_Amount = 5000\<rparr>" and other = "''B''" and toF = FFin
        and pow = "\<lambda>x y. x"]
    by (simp add: product_pool_def EqualFold_def ToLower_def ascii_lower_def word_sle_eq)
qed

end
