(* ===== verification/Runs.thy ===== *)
theory Runs
  imports Main
begin

text \<open>
  Runs of a step relation whose steps are labelled with actions, and the two rules by which
  properties of steps become properties of runs: an invariant that every step keeps, and a relation
  that every step from a state with the invariant respects. The cache goroutines and the life of a
  liquidity pool are runs of this kind.
\<close>

inductive runs :: "('a \<Rightarrow> 's \<Rightarrow> 's \<Rightarrow> bool) \<Rightarrow> 's \<Rightarrow> 'a list \<Rightarrow> 's \<Rightarrow> bool" for step s where
  run_none: "runs step s [] s"
| run_step: "runs step s as s' \<Longrightarrow> step a s' s'' \<Longrightarrow> runs step s (as @ [a]) s''"

lemma runs_one: "step a s s' \<Longrightarrow> runs step s [a] s'"
  using run_step [where step = step, OF run_none] by simp

lemma runs_append: "runs step s' bs s'' \<Longrightarrow> runs step s as s' \<Longrightarrow> runs step s (as @ bs) s''"
proof (induction rule: runs.induct)
  case (run_step bs t b t')
  then show ?case using runs.run_step [where step = step and as = "as @ bs"] by simp
qed simp

lemma runs_restrict:
  "runs step s as s' \<Longrightarrow> \<forall>a \<in> set as. P a \<Longrightarrow> runs (\<lambda>a s s'. P a \<and> step a s s') s as s'"
  by (induction rule: runs.induct) (auto intro: runs.intros)

locale invariant =
  fixes step :: "'a \<Rightarrow> 's \<Rightarrow> 's \<Rightarrow> bool"
    and inv :: "'s \<Rightarrow> bool"
  assumes keeps: "step a s s' \<Longrightarrow> inv s \<Longrightarrow> inv s'"
begin

lemma runs_inv: "runs step s as s' \<Longrightarrow> inv s \<Longrightarrow> inv s'"
  by (induction rule: runs.induct) (auto intro: keeps)

end

locale progress = invariant step inv
  for step :: "'a \<Rightarrow> 's \<Rightarrow> 's \<Rightarrow> bool" and inv +
  fixes rel :: "'s \<Rightarrow> 's \<Rightarrow> bool"
  assumes reflexive: "rel s s"
    and transitive: "rel s s' \<Longrightarrow> rel s' s'' \<Longrightarrow> rel s s''"
    and respects: "step a s s' \<Longrightarrow> inv s \<Longrightarrow> rel s s'"
begin

lemma runs_rel: "runs step s as s' \<Longrightarrow> inv s \<Longrightarrow> rel s s'"
proof (induction rule: runs.induct)
  case (run_step as s' a s'')
  then show ?case using transitive respects runs_inv by blast
qed (rule reflexive)

end

end
