(* ===== verification/PoolRuns.thy ===== *)
theory PoolRuns
  imports PoolsLaws Runs
begin

text \<open>
  The life of a product pool of \<open>src/pools/types/pools.go\<close>: runs of its operations as a service calls
  them. A trade is a quote of \<open>SimulateSwap\<close> followed by \<open>AddAmount\<close> and \<open>SubAmount\<close>; \<open>AddLiquidity\<close>,
  \<open>AddAmount\<close> on its own and \<open>AddAccumulatedFees\<close> come in between. Whatever the order, the product of
  the reserves never falls, so that trading cannot empty a pool.
\<close>

definition liquidity_product :: "'d Pool \<Rightarrow> int" where
  "liquidity_product p = uint (AmountBase p) * uint (AmountQuote p)"

text \<open>
  \<open>SimulateSwap\<close> reads the reserves as signed numbers and clamps negative ones to 0, so the runs are those
  on which the reserves stay below \<open>2 ^ 63\<close>.
\<close>

definition bounded_reserves :: "'d Pool \<Rightarrow> bool" where
  "bounded_reserves p \<longleftrightarrow> uint (AmountBase p) < 2 ^ 63 \<and> uint (AmountQuote p) < 2 ^ 63"

definition good_pool :: "('d \<Rightarrow> gofloat) \<Rightarrow> 'd Pool \<Rightarrow> bool" where
  "good_pool toF p \<longleftrightarrow> IsProductPool p \<and> BaseAsset p \<noteq> '''' \<and> QuoteAsset p \<noteq> ''''
     \<and> BaseAsset p \<noteq> QuoteAsset p \<and> finite_float (toF (FeeFactor p)) \<and> 0 \<le> fval (toF (FeeFactor p))
     \<and> bounded_reserves p"

datatype pool_action = Trade int64 Balance uint64 | Liquidity Amount | Donate Amount | Fees Balance

text \<open>
  In a trade the amount \<open>d\<close> that is added to the reserve may keep the fee or leave it out; what is
  taken is the amount quoted.
\<close>

inductive pool_step ::
  "('d \<Rightarrow> gofloat) \<Rightarrow> (gofloat \<Rightarrow> gofloat \<Rightarrow> gofloat) \<Rightarrow> pool_action \<Rightarrow> 'd Pool \<Rightarrow> 'd Pool \<Rightarrow> bool"
  for toF pow where
  trade: "SimulateSwap toF pow now p bal = Some (Inr (out, fee)) \<Longrightarrow> 0 \<le> sint (Balance_Amount bal) \<Longrightarrow>
    sint (Balance_Amount bal) - sint (Balance_Amount fee) \<le> uint d \<Longrightarrow>
    Pool_AddAmount p (NewAmount (Balance_Asset bal) d) = (p1, None) \<Longrightarrow>
    Pool_SubAmount p1 (NewAmount (Balance_Asset out) (Balance_Amount out)) = (p', None) \<Longrightarrow>
    bounded_reserves p' \<Longrightarrow> pool_step toF pow (Trade now bal d) p p'"
| liquidity: "AddLiquidity toF p amount = Some (p', Inr r) \<Longrightarrow> bounded_reserves p' \<Longrightarrow>
    pool_step toF pow (Liquidity amount) p p'"
| donate: "Pool_AddAmount p amount = (p', None) \<Longrightarrow> bounded_reserves p' \<Longrightarrow> pool_step toF pow (Donate amount) p p'"
| fees: "AddAccumulatedFees p bal = (p', err) \<Longrightarrow> pool_step toF pow (Fees bal) p p'"

inductive_cases pool_stepE: "pool_step toF pow a p p'"

text \<open>What the operations leave as it is.\<close>

definition same_terms :: "'d Pool \<Rightarrow> 'd Pool \<Rightarrow> bool" where
  "same_terms p p' \<longleftrightarrow> PoolID p' = PoolID p \<and> IsProductPool p' = IsProductPool p \<and> BaseAsset p' = BaseAsset p
     \<and> QuoteAsset p' = QuoteAsset p \<and> FeeFactor p' = FeeFactor p"

lemma Pool_AddAmount_ok:
  assumes "Pool_AddAmount p (NewAmount a d) = (p', None)" "a \<noteq> ''''" "BaseAsset p \<noteq> QuoteAsset p"
  shows "same_terms p p' \<and>
    (a = BaseAsset p \<and> uint (AmountBase p') = uint (AmountBase p) + uint d \<and> AmountQuote p' = AmountQuote p
     \<or> a = QuoteAsset p \<and> AmountBase p' = AmountBase p \<and> uint (AmountQuote p') = uint (AmountQuote p) + uint d)"
  using assms
  by (auto simp: Pool_AddAmount_def Amount_AddUint64_def NewAmount_def same_terms_def add.Inr_iff
      split: if_splits sum.splits)


lemma Pool_SubAmount_ok:
  assumes "Pool_SubAmount p (NewAmount a d) = (p', None)" "a \<noteq> ''''" "BaseAsset p \<noteq> QuoteAsset p"
  shows "same_terms p p' \<and>
    (a = BaseAsset p \<and> uint (AmountBase p') = uint (AmountBase p) - uint d \<and> AmountQuote p' = AmountQuote p
     \<or> a = QuoteAsset p \<and> AmountBase p' = AmountBase p \<and> uint (AmountQuote p') = uint (AmountQuote p) - uint d)"
  using assms
  by (auto simp: Pool_SubAmount_def NewAmount_def same_terms_def sub.Inr_iff split: if_splits sum.splits)

lemma AddLiquidity_ok:
  assumes "AddLiquidity toF p amount = Some (p', Inr r)"
  shows "same_terms p p' \<and> uint (AmountBase p) \<le> uint (AmountBase p') \<and> uint (AmountQuote p) \<le> uint (AmountQuote p')"
  using assms
  by (auto simp: AddLiquidity_def mutate_pool_def same_terms_def add.Inr_iff Let_def
      split: option.splits if_splits sum.splits prod.splits)

lemma swap_reserves:
  assumes "SimulateSwap toF pow now p bal = Some (Inr r)" "good_pool toF p"
  obtains x y where "Pool_Balances p (Balance_Asset bal) = Inr (x, y)"
    "Balance_Asset bal = BaseAsset p \<and> Balance_Asset y = QuoteAsset p
       \<and> sint (Balance_Amount x) = uint (AmountBase p) \<and> sint (Balance_Amount y) = uint (AmountQuote p)
     \<or> Balance_Asset bal = QuoteAsset p \<and> Balance_Asset y = BaseAsset p
       \<and> sint (Balance_Amount x) = uint (AmountQuote p) \<and> sint (Balance_Amount y) = uint (AmountBase p)"
proof -
  have g: "IsProductPool p" "BaseAsset p \<noteq> ''''" "QuoteAsset p \<noteq> ''''" "BaseAsset p \<noteq> QuoteAsset p"
    "sint (AmountBase p) = uint (AmountBase p)" "sint (AmountQuote p) = uint (AmountQuote p)"
    using assms(2) by (auto simp: good_pool_def bounded_reserves_def intro!: sint_uint_64)
  have n: "\<not> AmountBase p <s 0" "\<not> AmountQuote p <s 0"
    "\<not> 0 <s AmountBase p \<Longrightarrow> uint (AmountBase p) = 0" "\<not> 0 <s AmountQuote p \<Longrightarrow> uint (AmountQuote p) = 0"
    using g(5,6) uint_ge_0 [of "AmountBase p"] uint_ge_0 [of "AmountQuote p"] by (simp_all add: word_sless_alt)
  obtain x y where xy: "Pool_Balances p (Balance_Asset bal) = Inr (x, y)"
    using assms(1) g(1) by (auto simp: SimulateSwap_def simulateProductPoolSwap_def split: if_splits sum.splits)
  show ?thesis
    by (rule that [OF xy]) (use xy g n in \<open>auto simp: Pool_Balances_def split: if_splits\<close>)
qed

lemma product_grows:
  fixes x y a d v :: int
  assumes "x * y \<le> (x + a) * (y - v)" "a \<le> d" "v \<le> y"
  shows "x * y \<le> (x + d) * (y - v)"
proof -
  have "(x + a) * (y - v) \<le> (x + d) * (y - v)" using assms by (intro mult_right_mono) auto
  then show ?thesis using assms(1) by linarith
qed

lemma trade_grows:
  assumes "good_pool toF p" "SimulateSwap toF pow now p bal = Some (Inr (out, fee))" "0 \<le> sint (Balance_Amount bal)"
    and "sint (Balance_Amount bal) - sint (Balance_Amount fee) \<le> uint d"
    and "Pool_AddAmount p (NewAmount (Balance_Asset bal) d) = (p1, None)"
    and "Pool_SubAmount p1 (NewAmount (Balance_Asset out) (Balance_Amount out)) = (p', None)"
  shows "same_terms p p' \<and> liquidity_product p \<le> liquidity_product p'"
proof -
  obtain x y where xy: "Pool_Balances p (Balance_Asset bal) = Inr (x, y)"
    "Balance_Asset bal = BaseAsset p \<and> Balance_Asset y = QuoteAsset p
       \<and> sint (Balance_Amount x) = uint (AmountBase p) \<and> sint (Balance_Amount y) = uint (AmountQuote p)
     \<or> Balance_Asset bal = QuoteAsset p \<and> Balance_Asset y = BaseAsset p
       \<and> sint (Balance_Amount x) = uint (AmountQuote p) \<and> sint (Balance_Amount y) = uint (AmountBase p)"
    using swap_reserves [OF assms(2,1)] by blast
  have g: "IsProductPool p" "BaseAsset p \<noteq> ''''" "QuoteAsset p \<noteq> ''''" "BaseAsset p \<noteq> QuoteAsset p"
    "finite_float (toF (FeeFactor p))" "0 \<le> fval (toF (FeeFactor p))"
    using assms(1) by (auto simp: good_pool_def)
  let ?a = "sint (Balance_Amount bal) - sint (Balance_Amount fee)" and ?o = "sint (Balance_Amount out)"
  let ?x = "sint (Balance_Amount x)" and ?y = "sint (Balance_Amount y)"
  from product_swap_result [where toF = toF and pow = pow and now = now, OF g(1-3,5,6) xy(1) assms(3)]
  have r: "Balance_Asset out = Balance_Asset y" "0 < ?a" "?o = ?y * ?a div (?x + ?a)" "?o \<le> ?y"
    "?x * ?y \<le> (?x + ?a) * (?y - ?o)"
    unfolding assms(2) option.case sum.case prod.case Let_def by blast+
  have "0 \<le> ?x" "0 \<le> ?y" using xy(2) by auto
  then have o: "uint (Balance_Amount out) = ?o"
    using r(2,3) by (intro uint_eq_sint_64) (simp add: pos_imp_zdiv_nonneg_iff)
  note up = product_grows [OF r(5) assms(4) r(4)]
  have bal: "Balance_Asset bal \<noteq> ''''" "Balance_Asset out \<noteq> ''''" using xy(2) g r(1) by auto
  note add = Pool_AddAmount_ok [OF assms(5) bal(1) g(4)]
  have ne: "BaseAsset p1 \<noteq> QuoteAsset p1" using add g(4) by (simp add: same_terms_def)
  note sub' = Pool_SubAmount_ok [OF assms(6) bal(2) ne]
  have terms: "same_terms p p'" using add sub' by (simp add: same_terms_def)
  have eqs: "BaseAsset p1 = BaseAsset p" "QuoteAsset p1 = QuoteAsset p" using add by (auto simp: same_terms_def)
  from xy(2) have "liquidity_product p = ?x * ?y \<and> liquidity_product p' = (?x + uint d) * (?y - ?o)"
  proof (elim disjE conjE)
    assume b: "Balance_Asset bal = BaseAsset p" "Balance_Asset y = QuoteAsset p"
      "?x = uint (AmountBase p)" "?y = uint (AmountQuote p)"
    then have "uint (AmountBase p') = ?x + uint d" "uint (AmountQuote p') = ?y - ?o"
      using add sub' g(4) r(1) o eqs by auto
    then show ?thesis by (simp only: liquidity_product_def b)
  next
    assume b: "Balance_Asset bal = QuoteAsset p" "Balance_Asset y = BaseAsset p"
      "?x = uint (AmountQuote p)" "?y = uint (AmountBase p)"
    then have "uint (AmountQuote p') = ?x + uint d" "uint (AmountBase p') = ?y - ?o"
      using add sub' g(4) r(1) o eqs by auto
    then show ?thesis by (simp only: liquidity_product_def b mult.commute)
  qed
  with terms up show ?thesis by simp
qed

lemma step_grows:
  assumes "pool_step toF pow a p p'" "good_pool toF p"
  shows "same_terms p p' \<and> bounded_reserves p' \<and> liquidity_product p \<le> liquidity_product p'"
  using assms(1)
proof cases
  case (trade now bal out fee d p1)
  then show ?thesis using trade_grows [OF assms(2)] by blast
next
  case (liquidity amount r)
  then show ?thesis using AddLiquidity_ok by (fastforce simp: liquidity_product_def intro: mult_mono)
next
  case (donate amount)
  have add: "Pool_AddAmount p (NewAmount (Amount_AssetID amount) (Amount_Amount amount)) = (p', None)"
    using donate(2) by (cases amount) (simp add: NewAmount_def)
  moreover have "Amount_AssetID amount \<noteq> ''''" "BaseAsset p \<noteq> QuoteAsset p"
    using donate(2) assms(2) by (auto simp: Pool_AddAmount_def good_pool_def split: if_splits)
  ultimately have "same_terms p p'" "uint (AmountBase p) \<le> uint (AmountBase p')" "uint (AmountQuote p) \<le> uint (AmountQuote p')"
    using Pool_AddAmount_ok [OF add] by auto
  then show ?thesis using donate(3) by (auto simp: liquidity_product_def intro: mult_mono)
next
  case (fees bal err)
  then show ?thesis using assms(2)
    by (auto simp: AddAccumulatedFees_def same_terms_def good_pool_def bounded_reserves_def liquidity_product_def
        split: if_splits)
qed

interpretation pool: progress "pool_step toF pow" "good_pool toF"
  "\<lambda>p p'. same_terms p p' \<and> liquidity_product p \<le> liquidity_product p'"
  for toF :: "'d \<Rightarrow> gofloat" and pow
proof unfold_locales
  fix a and p p' :: "'d Pool" assume "pool_step toF pow a p p'" "good_pool toF p"
  note s = step_grows [OF this]
  then show "same_terms p p' \<and> liquidity_product p \<le> liquidity_product p'" by blast
  show "good_pool toF p'" using s \<open>good_pool toF p\<close> by (simp add: good_pool_def same_terms_def)
qed (auto simp: same_terms_def)

text \<open>
  C7: over any run of trades, added liquidity, donations and collected fees, whatever their order, a
  product pool keeps its assets and terms, the product of its reserves never falls, and so a pool that
  has both assets never runs out of one.
\<close>

theorem product_pool_run:
  assumes "runs (pool_step toF pow) p as p'" "good_pool toF p"
  shows "good_pool toF p' \<and> same_terms p p' \<and> liquidity_product p \<le> liquidity_product p'
    \<and> (0 < AmountBase p \<and> 0 < AmountQuote p \<longrightarrow> 0 < AmountBase p' \<and> 0 < AmountQuote p')"
proof -
  have r: "good_pool toF p'" "same_terms p p'" "liquidity_product p \<le> liquidity_product p'"
    using pool.runs_inv [OF assms] pool.runs_rel [OF assms] by blast+
  moreover have "0 < AmountBase p' \<and> 0 < AmountQuote p'" if "0 < AmountBase p" "0 < AmountQuote p"
  proof -
    have "0 < liquidity_product p" using that by (simp add: liquidity_product_def word_less_def)
    then have "0 < uint (AmountBase p') * uint (AmountQuote p')" using r(3) by (simp add: liquidity_product_def)
    then show ?thesis using uint_ge_0 [of "AmountBase p'"] uint_ge_0 [of "AmountQuote p'"]
      by (auto simp: word_less_def zero_less_mult_iff)
  qed
  ultimately show ?thesis by blast
qed

text \<open>A concrete run: a trade of 128 of the base asset, and then the fee of one unit.\<close>

definition traded_pool :: "rat Pool" where
  "traded_pool = product_pool\<lparr>AmountBase := 1128, AmountQuote := 1775, FeesCollectedBase := 1, Pool_Sequence := 10\<rparr>"

lemma demo_pool_run:
  "runs (pool_step FFin (\<lambda>x y. x)) product_pool
     [Trade 0 \<lparr>Balance_Asset = ''A'', Balance_Amount = 128\<rparr> 128, Fees \<lparr>Balance_Asset = ''A'', Balance_Amount = 1\<rparr>] traded_pool"
proof -
  let ?b = "\<lparr>Balance_Asset = ''A'', Balance_Amount = 128\<rparr>" and ?f = "\<lparr>Balance_Asset = ''A'', Balance_Amount = 1\<rparr>"
  let ?p = "product_pool\<lparr>AmountBase := 1128, AmountQuote := 1775, Pool_Sequence := 9\<rparr>"
  let ?o = "\<lparr>Balance_Asset = ''B'', Balance_Amount = 225\<rparr>"
  have swap: "SimulateSwap FFin (\<lambda>x y. x) 0 product_pool ?b = Some (Inr (?o, ?f))"
    by code_simp
  let ?p1 = "product_pool\<lparr>AmountBase := 1128, Pool_Sequence := 8\<rparr>"
  have add: "Pool_AddAmount product_pool (NewAmount (Balance_Asset ?b) 128) = (?p1, None)"
    by (simp add: Pool_AddAmount_def product_pool_def NewAmount_def Amount_AddUint64_def CheckedAddU64_def Add64_def)
  have sub: "Pool_SubAmount ?p1 (NewAmount (Balance_Asset ?o) (Balance_Amount ?o)) = (?p, None)"
    by (simp add: Pool_SubAmount_def product_pool_def NewAmount_def CheckedSubU64_def Sub64_def)
  have "pool_step FFin (\<lambda>x y. x) (Trade 0 ?b 128) product_pool ?p"
    by (rule trade [OF swap _ _ add sub]) (simp_all add: bounded_reserves_def product_pool_def)
  from run_step [where step = "pool_step FFin (\<lambda>x y. x)", OF run_none this] have one: "runs (pool_step FFin (\<lambda>x y. x)) product_pool [Trade 0 ?b 128] ?p"
    by (simp only: append_Nil)
  have "pool_step FFin (\<lambda>x y. x) (Fees ?f) ?p traded_pool"
    by (rule fees [where err = None])
      (simp add: AddAccumulatedFees_def product_pool_def traded_pool_def Balance_Valid_def)
  from run_step [where step = "pool_step FFin (\<lambda>x y. x)", OF one this] show ?thesis by (simp only: append.simps)
qed

theorem product_pool_run_witness:
  "liquidity_product product_pool \<le> liquidity_product traded_pool \<and> 0 < AmountQuote traded_pool"
proof -
  have "good_pool FFin product_pool" by (simp add: good_pool_def product_pool_def bounded_reserves_def)
  from product_pool_run [OF demo_pool_run this] show ?thesis by (simp add: product_pool_def)
qed

text \<open>
  Without the bound this fails: a base reserve of \<open>2 ^ 63\<close> is read as 0, and a swap of 128 units of the
  base asset is quoted the whole quote reserve.
\<close>

lemma large_reserve_is_drained:
  "case SimulateSwap FFin (\<lambda>x y. x) 0 (product_pool\<lparr>AmountBase := 2 ^ 63\<rparr>) \<lparr>Balance_Asset = ''A'', Balance_Amount = 128\<rparr> of
     Some (Inr (out, fee)) \<Rightarrow> Balance_Asset out = ''B'' \<and> Balance_Amount out = AmountQuote product_pool
   | _ \<Rightarrow> False"
  by code_simp

section \<open>Adding liquidity and taking it out again\<close>

lemma pro_rata_mult:
  assumes "pro_rata n a b x" "0 < b"
  shows "n * a - b < b * x \<and> b * x < n * a + b \<and> (b dvd n * a \<longrightarrow> b * x = n * a)"
proof -
  have m: "b * (n * a div b) = n * a - n * a mod b" by (simp add: minus_mod_eq_mult_div)
  have r: "0 \<le> n * a mod b" "n * a mod b < b" using assms(2) by simp_all
  from assms(1) consider "x = n * a div b" | "x = n * a div b + 1" "\<not> b dvd n * a" by (auto simp: pro_rata_def)
  then show ?thesis
  proof cases
    case 1
    then show ?thesis using m r by auto
  next
    case 2
    then have "n * a mod b \<noteq> 0" by (simp add: dvd_eq_mod_eq_0)
    with 2 m r show ?thesis by (simp add: distrib_left)
  qed
qed

lemma AddLiquidity_frame:
  assumes "AddLiquidity toF p amount = Some (p', Inr r)"
  shows "p'\<lparr>AmountShares := s, AmountBase := b, AmountQuote := q, Pool_Sequence := n\<rparr>
    = p\<lparr>AmountShares := s, AmountBase := b, AmountQuote := q, Pool_Sequence := n\<rparr>"
  using assms
  by (auto simp: AddLiquidity_def mutate_pool_def Let_def split: option.splits if_splits sum.splits prod.splits)

lemma word_diff_eq: "uint x = uint y + uint z \<Longrightarrow> x - z = y" for x y z :: uint64
  by (metis add_diff_cancel_right' wi_hom_add word_of_int_uint)

text \<open>The part of what has been added that a rounded number \<open>s\<close> of shares stands for.\<close>

lemma pro_rata_back:
  fixes n d s t x e :: int
  assumes "pro_rata (n + d) s t x" "0 < t" "\<bar>n * s - d * (t - s)\<bar> \<le> e"
  shows "\<bar>x - d\<bar> \<le> e div t + 1"
proof -
  let ?m = "(n + d) * s"
  have m: "d * t - e \<le> ?m" "?m \<le> d * t + e"
    using assms(3) by (auto simp: algebra_simps abs_le_iff)
  have "?m div t \<le> (d * t + e) div t" using m(2) assms(2) by (intro zdiv_mono1)
  then have up: "?m div t \<le> d + e div t" using assms(2) by simp
  have le: "t * (e div t + 1) > e"
    using assms(2) by (metis add.commute distrib_left mult.right_neutral mult_div_mod_eq pos_mod_bound add_strict_left_mono)
  have "d * t - t * (e div t + 1) < ?m" using m(1) le by linarith
  then have "t * (d - (e div t + 1)) < ?m" by (simp add: algebra_simps)
  then have lo: "d - (e div t + 1) \<le> ?m div t"
    using assms(2) by (metis less_imp_le mult.commute zdiv_mono1 nonzero_mult_div_cancel_right order_less_irrefl)
  from assms(1) up lo show ?thesis by (auto simp: pro_rata_def abs_le_iff)
qed

lemma pro_rata_back_exact:
  fixes n d s t x :: int
  assumes "pro_rata (n + d) s t x" "0 < t" "n * s = d * (t - s)"
  shows "x = d"
proof -
  have "(n + d) * s = d * t" using assms(3) by (simp add: algebra_simps)
  then show ?thesis using assms(1,2) by (simp add: pro_rata_def)
qed

lemma pro_rata_pair:
  fixes S Q B a s q :: int
  assumes "pro_rata S a B s" "pro_rata Q a B q" "0 < B" "0 < S" "0 \<le> Q"
  shows "\<bar>B * s - a * S\<bar> \<le> B - 1" "\<bar>Q * s - q * S\<bar> \<le> S + Q - 1"
    and "B dvd S * a \<Longrightarrow> B * s = a * S" "B dvd S * a \<Longrightarrow> B dvd Q * a \<Longrightarrow> Q * s = q * S"
proof -
  note s = pro_rata_mult [OF assms(1,3)] and q = pro_rata_mult [OF assms(2,3)]
  show "\<bar>B * s - a * S\<bar> \<le> B - 1" using s by (auto simp: abs_le_iff mult.commute)
  show "B * s = a * S" if "B dvd S * a" using s that by (simp add: mult.commute)
  have eq: "B * (Q * s - q * S) = Q * (B * s - S * a) - S * (B * q - Q * a)"
    by (simp add: algebra_simps)
  show "Q * s = q * S" if "B dvd S * a" "B dvd Q * a" using eq s q that assms(3) by simp
  have "\<bar>Q * (B * s - S * a)\<bar> \<le> Q * (B - 1)" "\<bar>S * (B * q - Q * a)\<bar> \<le> S * (B - 1)"
    unfolding abs_mult using s q assms(4,5) by (auto intro!: mult_mono simp: abs_le_iff)
  then have "\<bar>B * (Q * s - q * S)\<bar> \<le> (S + Q) * (B - 1)" unfolding eq by (simp add: algebra_simps)
  also have "\<dots> < B * (S + Q)" using assms(4,5) by (simp add: algebra_simps)
  finally have "B * \<bar>Q * s - q * S\<bar> < B * (S + Q)" using assms(3) by (simp add: abs_mult)
  then show "\<bar>Q * s - q * S\<bar> \<le> S + Q - 1" using assms(3) by (simp add: mult_less_cancel_left_pos)
qed

text \<open>
  C13: taking out the liquidity that was just added gives back what was put in up to rounding: the base
  within \<open>(B - 1) div (S + s) + 1\<close> units and the quote within \<open>(S + Q - 1) div (S + s) + 1\<close>, for reserves
  \<open>B\<close> and \<open>Q\<close>, \<open>S\<close> shares and \<open>s\<close> new ones, so at most 1 and 2 units when there are as many shares as
  units; and exactly that, leaving the pool as it was, when the pro-rata amounts are integers.
\<close>

theorem liquidity_roundtrip:
  assumes "PoolID p \<noteq> ''''" "BaseAsset p \<noteq> ''''" "Amount_AssetID a = BaseAsset p" "0 < Amount_Amount a"
    and "0 < AmountBase p" "0 < AmountShares p" "uint (AmountShares p) < 2 ^ 53"
    and "uint (AmountBase p) + uint (Amount_Amount a) < 2 ^ 53"
    and "uint (AmountQuote p) + uint (AmountQuote p) * uint (Amount_Amount a) div uint (AmountBase p) + 1 < 2 ^ 53"
    and "uint (AmountShares p) * uint (Amount_Amount a) div uint (AmountBase p) < 2 ^ 53"
    and "AddLiquidity toF p a = Some (p', Inr (quoteIn, sharesOut))" "0 < Amount_Amount sharesOut"
  shows "\<exists>b q p''. RemoveLiquidity p' sharesOut = Some (p'', Inr [NewAmount (BaseAsset p) b, NewAmount (QuoteAsset p) q])
    \<and> \<bar>uint b - uint (Amount_Amount a)\<bar> \<le> (uint (AmountBase p) - 1) div uint (AmountShares p') + 1
    \<and> \<bar>uint q - uint (Amount_Amount quoteIn)\<bar>
        \<le> (uint (AmountShares p) + uint (AmountQuote p) - 1) div uint (AmountShares p') + 1
    \<and> (uint (AmountBase p) dvd uint (AmountShares p) * uint (Amount_Amount a)
        \<and> uint (AmountBase p) dvd uint (AmountQuote p) * uint (Amount_Amount a) \<longrightarrow>
        b = Amount_Amount a \<and> q = Amount_Amount quoteIn
        \<and> p'' = p\<lparr>Pool_Sequence := Pool_Sequence p + 2\<rparr>)"
proof -
  let ?a = "uint (Amount_Amount a)" and ?S = "uint (AmountShares p)"
    and ?B = "uint (AmountBase p)" and ?Q = "uint (AmountQuote p)"
  have pos: "0 < ?B" "0 < ?S" "0 \<le> ?Q" "0 < ?a" using assms(4-6) by (simp_all add: word_less_def)
  obtain q\<^sub>1 s where add: "quoteIn = NewAmount (QuoteAsset p) q\<^sub>1" "sharesOut = NewAmount (PoolID p) s"
    "pro_rata ?Q ?a ?B (uint q\<^sub>1)" "pro_rata ?S ?a ?B (uint s)"
    "uint (AmountShares p') = ?S + uint s" "uint (AmountBase p') = ?B + ?a"
    "uint (AmountQuote p') = ?Q + uint q\<^sub>1" "Pool_Sequence p' = Pool_Sequence p + 1"
  proof -
    have "0 \<le> ?Q * ?a div ?B" using pos by (simp add: pos_imp_zdiv_nonneg_iff)
    then have lt: "?a < 2 ^ 63" "?B < 2 ^ 53" "?Q < 2 ^ 53" "?Q * ?a div ?B < 2 ^ 53"
      using assms(8,9) pos power_strict_increasing [of 53 63 "2 :: int"] by linarith+
    from AddLiquidity_result [OF assms(2-4) lt(1) assms(5,7) lt(2-4) assms(10), of toF] assms(11)
    show ?thesis by (elim exE conjE) (rule that, auto)
  qed
  have same: "PoolID p' = PoolID p" "BaseAsset p' = BaseAsset p" "QuoteAsset p' = QuoteAsset p"
    using AddLiquidity_ok [OF assms(11)] by (auto simp: same_terms_def)
  have lt: "uint (AmountShares p') < 2 ^ 63" "uint (AmountBase p') < 2 ^ 53" "uint (AmountQuote p') < 2 ^ 53"
    using add(3-7) assms(7-10) by (auto simp: pro_rata_def)
  have sh: "Amount_Amount sharesOut = s" "Amount_AssetID sharesOut = PoolID p'"
    using add(2) same by (auto simp: NewAmount_def)
  have "s \<le> AmountShares p'" using add(5) pos by (simp add: word_le_def)
  with RemoveLiquidity_result [of p' sharesOut] assms(1,12) sh lt same
  obtain b q p'' where rem: "RemoveLiquidity p' sharesOut = Some (p'', Inr [NewAmount (BaseAsset p) b, NewAmount (QuoteAsset p) q])"
    "pro_rata (?B + ?a) (uint s) (uint (AmountShares p')) (uint b)"
    "pro_rata (?Q + uint q\<^sub>1) (uint s) (uint (AmountShares p')) (uint q)"
    "p'' = p'\<lparr>AmountShares := AmountShares p' - s, AmountBase := AmountBase p' - b,
       AmountQuote := AmountQuote p' - q, Pool_Sequence := Pool_Sequence p' + 1\<rparr>"
    unfolding add(6,7) by auto
  have t: "0 < uint (AmountShares p')" "uint (AmountShares p') - uint s = ?S" using add(5) pos uint_ge_0 [of s] by linarith+
  note pair = pro_rata_pair [OF add(4,3) pos(1-3)]
  have near: "\<bar>uint b - ?a\<bar> \<le> (?B - 1) div uint (AmountShares p') + 1"
    "\<bar>uint q - uint q\<^sub>1\<bar> \<le> (?S + ?Q - 1) div uint (AmountShares p') + 1"
    using pro_rata_back [OF rem(2) t(1)] pro_rata_back [OF rem(3) t(1)] pair(1,2) unfolding t(2) by auto
  have exact: "b = Amount_Amount a \<and> q = q\<^sub>1 \<and> p'' = p\<lparr>Pool_Sequence := Pool_Sequence p + 2\<rparr>"
    if d: "?B dvd ?S * ?a" "?B dvd ?Q * ?a"
  proof -
    have bq: "b = Amount_Amount a" "q = q\<^sub>1"
      using pro_rata_back_exact [OF rem(2) t(1)] pro_rata_back_exact [OF rem(3) t(1)] pair(3,4) d
      unfolding t(2) by (auto simp: word_uint_eq_iff [of b] word_uint_eq_iff [of q])
    have "AmountShares p' - s = AmountShares p" "AmountBase p' - b = AmountBase p" "AmountQuote p' - q = AmountQuote p"
      using add(5-7) by (auto simp: bq intro!: word_diff_eq)
    then show ?thesis using bq rem(4) add(8) AddLiquidity_frame [OF assms(11)] by simp
  qed
  show ?thesis using rem(1) near exact by (auto simp: add(1) NewAmount_def)
qed

theorem liquidity_roundtrip_witness:
  "\<exists>p'. AddLiquidity FFin product_pool (NewAmount ''A'' 10) = Some (p', Inr (NewAmount ''B'' 20, NewAmount ''A-B'' 3))
    \<and> RemoveLiquidity p' (NewAmount ''A-B'' 3)
        = Some (product_pool\<lparr>Pool_Sequence := 9\<rparr>, Inr [NewAmount ''A'' 10, NewAmount ''B'' 20])"
proof -
  let ?a = "NewAmount ''A'' 10" and ?r = "(NewAmount ''B'' 20, NewAmount ''A-B'' 3)"
  have "map_option snd (AddLiquidity FFin product_pool ?a) = Some (Inr ?r)"
    by code_simp
  then obtain p' where add: "AddLiquidity FFin product_pool ?a = Some (p', Inr ?r)" by auto
  have w: "PoolID product_pool \<noteq> ''''" "BaseAsset product_pool \<noteq> ''''" "Amount_AssetID ?a = BaseAsset product_pool"
    "0 < Amount_Amount ?a" "0 < AmountBase product_pool" "0 < AmountShares product_pool"
    "uint (AmountShares product_pool) < 2 ^ 53" "uint (AmountBase product_pool) + uint (Amount_Amount ?a) < 2 ^ 53"
    "uint (AmountQuote product_pool) + uint (AmountQuote product_pool) * uint (Amount_Amount ?a) div uint (AmountBase product_pool) + 1 < 2 ^ 53"
    "uint (AmountShares product_pool) * uint (Amount_Amount ?a) div uint (AmountBase product_pool) < 2 ^ 53"
    "0 < Amount_Amount (NewAmount ''A-B'' 3)"
    by (simp_all add: product_pool_def NewAmount_def)
  show ?thesis
    using liquidity_roundtrip [OF w(1-10) add w(11)] add
    by (auto simp: product_pool_def NewAmount_def)
qed
end
