(* ===== verification/Tracking.thy ===== *)
theory Tracking
  imports Balances
begin

text \<open>
  The change tracking that positions and the module share (\<open>Init\<close>, \<open>IsModified\<close>, \<open>NextSequence\<close>,
  \<open>UpdateSequence\<close>, \<open>Snapshot\<close>): an object remembers the JSON text and the sequence number of its
  exported fields as they were when it was initialised.

  The locale \<open>tracked\<close> states what \<open>Init\<close> and the readers promise; the component theories
  interpret it on their own definitions, with the JSON library as the parameter \<open>marshal\<close>
  (\<open>None\<close> for an error), and take the lemmas from it.
\<close>

text \<open>The text of \<open>j, _ := json.Marshal(p); string(j)\<close>.\<close>

definition json_text :: "('f \<Rightarrow> string option) \<Rightarrow> 'f \<Rightarrow> string" where
  "json_text marshal f = (case marshal f of None \<Rightarrow> '''' | Some j \<Rightarrow> j)"

text \<open>A nil \<open>*Balances\<close> is replaced by an empty one.\<close>

definition non_nil :: "Balances option \<Rightarrow> Balances option" where
  "non_nil b = (case b of None \<Rightarrow> Some EmptyBalances | Some b \<Rightarrow> Some b)"

lemma non_nil_not_None [simp]: "non_nil b \<noteq> None"
  by (simp add: non_nil_def split: option.splits)

lemma non_nil_ex [simp]: "\<exists>y. non_nil b = Some y"
  by (simp add: non_nil_def split: option.splits)

lemma non_nil_Some [simp]: "non_nil (Some b) = Some b"
  by (simp add: non_nil_def)

lemma non_nil_idem [simp]: "non_nil (non_nil b) = non_nil b"
  by (simp add: non_nil_def split: option.splits)

lemma non_nil_eq_Some: "non_nil x = Some b \<longleftrightarrow> x = Some b \<or> x = None \<and> b = EmptyBalances"
  by (auto simp: non_nil_def split: option.splits)

text \<open>Validation of one field, with the error wrapped.\<close>

definition validate_field :: "Balances option \<Rightarrow> bool \<Rightarrow> string \<Rightarrow> error option" where
  "validate_field b allowNegative what =
     (case b of None \<Rightarrow> None
      | Some b \<Rightarrow> (case Balances_Validate b allowNegative of None \<Rightarrow> None
        | Some e \<Rightarrow> Some (Wrap InvalidInputError e what)))"

definition valid_balances :: "bool \<Rightarrow> Balances \<Rightarrow> bool" where
  "valid_balances neg b = (Balances_Validate b neg = None)"

lemma valid_EmptyBalances [simp]: "valid_balances neg EmptyBalances"
  by (simp add: valid_balances_def Balances_Validate_def EmptyBalances_def mkBals_def entries_def)

lemma validate_field_None:
  "validate_field b neg what = None \<longleftrightarrow> (case b of None \<Rightarrow> True | Some b \<Rightarrow> valid_balances neg b)"
  by (auto simp: validate_field_def valid_balances_def split: option.splits)

locale tracked =
  fixes fields :: "'p \<Rightarrow> 'f"
    and orig :: "'p \<Rightarrow> string"
    and oseq :: "'p \<Rightarrow> uint64"
    and seq :: "'f \<Rightarrow> uint64"
    and marshal :: "'f \<Rightarrow> string option"
    and init :: "'p \<Rightarrow> 'p"
    and is_modified :: "'p \<Rightarrow> bool"
    and next_seq :: "'p \<Rightarrow> uint64"
  assumes init_fresh: "orig p = '''' \<Longrightarrow> marshal (fields (init p)) = Some j \<Longrightarrow>
      orig (init p) = j \<and> oseq (init p) = seq (fields (init p))"
    and init_error: "orig p = '''' \<Longrightarrow> marshal (fields (init p)) = None \<Longrightarrow>
      orig (init p) = '''' \<and> oseq (init p) = oseq p"
    and init_kept: "orig p \<noteq> '''' \<Longrightarrow> orig (init p) = orig p \<and> oseq (init p) = oseq p"
    and modified_iff: "is_modified p \<longleftrightarrow> orig p \<noteq> json_text marshal (fields p)"
    and next_seq: "next_seq p = oseq p + 1"
begin

lemma init_not_modified: "orig p = '''' \<Longrightarrow> \<not> is_modified (init p)"
  using init_fresh [of p] init_error [of p]
  by (cases "marshal (fields (init p))") (auto simp: modified_iff json_text_def)

lemma init_next: "orig p = '''' \<Longrightarrow> marshal (fields (init p)) \<noteq> None \<Longrightarrow>
    next_seq (init p) = seq (fields (init p)) + 1"
  using init_fresh [of p] by (auto simp: next_seq)

lemma modified_after_init:
  assumes "orig p = ''''" "marshal (fields (init p)) \<noteq> None" "orig q = orig (init p)"
  shows "is_modified q \<longleftrightarrow> json_text marshal (fields q) \<noteq> json_text marshal (fields (init p))"
  using assms init_fresh [of p] by (auto simp: modified_iff json_text_def)

end

end
