(* ===== verification/Position.thy ===== *)
theory Position
  imports Tracking
begin

text \<open>
  \<open>src/ledger/types/position.go\<close>: a user's position. The exported fields are the record
  \<open>PositionFields\<close>; \<open>Position\<close> adds the two internal ones. \<open>marshal\<close> and \<open>unmarshal\<close> stand for the
  JSON library on the exported fields: \<open>unmarshal j f\<close> decodes \<open>j\<close> over \<open>f\<close> and may change it even
  when it reports an error.
\<close>

record PositionFields =
  UserID :: string
  Owned :: "Balances option"
  Locked :: "Balances option"
  Supplied :: "Balances option"
  SSEQ :: "Balances option"
  Inactive :: "Balances option"
  InterestSources :: "Balances option"
  NativeAsset :: string
  LastUpdated :: int64
  Sequence :: uint64

record Position = PositionFields +
  original :: string
  originalSequence :: uint64

type_synonym pos_marshal = "PositionFields \<Rightarrow> string option"
type_synonym pos_unmarshal = "string \<Rightarrow> PositionFields \<Rightarrow> error option \<times> PositionFields"

abbreviation pos_fields :: "Position \<Rightarrow> PositionFields" where
  "pos_fields p \<equiv> PositionFields.truncate p"

definition with_fields :: "PositionFields \<Rightarrow> string \<Rightarrow> uint64 \<Rightarrow> Position" where
  "with_fields f orig oseq = PositionFields.extend f (Position.fields orig oseq)"

text \<open>The zero value of the exported fields.\<close>

definition zero_fields :: PositionFields where
  "zero_fields = \<lparr>UserID = '''', Owned = None, Locked = None, Supplied = None, SSEQ = None,
     Inactive = None, InterestSources = None, NativeAsset = '''', LastUpdated = 0, Sequence = 0\<rparr>"

definition Position_Init :: "pos_marshal \<Rightarrow> Position \<Rightarrow> Position" where
  "Position_Init marshal p =
     (let p = p\<lparr>Owned := non_nil (Owned p)\<rparr>;
          p = p\<lparr>Locked := non_nil (Locked p)\<rparr>;
          p = p\<lparr>Supplied := non_nil (Supplied p)\<rparr>;
          p = p\<lparr>SSEQ := non_nil (SSEQ p)\<rparr>;
          p = p\<lparr>Inactive := non_nil (Inactive p)\<rparr>;
          p = p\<lparr>InterestSources := non_nil (InterestSources p)\<rparr>
      in if original p = ''''
         then (case marshal (pos_fields p) of None \<Rightarrow> p
               | Some j \<Rightarrow> p\<lparr>original := j, originalSequence := Sequence p\<rparr>)
         else p)"

definition Position_MarshalBinary :: "pos_marshal \<Rightarrow> Position \<Rightarrow> string option" where
  "Position_MarshalBinary marshal p = marshal (pos_fields p)"

definition Position_UnmarshalBinary ::
  "pos_marshal \<Rightarrow> pos_unmarshal \<Rightarrow> string \<Rightarrow> Position \<Rightarrow> error option \<times> Position" where
  "Position_UnmarshalBinary marshal unmarshal data p =
     (let (err, f) = unmarshal data (pos_fields p)
      in (err, Position_Init marshal (with_fields f (original p) (originalSequence p))))"

definition InitialPosition :: "pos_marshal \<Rightarrow> string \<Rightarrow> Position" where
  "InitialPosition marshal userID =
     Position_Init marshal (with_fields (zero_fields\<lparr>UserID := userID, NativeAsset := '''', Sequence := 0, LastUpdated := 0\<rparr>) '''' 0)"

definition Position_Validate :: "Position \<Rightarrow> error option" where
  "Position_Validate p =
     (if UserID p = '''' then Some (Data ''empty user ID in Position'')
      else if Owned p = None \<or> Locked p = None \<or> Supplied p = None \<or> SSEQ p = None \<or> Inactive p = None
        \<or> InterestSources p = None then Some (Data ''nil Balances in Position'')
      else case validate_field (Owned p) True ''position Owned'' of Some e \<Rightarrow> Some e | None \<Rightarrow>
        (case validate_field (Locked p) False ''position Locked'' of Some e \<Rightarrow> Some e | None \<Rightarrow>
        (case validate_field (Supplied p) False ''position Supplied'' of Some e \<Rightarrow> Some e | None \<Rightarrow>
        (case validate_field (SSEQ p) True ''position SSEQ'' of Some e \<Rightarrow> Some e | None \<Rightarrow>
        (case validate_field (InterestSources p) True ''position Interest Sources'' of Some e \<Rightarrow> Some e | None \<Rightarrow>
        (case validate_field (Inactive p) True ''position Inactive'' of Some e \<Rightarrow> Some e | None \<Rightarrow>
         if ValidAssetID (NativeAsset p) \<noteq> None \<and> NativeAsset p \<noteq> '''' then ValidAssetID (NativeAsset p)
         else if original p = '''' then Some (NewInternal ''position not initialized'')
         else None))))))"

definition NewPosition ::
  "pos_marshal \<Rightarrow> string \<Rightarrow> Balances option \<Rightarrow> Balances option \<Rightarrow> Balances option \<Rightarrow> Balances option
     \<Rightarrow> Balances option \<Rightarrow> Balances option \<Rightarrow> string \<Rightarrow> int64 \<Rightarrow> uint64 \<Rightarrow> Position \<times> error option" where
  "NewPosition marshal userID owned locked supplied sseq inactive interestSources nativeAsset lastUpdated sequence =
     (let p = with_fields \<lparr>UserID = userID, Owned = owned, Locked = locked, Supplied = supplied, SSEQ = sseq,
            Inactive = inactive, InterestSources = interestSources, NativeAsset = nativeAsset,
            LastUpdated = lastUpdated, Sequence = sequence\<rparr> '''' 0;
          p = Position_Init marshal p
      in (p, Position_Validate p))"

definition Position_jsonString :: "pos_marshal \<Rightarrow> Position \<Rightarrow> string" where
  "Position_jsonString marshal p = json_text marshal (pos_fields p)"

definition Position_Original :: "Position \<Rightarrow> string" where
  "Position_Original p = original p"

definition Position_IsModified :: "pos_marshal \<Rightarrow> Position \<Rightarrow> bool" where
  "Position_IsModified marshal p = (original p \<noteq> Position_jsonString marshal p)"

definition Position_NextSequence :: "Position \<Rightarrow> uint64" where
  "Position_NextSequence p = originalSequence p + 1"

definition UpdateSequence :: "pos_marshal \<Rightarrow> Position \<Rightarrow> Position" where
  "UpdateSequence marshal p =
     (if Position_IsModified marshal p then p\<lparr>Sequence := Position_NextSequence p\<rparr> else p)"

text \<open>\<open>String\<close> updates the sequence number of its receiver.\<close>

definition Position_String :: "pos_marshal \<Rightarrow> Position \<Rightarrow> string \<times> Position" where
  "Position_String marshal p =
     (let p = UpdateSequence marshal p in (Position_jsonString marshal p, p))"

definition Position_Copy :: "pos_marshal \<Rightarrow> pos_unmarshal \<Rightarrow> Position \<Rightarrow> Position" where
  "Position_Copy marshal unmarshal p =
     (let j = json_text marshal (pos_fields p);
          (_, f) = unmarshal j zero_fields
      in with_fields f (original p) (originalSequence p))"

definition Position_Snapshot :: "pos_marshal \<Rightarrow> pos_unmarshal \<Rightarrow> Position \<Rightarrow> Position" where
  "Position_Snapshot marshal unmarshal p =
     (let j = json_text marshal (pos_fields p);
          (_, f) = unmarshal j zero_fields
      in Position_Init marshal (with_fields f '''' 0))"

section \<open>Tracking of changes\<close>

lemma with_fields_simps [simp]:
  "pos_fields (with_fields f o' s) = f" "original (with_fields f o' s) = o'"
  "originalSequence (with_fields f o' s) = s"
  by (simp_all add: with_fields_def PositionFields.defs Position.defs)

lemma with_fields_eta [simp]: "with_fields (pos_fields p) (original p) (originalSequence p) = p"
  by (simp add: with_fields_def PositionFields.defs Position.defs)

lemma pos_fields_select [simp]:
  "UserID (pos_fields p) = UserID p" "Sequence (pos_fields p) = Sequence p"
  "Owned (pos_fields p) = Owned p" "Locked (pos_fields p) = Locked p" "Supplied (pos_fields p) = Supplied p"
  "SSEQ (pos_fields p) = SSEQ p" "Inactive (pos_fields p) = Inactive p"
  "InterestSources (pos_fields p) = InterestSources p" "NativeAsset (pos_fields p) = NativeAsset p"
  "LastUpdated (pos_fields p) = LastUpdated p"
  by (simp_all add: PositionFields.defs)

text \<open>What \<open>Init\<close> leaves of the exported fields.\<close>

definition fill :: "PositionFields \<Rightarrow> PositionFields" where
  "fill f = f\<lparr>Owned := non_nil (Owned f), Locked := non_nil (Locked f), Supplied := non_nil (Supplied f),
     SSEQ := non_nil (SSEQ f), Inactive := non_nil (Inactive f), InterestSources := non_nil (InterestSources f)\<rparr>"

lemma Init_fields [simp]: "pos_fields (Position_Init marshal p) = fill (pos_fields p)"
  by (simp add: Position_Init_def fill_def PositionFields.defs Let_def split: option.splits)

lemma Init_original:
  "original (Position_Init marshal p) =
     (if original p = '''' then json_text marshal (fill (pos_fields p)) else original p)"
  "originalSequence (Position_Init marshal p) =
     (if original p = '''' \<and> marshal (fill (pos_fields p)) \<noteq> None then Sequence p else originalSequence p)"
  by (simp_all add: Position_Init_def json_text_def fill_def PositionFields.defs Let_def split: option.splits)

interpretation pos: tracked pos_fields original originalSequence PositionFields.Sequence marshal
  "Position_Init marshal" "Position_IsModified marshal" Position_NextSequence for marshal
  by unfold_locales
    (auto simp: Init_original json_text_def Position_IsModified_def Position_jsonString_def
      Position_NextSequence_def fill_def)

lemma Init_idem_fields: "fill (fill f) = fill f"
  by (simp add: fill_def)

lemma UpdateSequence_fields:
  "pos_fields (UpdateSequence marshal p) =
     (if Position_IsModified marshal p then (pos_fields p)\<lparr>Sequence := originalSequence p + 1\<rparr> else pos_fields p)"
  "original (UpdateSequence marshal p) = original p"
  "originalSequence (UpdateSequence marshal p) = originalSequence p"
  by (simp_all add: UpdateSequence_def Position_NextSequence_def PositionFields.defs)

text \<open>
  C32: the sequence number tracks changes: a position is unmodified right after \<open>Init\<close>, and for any
  change of its exported fields to \<open>f\<close>, \<open>UpdateSequence\<close> raises the number to the one after the
  original exactly when the JSON text has changed, and a second call changes nothing. So the number
  increases once per initialisation, whatever the number of changes and of calls.
\<close>

theorem UpdateSequence_once:
  assumes "original p = ''''" "marshal (fill (pos_fields p)) \<noteq> None"
  shows "\<not> Position_IsModified marshal (Position_Init marshal p)
    \<and> (let q = with_fields f (original (Position_Init marshal p)) (originalSequence (Position_Init marshal p));
           q' = UpdateSequence marshal q
       in Sequence q' = (if json_text marshal f = json_text marshal (fill (pos_fields p)) then Sequence f
            else Sequence p + 1)
          \<and> UpdateSequence marshal q' = q')"
proof -
  have "UpdateSequence marshal (UpdateSequence marshal q) = UpdateSequence marshal q" for q
    by (auto simp: UpdateSequence_def Position_NextSequence_def)
  moreover have "Sequence (UpdateSequence marshal q) = Sequence (pos_fields (UpdateSequence marshal q))" for q
    by simp
  ultimately show ?thesis
    using pos.init_not_modified [OF assms(1), of marshal] assms
    by (simp add: Let_def UpdateSequence_fields Position_IsModified_def Position_jsonString_def Init_original)
qed

theorem UpdateSequence_once_witness:
  "Sequence (UpdateSequence (\<lambda>f. Some (UserID f @ NativeAsset f @ FormatUint (Sequence f)))
     (with_fields (zero_fields\<lparr>NativeAsset := ''USD'', Sequence := 4\<rparr>) ''4'' 4)) = 5"
proof -
  let ?m = "\<lambda>f. Some (UserID f @ NativeAsset f @ FormatUint (Sequence f))"
  let ?p = "with_fields (zero_fields\<lparr>Sequence := 4\<rparr>) '''' 0"
  have n: "FormatUint 4 = ''4''" by code_simp
  have w: "original ?p = ''''" "?m (fill (pos_fields ?p)) \<noteq> None" by simp_all
  show ?thesis
    using UpdateSequence_once [where marshal = ?m, OF w, of "zero_fields\<lparr>NativeAsset := ''USD'', Sequence := 4\<rparr>"]
    by (simp add: Init_original json_text_def Let_def fill_def zero_fields_def n with_fields_def
        PositionFields.defs Position.defs)
qed

definition opt_valid :: "bool \<Rightarrow> Balances option \<Rightarrow> bool" where
  "opt_valid neg b = (case b of None \<Rightarrow> True | Some b \<Rightarrow> valid_balances neg b)"

lemma validate_non_nil: "validate_field (non_nil b) neg what = None \<longleftrightarrow> opt_valid neg b"
  by (cases b) (simp_all add: validate_field_None opt_valid_def non_nil_def)

lemma or_else_None: "(case a of None \<Rightarrow> b | Some e \<Rightarrow> Some e) = None \<longleftrightarrow> a = None \<and> b = None"
  by (cases a) simp_all

lemma Position_Validate_None:
  "Position_Validate p = None \<longleftrightarrow>
     UserID p \<noteq> '''' \<and> (\<forall>b \<in> {Owned p, Locked p, Supplied p, SSEQ p, Inactive p, InterestSources p}. b \<noteq> None)
     \<and> opt_valid True (Owned p) \<and> opt_valid False (Locked p) \<and> opt_valid False (Supplied p)
     \<and> opt_valid True (SSEQ p) \<and> opt_valid True (InterestSources p) \<and> opt_valid True (Inactive p)
     \<and> (NativeAsset p = '''' \<or> ValidAssetID (NativeAsset p) = None) \<and> original p \<noteq> ''''"
  by (simp add: Position_Validate_def or_else_None validate_field_None opt_valid_def del: not_None_eq)

text \<open>
  \<open>NewPosition\<close> accepts exactly the positions with a user, whose balances (nil ones read as empty)
  are valid in every field, non-negative where only assets can be held, whose native asset is a valid
  asset ID or not set, and whose fields can be written as JSON; the position it returns is unmodified,
  and its next sequence number is the one after the number given.
\<close>

theorem NewPosition_valid_iff:
  assumes "\<And>f. marshal f \<noteq> Some ''''"
  shows "case NewPosition marshal user owned locked supplied sseq inactive sources native updated seqn of
    (p, err) \<Rightarrow>
      (err = None \<longleftrightarrow> user \<noteq> '''' \<and> opt_valid True owned \<and> opt_valid False locked \<and> opt_valid False supplied
        \<and> opt_valid True sseq \<and> opt_valid True inactive \<and> opt_valid True sources
        \<and> (native = '''' \<or> ValidAssetID native = None) \<and> marshal (pos_fields p) \<noteq> None)
      \<and> \<not> Position_IsModified marshal p
      \<and> (err = None \<longrightarrow> Position_NextSequence p = seqn + 1 \<and> UserID p = user \<and> NativeAsset p = native
          \<and> Owned p = non_nil owned \<and> Locked p = non_nil locked \<and> Supplied p = non_nil supplied)"
proof -
  let ?f = "\<lparr>UserID = user, Owned = owned, Locked = locked, Supplied = supplied, SSEQ = sseq,
     Inactive = inactive, InterestSources = sources, NativeAsset = native, LastUpdated = updated, Sequence = seqn\<rparr>"
  let ?i = "with_fields ?f '''' 0"
  let ?p = "Position_Init marshal ?i"
  have sel: "x (pos_fields ?p) = x (fill ?f)" for x :: "PositionFields \<Rightarrow> 'a" by simp
  have v: "opt_valid neg (non_nil b) = opt_valid neg b" for neg b
    by (cases b) (simp_all add: opt_valid_def non_nil_def)
  have orig: "original ?p \<noteq> '''' \<longleftrightarrow> marshal (pos_fields ?p) \<noteq> None"
    using assms [of "fill ?f"] by (auto simp: Init_original json_text_def split: option.splits)
  have F: "UserID ?p = user" "Owned ?p = non_nil owned" "Locked ?p = non_nil locked" "Supplied ?p = non_nil supplied"
    "SSEQ ?p = non_nil sseq" "Inactive ?p = non_nil inactive" "InterestSources ?p = non_nil sources" "NativeAsset ?p = native"
    by (simp_all add: pos_fields_select [symmetric] fill_def del: pos_fields_select)
  have next_seq: "Position_NextSequence ?p = seqn + 1" if "marshal (pos_fields ?p) \<noteq> None"
    using pos.init_next [of ?i marshal] that by (simp add: fill_def)
  have new: "NewPosition marshal user owned locked supplied sseq inactive sources native updated seqn
      = (?p, Position_Validate ?p)"
    by (simp only: NewPosition_def Let_def)
  have valid: "Position_Validate ?p = None \<longleftrightarrow> user \<noteq> '''' \<and> opt_valid True owned \<and> opt_valid False locked
      \<and> opt_valid False supplied \<and> opt_valid True sseq \<and> opt_valid True inactive \<and> opt_valid True sources
      \<and> (native = '''' \<or> ValidAssetID native = None) \<and> marshal (pos_fields ?p) \<noteq> None"
    unfolding Position_Validate_None F v orig by (auto simp del: with_fields_simps Init_fields)
  have "\<not> Position_IsModified marshal ?p" using pos.init_not_modified [of ?i marshal] by simp
  with next_seq valid F show ?thesis unfolding new prod.case by blast
qed

theorem NewPosition_valid_iff_witness:
  "snd (NewPosition (\<lambda>f. Some ''{}'') ''u1'' None None None None None None '''' 0 3) = None"
  using NewPosition_valid_iff [where marshal = "\<lambda>f. Some ''{}''" and user = "''u1''" and owned = None
      and locked = None and supplied = None and sseq = None and inactive = None and sources = None
      and native = "''''" and updated = 0 and seqn = 3]
  by (simp add: opt_valid_def split: prod.splits)

text \<open>
  \<open>Copy\<close> keeps the tracking state, so a copy is modified exactly when the original is, as long as
  decoding the JSON text and encoding it again gives the same text; \<open>Snapshot\<close> always starts a new
  unmodified state, whatever the decoding does.
\<close>

theorem Copy_keeps_Snapshot_resets:
  assumes "unmarshal (json_text marshal (pos_fields p)) zero_fields = (e, f)"
    and "json_text marshal f = json_text marshal (pos_fields p)"
  shows "(let c = Position_Copy marshal unmarshal p in
       original c = original p \<and> Position_NextSequence c = Position_NextSequence p
       \<and> Position_IsModified marshal c = Position_IsModified marshal p \<and> Position_jsonString marshal c = Position_jsonString marshal p)
    \<and> \<not> Position_IsModified marshal (Position_Snapshot marshal unmarshal p)"
  using assms pos.init_not_modified [of "with_fields f '''' 0" marshal]
  by (simp add: Position_Copy_def Position_Snapshot_def Let_def Position_IsModified_def
      Position_jsonString_def Position_NextSequence_def)

theorem Copy_keeps_Snapshot_resets_witness:
  "\<not> Position_IsModified (\<lambda>f. Some (UserID f))
     (Position_Snapshot (\<lambda>f. Some (UserID f)) (\<lambda>j f. (None, f\<lparr>UserID := j\<rparr>)) (with_fields (zero_fields\<lparr>UserID := ''u''\<rparr>) ''x'' 0))"
  using Copy_keeps_Snapshot_resets [of "\<lambda>j f. (None, f\<lparr>UserID := j\<rparr>)" "\<lambda>f. Some (UserID f)"
      "with_fields (zero_fields\<lparr>UserID := ''u''\<rparr>) ''x'' 0" None "zero_fields\<lparr>UserID := ''u''\<rparr>"]
  by (simp add: json_text_def zero_fields_def)

end
