(* ===== verification/AssetData.thy ===== *)
theory AssetData
  imports Position
begin

text \<open>
  \<open>src/helpers/asset.go\<close>, and the dates it reads with \<open>src/math/date.go\<close>: the attributes and prices of
  the assets, the coupon periods, and the dollar values of a position. A map field is \<open>None\<close> before
  \<open>Init\<close>. The date syntax of package \<open>time\<close> is the parameter \<open>parseDate\<close> (RFC 1123 to unix seconds,
  or the text of the error). An outer option is \<open>None\<close> where the code panics.
\<close>

definition UnixFromDate :: "(string \<Rightarrow> string + int64) \<Rightarrow> string \<Rightarrow> error + int64" where
  "UnixFromDate parseDate date = (case parseDate date of
     Inl msg \<Rightarrow> Inl (ErrorString (date @ '' is not a valid RFC1123 time: '' @ msg))
   | Inr t \<Rightarrow> Inr t)"

definition DateFromUnix :: "(int64 \<Rightarrow> string) \<Rightarrow> int64 \<Rightarrow> string" where
  "DateFromUnix formatDate unixSeconds = formatDate unixSeconds"

text \<open>\<open>math.Pow10\<close>: products and quotients of two table entries.\<close>

definition Pow10 :: "int64 \<Rightarrow> gofloat" where
  "Pow10 n = (let k = sint n
     in if 0 \<le> k \<and> k \<le> 308 then f64_mul (F64 (10 ^ nat (k div 32 * 32))) (F64 (10 ^ nat (k mod 32)))
        else if - 323 \<le> k \<and> k \<le> 0 then f64_div (F64 (1 / 10 ^ nat (- k div 32 * 32))) (F64 (10 ^ nat (- k mod 32)))
        else if k > 0 then FInf False else FZero False)"

record Coupon =
  Coupon_Date :: string
  Coupon_Start :: string
  Yield :: gofloat
  IsMaturity :: bool

record AssetData =
  ad_decimals :: "(string, int64) gomap option"
  ad_collateralWeights :: "(string, gofloat) gomap option"
  ad_liquidationThresholds :: "(string, gofloat) gomap option"
  ad_isCurrency :: "(string, bool) gomap option"
  ad_isBond :: "(string, bool) gomap option"
  ad_canTrade :: "(string, bool) gomap option"
  ad_canBorrow :: "(string, bool) gomap option"
  ad_isVirtualBorrow :: "(string, bool) gomap option"
  ad_isInterest :: "(string, bool) gomap option"
  ad_coupons :: "(string, Coupon list) gomap option"
  ad_prices :: "(string, gofloat) gomap option"
  ad_initialized :: bool

definition zeroAssetData :: AssetData where
  "zeroAssetData = \<lparr>ad_decimals = None, ad_collateralWeights = None, ad_liquidationThresholds = None,
     ad_isCurrency = None, ad_isBond = None, ad_canTrade = None, ad_canBorrow = None,
     ad_isVirtualBorrow = None, ad_isInterest = None, ad_coupons = None, ad_prices = None,
     ad_initialized = False\<rparr>"

text \<open>Reading a nil map gives nothing; writing one would panic, and \<open>Init\<close> comes first.\<close>

definition mlookup :: "('k, 'v) gomap option \<Rightarrow> 'k \<Rightarrow> 'v option" where
  "mlookup m k = (case m of None \<Rightarrow> None | Some m \<Rightarrow> map_of m k)"

definition mstore :: "'k \<Rightarrow> 'v \<Rightarrow> ('k, 'v) gomap option \<Rightarrow> ('k, 'v) gomap option" where
  "mstore k v m = map_option (mput k v) m"

definition AssetData_Init :: "AssetData \<Rightarrow> AssetData" where
  "AssetData_Init ad =
     (if \<not> ad_initialized ad
      then \<lparr>ad_decimals = Some [], ad_collateralWeights = Some [], ad_liquidationThresholds = Some [],
        ad_isCurrency = Some [], ad_isBond = Some [], ad_canTrade = Some [], ad_canBorrow = Some [],
        ad_isVirtualBorrow = Some [], ad_isInterest = Some [], ad_coupons = Some [], ad_prices = Some [],
        ad_initialized = True\<rparr>
      else ad)"

text \<open>\<open>math.IsNaN(x) || math.IsInf(x, 0) || x < 0\<close>\<close>

definition bad_float :: "gofloat \<Rightarrow> bool" where
  "bad_float x = (x = FNaN \<or> x = FInf True \<or> x = FInf False \<or> flt x (FZero False))"

definition positive_float :: "gofloat \<Rightarrow> bool" where
  "positive_float x = flt (FZero False) x"

definition RegisterAsset ::
  "AssetData \<Rightarrow> string \<Rightarrow> int64 \<Rightarrow> gofloat \<Rightarrow> gofloat \<Rightarrow> bool \<Rightarrow> bool \<Rightarrow> bool \<Rightarrow> bool \<Rightarrow> bool \<Rightarrow> bool
     \<Rightarrow> Coupon option list \<Rightarrow> AssetData \<times> error option" where
  "RegisterAsset ad aid decimals collateralWeight liquidationThreshold isCurrency isBond canTrade
       canBorrow isVirtualBorrow isInterest coupons =
     (let ad = AssetData_Init ad
      in if aid = '''' then (ad, Some (ErrorString ''empty asset ID''))
      else if bad_float collateralWeight then (ad, Some (ErrorString ''invalid collateral weight''))
      else if bad_float liquidationThreshold then (ad, Some (ErrorString ''invalid liquidation threshold''))
      else if decimals <s 0 then (ad, Some (ErrorString ''invalid exponent''))
      else if isVirtualBorrow \<and> \<not> canBorrow
        then (ad, Some (ErrorString ''asset with isVirtualBorrow but without canBorrow is not valid''))
      else
        (ad\<lparr>ad_decimals := mstore aid decimals (ad_decimals ad),
           ad_collateralWeights := mstore aid collateralWeight (ad_collateralWeights ad),
           ad_liquidationThresholds := mstore aid liquidationThreshold (ad_liquidationThresholds ad),
           ad_isCurrency := mstore aid isCurrency (ad_isCurrency ad),
           ad_isBond := mstore aid isBond (ad_isBond ad),
           ad_canTrade := mstore aid canTrade (ad_canTrade ad),
           ad_canBorrow := mstore aid canBorrow (ad_canBorrow ad),
           ad_isVirtualBorrow := mstore aid isVirtualBorrow (ad_isVirtualBorrow ad),
           ad_isInterest := mstore aid isInterest (ad_isInterest ad),
           ad_coupons := mstore aid
             (concat (map (\<lambda>c. case c of None \<Rightarrow> [] | Some c \<Rightarrow> if positive_float (Yield c) then [c] else []) coupons))
             (ad_coupons ad)\<rparr>, None))"

definition UpdatePrice :: "AssetData \<Rightarrow> string \<Rightarrow> gofloat \<Rightarrow> AssetData \<times> error option" where
  "UpdatePrice ad aid price =
     (let ad = AssetData_Init ad
      in if aid = '''' then (ad, Some (ErrorString ''empty asset ID''))
         else if bad_float price then (ad, Some (ErrorString ''invalid price''))
         else (ad\<lparr>ad_prices := mstore aid price (ad_prices ad)\<rparr>, None))"

section \<open>Readers\<close>

definition AssetData_IDs :: "AssetData \<Rightarrow> string list" where
  "AssetData_IDs ad = (case ad_decimals ad of None \<Rightarrow> [] | Some m \<Rightarrow> mkeys m)"

definition AssetData_Has :: "AssetData \<Rightarrow> string \<Rightarrow> bool" where
  "AssetData_Has ad assetID = (mlookup (ad_decimals ad) assetID \<noteq> None)"

definition not_found :: "string \<Rightarrow> error" where
  "not_found assetID = ErrorString (''asset '' @ assetID @ '' not found'')"

definition Decimals :: "AssetData \<Rightarrow> string \<Rightarrow> error + int64" where
  "Decimals ad assetID = (case mlookup (ad_decimals ad) assetID of
     None \<Rightarrow> Inl (not_found assetID) | Some d \<Rightarrow> Inr d)"

definition flag :: "(string, bool) gomap option \<Rightarrow> string \<Rightarrow> bool" where
  "flag m assetID = (mlookup m assetID = Some True)"

definition IsCurrency :: "AssetData \<Rightarrow> string \<Rightarrow> bool" where
  "IsCurrency ad assetID = flag (ad_isCurrency ad) assetID"
definition IsBond :: "AssetData \<Rightarrow> string \<Rightarrow> bool" where
  "IsBond ad assetID = flag (ad_isBond ad) assetID"
definition IsInterest :: "AssetData \<Rightarrow> string \<Rightarrow> bool" where
  "IsInterest ad assetID = flag (ad_isInterest ad) assetID"
definition CanBorrow :: "AssetData \<Rightarrow> string \<Rightarrow> bool" where
  "CanBorrow ad assetID = flag (ad_canBorrow ad) assetID"
definition CanTrade :: "AssetData \<Rightarrow> string \<Rightarrow> bool" where
  "CanTrade ad assetID = flag (ad_canTrade ad) assetID"
definition IsVirtualBorrow :: "AssetData \<Rightarrow> string \<Rightarrow> bool" where
  "IsVirtualBorrow ad assetID = flag (ad_isVirtualBorrow ad) assetID"

text \<open>\<open>HasCoupon\<close> does not look at its argument.\<close>

definition HasCoupon :: "AssetData \<Rightarrow> string \<Rightarrow> bool" where
  "HasCoupon ad assetID = (case ad_coupons ad of None \<Rightarrow> False | Some m \<Rightarrow> length m > 0)"

definition CollateralWeight :: "AssetData \<Rightarrow> string \<Rightarrow> error + gofloat" where
  "CollateralWeight ad assetID =
     (if ad_collateralWeights ad = None then Inl (ErrorString ''assetData not initialized'')
      else case mlookup (ad_collateralWeights ad) assetID of None \<Rightarrow> Inl (not_found assetID) | Some lt \<Rightarrow> Inr lt)"

definition LiquidationThreshold :: "AssetData \<Rightarrow> string \<Rightarrow> error + gofloat" where
  "LiquidationThreshold ad assetID =
     (if ad_liquidationThresholds ad = None then Inl (ErrorString ''assetData not initialized'')
      else case mlookup (ad_liquidationThresholds ad) assetID of None \<Rightarrow> Inl (not_found assetID) | Some lt \<Rightarrow> Inr lt)"

definition Price :: "AssetData \<Rightarrow> string \<Rightarrow> error + gofloat" where
  "Price ad assetID =
     (if ad_prices ad = None then Inl (ErrorString ''assetData not initialized'')
      else case mlookup (ad_prices ad) assetID of
        None \<Rightarrow> Inl (ErrorString (''price for '' @ assetID @ '' not found'')) | Some p \<Rightarrow> Inr p)"

section \<open>Coupon periods\<close>

definition coupons_of :: "AssetData \<Rightarrow> string \<Rightarrow> Coupon list" where
  "coupons_of ad assetID = (case mlookup (ad_coupons ad) assetID of None \<Rightarrow> [] | Some cs \<Rightarrow> cs)"

text \<open>A loop that keeps the elements passing a test and returns on the first error.\<close>

fun select_coupons :: "(string \<Rightarrow> string + int64) \<Rightarrow> (int64 \<Rightarrow> Coupon \<Rightarrow> bool) \<Rightarrow> Coupon list \<Rightarrow> error + Coupon list" where
  "select_coupons parseDate P [] = Inr []"
| "select_coupons parseDate P (c # cs) =
     (case UnixFromDate parseDate (Coupon_Date c) of Inl e \<Rightarrow> Inl e
      | Inr end' \<Rightarrow> (case select_coupons parseDate P cs of Inl e \<Rightarrow> Inl e
         | Inr r \<Rightarrow> Inr (if P end' c then c # r else r)))"

definition CouponEndingAt :: "(string \<Rightarrow> string + int64) \<Rightarrow> AssetData \<Rightarrow> string \<Rightarrow> int64 \<Rightarrow> error + Coupon" where
  "CouponEndingAt parseDate ad assetID time =
     (if ad_coupons ad = None then Inl (not_found assetID)
      else case select_coupons parseDate (\<lambda>end' c. end' = time \<and> positive_float (Yield c)) (coupons_of ad assetID) of
        Inl e \<Rightarrow> Inl e
      | Inr result \<Rightarrow>
          if length result = 0
          then Inl (ErrorString (''coupon period for '' @ assetID @ '' ending at '' @ FormatInt time @ '' not found''))
          else if length result \<noteq> 1
          then Inl (ErrorString (''multiple coupon periods for '' @ assetID @ '' ending at '' @ FormatInt time @ '' found''))
          else Inr (result ! 0))"

definition CouponsEndingInRange ::
  "(string \<Rightarrow> string + int64) \<Rightarrow> AssetData \<Rightarrow> string \<Rightarrow> int64 \<Rightarrow> int64 \<Rightarrow> error + Coupon list" where
  "CouponsEndingInRange parseDate ad assetID fromTime toTime =
     (if ad_coupons ad = None then Inl (not_found assetID)
      else select_coupons parseDate
        (\<lambda>end' c. fromTime <s end' \<and> end' \<le>s toTime \<and> positive_float (Yield c)) (coupons_of ad assetID))"

fun current_period :: "(string \<Rightarrow> string + int64) \<Rightarrow> int64 \<Rightarrow> Coupon list \<Rightarrow> error + int64 \<times> int64 \<times> gofloat" where
  "current_period parseDate now [] = Inr (0, 0, FZero False)"
| "current_period parseDate now (c # cs) =
     (if Coupon_Start c = '''' then current_period parseDate now cs
      else case UnixFromDate parseDate (Coupon_Start c) of Inl e \<Rightarrow> Inl e
      | Inr start \<Rightarrow> (case UnixFromDate parseDate (Coupon_Date c) of Inl e \<Rightarrow> Inl e
      | Inr end' \<Rightarrow> if start \<le>s now \<and> now <s end' then Inr (start, end', Yield c)
          else current_period parseDate now cs))"

definition CurrentCouponPeriod ::
  "(string \<Rightarrow> string + int64) \<Rightarrow> AssetData \<Rightarrow> string \<Rightarrow> int64 \<Rightarrow> error + int64 \<times> int64 \<times> gofloat" where
  "CurrentCouponPeriod parseDate ad assetID now =
     (if ad_coupons ad = None then Inl (not_found assetID)
      else case mlookup (ad_coupons ad) assetID of None \<Rightarrow> Inr (0, 0, FZero False)
      | Some coupons \<Rightarrow> current_period parseDate now coupons)"

section \<open>Values of a position\<close>

definition GetAssetValueInUSD :: "AssetData \<Rightarrow> int64 \<Rightarrow> string \<Rightarrow> gofloat \<Rightarrow> error + gofloat" where
  "GetAssetValueInUSD ad amt assetID multiplier =
     (case Decimals ad assetID of Inl e \<Rightarrow> Inl e
      | Inr decimals \<Rightarrow>
        let multiplier = f64_div multiplier (Pow10 decimals)
        in case Price ad assetID of Inl e \<Rightarrow> Inl e
        | Inr price \<Rightarrow> Inr (f64_mul (f64_mul price (f64_of_int (sint amt))) multiplier))"

text \<open>The sum of the callback's values, with the error that stopped the iteration.\<close>

type_synonym valuation = "string \<Rightarrow> int64 \<Rightarrow> gofloat \<Rightarrow> error option \<times> gofloat"

definition sum_values :: "valuation \<Rightarrow> Balances option \<Rightarrow> (gofloat \<times> error option) option" where
  "sum_values f b = (case b of None \<Rightarrow> None
     | Some b \<Rightarrow> (case Iterate b f (FZero False) of (err, tot) \<Rightarrow> Some (tot, err)))"

definition add_value :: "AssetData \<Rightarrow> int64 \<Rightarrow> string \<Rightarrow> gofloat \<Rightarrow> gofloat \<Rightarrow> error option \<times> gofloat" where
  "add_value ad amt assetID multiplier tot =
     (case GetAssetValueInUSD ad amt assetID multiplier of Inl e \<Rightarrow> (Some e, tot)
      | Inr value \<Rightarrow> (None, f64_add tot value))"

definition ExactLiquidationThreshold :: "AssetData \<Rightarrow> Position \<Rightarrow> (gofloat \<times> error option) option" where
  "ExactLiquidationThreshold ad p = sum_values (\<lambda>assetID amt tot.
     if 0 <s amt then
       (case LiquidationThreshold ad assetID of Inl e \<Rightarrow> (Some e, tot)
        | Inr lt \<Rightarrow> if feq lt (FZero False) then (None, tot) else add_value ad amt assetID lt tot)
     else (None, tot)) (Owned p)"

definition ExactBorrowLimit :: "AssetData \<Rightarrow> Position \<Rightarrow> (gofloat \<times> error option) option" where
  "ExactBorrowLimit ad p = sum_values (\<lambda>assetID amt tot.
     if 0 <s amt then
       (case CollateralWeight ad assetID of Inl e \<Rightarrow> (Some e, tot)
        | Inr cw \<Rightarrow> if feq cw (FZero False) then (None, tot) else add_value ad amt assetID cw tot)
     else (None, tot)) (Owned p)"

definition ExactBorrowedValue :: "AssetData \<Rightarrow> Position \<Rightarrow> (gofloat \<times> error option) option" where
  "ExactBorrowedValue ad p = sum_values (\<lambda>assetID amt tot.
     if amt <s 0 then add_value ad (- 1 * amt) assetID (FFin 1) tot else (None, tot)) (Owned p)"

definition ExactCollateralValue :: "AssetData \<Rightarrow> Position \<Rightarrow> (gofloat \<times> error option) option" where
  "ExactCollateralValue ad p = sum_values (\<lambda>assetID amt tot.
     if 0 <s amt then
       (case CollateralWeight ad assetID of Inl e \<Rightarrow> (Some e, tot)
        | Inr cw \<Rightarrow> if feq cw (FZero False) then (None, tot) else add_value ad amt assetID (FFin 1) tot)
     else (None, tot)) (Owned p)"

definition ExactSuppliedValue :: "AssetData \<Rightarrow> Position \<Rightarrow> (gofloat \<times> error option) option" where
  "ExactSuppliedValue ad p = sum_values (\<lambda>assetID amt tot.
     if 0 <s amt then add_value ad amt assetID (FFin 1) tot else (None, tot)) (Supplied p)"

definition bond_value :: "AssetData \<Rightarrow> valuation" where
  "bond_value ad = (\<lambda>assetID amt tot.
     if 0 <s amt then
       (if \<not> flag (ad_isBond ad) assetID then (None, tot) else add_value ad amt assetID (FFin 1) tot)
     else (None, tot))"

definition ExactAvailableValue :: "AssetData \<Rightarrow> Position \<Rightarrow> (gofloat \<times> error option) option" where
  "ExactAvailableValue ad p =
     (case sum_values (bond_value ad) (Locked p) of None \<Rightarrow> None
      | Some (locked, Some e) \<Rightarrow> Some (locked, Some e)
      | Some (locked, None) \<Rightarrow>
        (case sum_values (bond_value ad) (Owned p) of None \<Rightarrow> None
         | Some (owned, err) \<Rightarrow>
             Some (if fle locked owned then f64_sub owned locked else FZero False, err)))"

section \<open>Registered data is valid\<close>

text \<open>The states a caller can reach from the zero value.\<close>

inductive ad_reach :: "AssetData \<Rightarrow> bool" where
  zero: "ad_reach zeroAssetData"
| register: "ad_reach ad \<Longrightarrow> ad_reach (fst (RegisterAsset ad aid d cw lt cur bond trade borrow virt int' cs))"
| price: "ad_reach ad \<Longrightarrow> ad_reach (fst (UpdatePrice ad aid p))"

definition valid_asset :: "AssetData \<Rightarrow> string \<Rightarrow> bool" where
  "valid_asset ad i \<longleftrightarrow>
     (mlookup (ad_decimals ad) i = None \<longrightarrow>
        mlookup (ad_collateralWeights ad) i = None \<and> mlookup (ad_liquidationThresholds ad) i = None
        \<and> mlookup (ad_isCurrency ad) i = None \<and> mlookup (ad_isBond ad) i = None \<and> mlookup (ad_canTrade ad) i = None
        \<and> mlookup (ad_canBorrow ad) i = None \<and> mlookup (ad_isVirtualBorrow ad) i = None
        \<and> mlookup (ad_isInterest ad) i = None \<and> mlookup (ad_coupons ad) i = None)
   \<and> (\<forall>d. mlookup (ad_decimals ad) i = Some d \<longrightarrow> 0 \<le>s d \<and> i \<noteq> ''''
        \<and> mlookup (ad_isCurrency ad) i \<noteq> None \<and> mlookup (ad_isBond ad) i \<noteq> None \<and> mlookup (ad_canTrade ad) i \<noteq> None
        \<and> mlookup (ad_canBorrow ad) i \<noteq> None \<and> mlookup (ad_isVirtualBorrow ad) i \<noteq> None
        \<and> mlookup (ad_isInterest ad) i \<noteq> None \<and> mlookup (ad_coupons ad) i \<noteq> None
        \<and> (\<exists>cw. mlookup (ad_collateralWeights ad) i = Some cw \<and> \<not> bad_float cw)
        \<and> (\<exists>lt. mlookup (ad_liquidationThresholds ad) i = Some lt \<and> \<not> bad_float lt))
   \<and> (flag (ad_isVirtualBorrow ad) i \<longrightarrow> flag (ad_canBorrow ad) i)
   \<and> (\<forall>c \<in> set (coupons_of ad i). positive_float (Yield c))
   \<and> (\<forall>p. mlookup (ad_prices ad) i = Some p \<longrightarrow> \<not> bad_float p)"

definition all_maps :: "AssetData \<Rightarrow> bool" where
  "all_maps ad \<longleftrightarrow> ad_decimals ad \<noteq> None \<and> ad_collateralWeights ad \<noteq> None \<and> ad_liquidationThresholds ad \<noteq> None
     \<and> ad_isCurrency ad \<noteq> None \<and> ad_isBond ad \<noteq> None \<and> ad_canTrade ad \<noteq> None \<and> ad_canBorrow ad \<noteq> None
     \<and> ad_isVirtualBorrow ad \<noteq> None \<and> ad_isInterest ad \<noteq> None \<and> ad_coupons ad \<noteq> None \<and> ad_prices ad \<noteq> None"

definition ad_inv :: "AssetData \<Rightarrow> bool" where
  "ad_inv ad \<longleftrightarrow> (ad_initialized ad \<longrightarrow> all_maps ad) \<and> (\<not> ad_initialized ad \<longrightarrow> ad = zeroAssetData)
     \<and> (\<forall>i. valid_asset ad i)"

lemma mlookup_store [simp]:
  "m \<noteq> None \<Longrightarrow> mlookup (mstore k v m) i = (if i = k then Some v else mlookup m i)"
  by (auto simp: mlookup_def mstore_def gomap_simps)

lemma mlookup_None [simp]: "mlookup None i = None" "mlookup (Some []) i = None"
  by (simp_all add: mlookup_def)

lemma flag_store [simp]: "m \<noteq> None \<Longrightarrow> flag (mstore k v m) i = (if i = k then v else flag m i)"
  by (simp add: flag_def)

lemma mstore_not_None [simp]: "mstore k v m \<noteq> None \<longleftrightarrow> m \<noteq> None" "mstore k v m = None \<longleftrightarrow> m = None"
  by (auto simp: mstore_def)

lemma Init_inv: "ad_inv ad \<Longrightarrow> ad_inv (AssetData_Init ad) \<and> all_maps (AssetData_Init ad)"
  by (auto simp: ad_inv_def AssetData_Init_def all_maps_def valid_asset_def flag_def coupons_of_def)

lemma Register_rejected:
  "snd (RegisterAsset ad aid d cw lt cur bond trade borrow virt int' cs) \<noteq> None \<Longrightarrow>
    fst (RegisterAsset ad aid d cw lt cur bond trade borrow virt int' cs) = AssetData_Init ad"
  by (auto simp: RegisterAsset_def Let_def)

lemma Register_accepted:
  assumes "snd (RegisterAsset ad aid d cw lt cur bond trade borrow virt int' cs) = None"
  obtains cs' where
    "aid \<noteq> ''''" "\<not> bad_float cw" "\<not> bad_float lt" "0 \<le>s d" "virt \<longrightarrow> borrow" "\<forall>c \<in> set cs'. positive_float (Yield c)"
    "fst (RegisterAsset ad aid d cw lt cur bond trade borrow virt int' cs) =
     (let a = AssetData_Init ad in a\<lparr>ad_decimals := mstore aid d (ad_decimals a),
       ad_collateralWeights := mstore aid cw (ad_collateralWeights a),
       ad_liquidationThresholds := mstore aid lt (ad_liquidationThresholds a),
       ad_isCurrency := mstore aid cur (ad_isCurrency a), ad_isBond := mstore aid bond (ad_isBond a),
       ad_canTrade := mstore aid trade (ad_canTrade a), ad_canBorrow := mstore aid borrow (ad_canBorrow a),
       ad_isVirtualBorrow := mstore aid virt (ad_isVirtualBorrow a),
       ad_isInterest := mstore aid int' (ad_isInterest a), ad_coupons := mstore aid cs' (ad_coupons a)\<rparr>)"
proof -
  let ?cs = "concat (map (\<lambda>c. case c of None \<Rightarrow> [] | Some c \<Rightarrow> if positive_float (Yield c) then [c] else []) cs)"
  have ok: "aid \<noteq> ''''" "\<not> bad_float cw" "\<not> bad_float lt" "0 \<le>s d" "virt \<longrightarrow> borrow"
    using assms by (auto simp: RegisterAsset_def Let_def word_sless_alt word_sle_eq split: if_splits)
  have "\<forall>c \<in> set ?cs. positive_float (Yield c)" by (auto split: option.splits if_splits)
  moreover have "(virt \<and> \<not> borrow) = False" "(d <s 0) = False" using ok by (auto simp: word_sless_alt word_sle_eq)
  ultimately show ?thesis
    using ok by (intro that [OF ok, of ?cs]) (simp_all only: RegisterAsset_def Let_def if_False fst_conv)
qed

lemma Register_inv:
  assumes "ad_inv ad"
  shows "ad_inv (fst (RegisterAsset ad aid d cw lt cur bond trade borrow virt int' cs))"
proof (cases "snd (RegisterAsset ad aid d cw lt cur bond trade borrow virt int' cs) = None")
  case False
  then show ?thesis using Register_rejected Init_inv [OF assms] by simp
next
  case True
  then obtain cs' where ok: "aid \<noteq> ''''" "\<not> bad_float cw" "\<not> bad_float lt" "0 \<le>s d" "virt \<longrightarrow> borrow"
      "\<forall>c \<in> set cs'. positive_float (Yield c)"
    and r: "fst (RegisterAsset ad aid d cw lt cur bond trade borrow virt int' cs) =
     (let a = AssetData_Init ad in a\<lparr>ad_decimals := mstore aid d (ad_decimals a),
       ad_collateralWeights := mstore aid cw (ad_collateralWeights a),
       ad_liquidationThresholds := mstore aid lt (ad_liquidationThresholds a),
       ad_isCurrency := mstore aid cur (ad_isCurrency a), ad_isBond := mstore aid bond (ad_isBond a),
       ad_canTrade := mstore aid trade (ad_canTrade a), ad_canBorrow := mstore aid borrow (ad_canBorrow a),
       ad_isVirtualBorrow := mstore aid virt (ad_isVirtualBorrow a),
       ad_isInterest := mstore aid int' (ad_isInterest a), ad_coupons := mstore aid cs' (ad_coupons a)\<rparr>)"
    by (rule Register_accepted)
  have i: "ad_inv (AssetData_Init ad)" "all_maps (AssetData_Init ad)" using Init_inv [OF assms] by auto
  note m = i(2) [unfolded all_maps_def]
  have va: "valid_asset (AssetData_Init ad) j" for j using i(1) by (simp add: ad_inv_def)
  have init: "ad_initialized (AssetData_Init ad)" using i by (auto simp: ad_inv_def zeroAssetData_def all_maps_def)
  define ad' where "ad' = fst (RegisterAsset ad aid d cw lt cur bond trade borrow virt int' cs)"
  note ad' = ad'_def [unfolded r Let_def]
  have "valid_asset ad' j" for j
    using va [of j] m ok by (cases "j = aid") (auto simp: ad' valid_asset_def coupons_of_def)
  moreover have "all_maps ad'" "ad_initialized ad'" using m init by (simp_all add: ad' all_maps_def)
  ultimately show ?thesis unfolding ad'_def [symmetric] by (simp add: ad_inv_def)
qed

lemma Update_inv: "ad_inv ad \<Longrightarrow> ad_inv (fst (UpdatePrice ad aid p))"
proof -
  assume inv: "ad_inv ad"
  let ?a = "AssetData_Init ad"
  have i: "ad_inv ?a" "all_maps ?a" using Init_inv [OF inv] by auto
  note m = i(2) [unfolded all_maps_def]
  have va: "valid_asset ?a j" for j using i(1) by (simp add: ad_inv_def)
  let ?r = "?a\<lparr>ad_prices := mstore aid p (ad_prices ?a)\<rparr>"
  have "ad_inv ?r" if "\<not> bad_float p"
  proof -
    have "\<forall>j. valid_asset ?r j"
      using va m that by (auto simp: valid_asset_def coupons_of_def)
    moreover have "all_maps ?r" using m by (simp add: all_maps_def)
    moreover have "ad_initialized ?a" using i by (auto simp: ad_inv_def zeroAssetData_def all_maps_def)
    ultimately show ?thesis unfolding ad_inv_def by simp
  qed
  then show "ad_inv (fst (UpdatePrice ad aid p))"
    using i by (simp add: UpdatePrice_def Let_def)
qed

lemma reach_inv: "ad_reach ad \<Longrightarrow> ad_inv ad"
proof (induction rule: ad_reach.induct)
  case zero
  then show ?case by (simp add: ad_inv_def valid_asset_def zeroAssetData_def flag_def coupons_of_def)
qed (simp_all only: Register_inv Update_inv)

definition in_tables :: "AssetData \<Rightarrow> string \<Rightarrow> bool list" where
  "in_tables ad i =
     [mlookup (ad_decimals ad) i \<noteq> None, mlookup (ad_collateralWeights ad) i \<noteq> None,
      mlookup (ad_liquidationThresholds ad) i \<noteq> None, mlookup (ad_isCurrency ad) i \<noteq> None,
      mlookup (ad_isBond ad) i \<noteq> None, mlookup (ad_canTrade ad) i \<noteq> None, mlookup (ad_canBorrow ad) i \<noteq> None,
      mlookup (ad_isVirtualBorrow ad) i \<noteq> None, mlookup (ad_isInterest ad) i \<noteq> None,
      mlookup (ad_coupons ad) i \<noteq> None]"

lemma Register_readers:
  assumes "ad_inv ad" "RegisterAsset ad i d cw lt cur bond trade borrow virt int' cs = (ad', None)"
  shows "Decimals ad' i = Inr d \<and> CollateralWeight ad' i = Inr cw \<and> LiquidationThreshold ad' i = Inr lt
    \<and> IsCurrency ad' i = cur \<and> IsBond ad' i = bond \<and> CanTrade ad' i = trade \<and> CanBorrow ad' i = borrow
    \<and> IsVirtualBorrow ad' i = virt \<and> IsInterest ad' i = int'"
proof -
  have m: "all_maps (AssetData_Init ad)" using Init_inv [OF assms(1)] by blast
  have "snd (RegisterAsset ad i d cw lt cur bond trade borrow virt int' cs) = None" using assms(2) by simp
  then show ?thesis
    by (rule Register_accepted) (use m assms(2) in \<open>simp add: all_maps_def Let_def Decimals_def CollateralWeight_def
      LiquidationThreshold_def IsCurrency_def IsBond_def CanTrade_def CanBorrow_def IsVirtualBorrow_def IsInterest_def\<close>)
qed

text \<open>
  C29: whatever sequence of \<open>RegisterAsset\<close> and \<open>UpdatePrice\<close> calls has run, successful or not, an asset is
  either in every table of the registry (\<open>in_tables\<close>), with a name, a non-negative exponent and a finite
  non-negative weight and threshold, or in none; a virtual borrow asset can be borrowed; every stored
  coupon pays a positive yield; every stored price is finite and non-negative; and when the next
  \<open>RegisterAsset\<close> succeeds, the readers return what it was given.
\<close>

theorem AssetData_tables_consistent:
  assumes "ad_reach ad"
  shows "in_tables ad i = replicate 10 (AssetData_Has ad i)
    \<and> (AssetData_Has ad i \<longleftrightarrow> is_ok (CollateralWeight ad i)) \<and> (AssetData_Has ad i \<longleftrightarrow> is_ok (LiquidationThreshold ad i))
    \<and> (AssetData_Has ad i \<longleftrightarrow> is_ok (Decimals ad i)) \<and> (AssetData_Has ad i \<longrightarrow> i \<noteq> '''')
    \<and> (\<forall>d. Decimals ad i = Inr d \<longrightarrow> 0 \<le>s d) \<and> (\<forall>w. CollateralWeight ad i = Inr w \<longrightarrow> \<not> bad_float w)
    \<and> (\<forall>w. LiquidationThreshold ad i = Inr w \<longrightarrow> \<not> bad_float w)
    \<and> (IsVirtualBorrow ad i \<longrightarrow> CanBorrow ad i) \<and> (IsCurrency ad i \<longrightarrow> AssetData_Has ad i)
    \<and> (\<forall>c \<in> set (coupons_of ad i). positive_float (Yield c)) \<and> (\<forall>p. Price ad i = Inr p \<longrightarrow> \<not> bad_float p)
    \<and> (\<forall>ad'. RegisterAsset ad i d cw lt cur bond trade borrow virt int' cs = (ad', None) \<longrightarrow>
         Decimals ad' i = Inr d \<and> CollateralWeight ad' i = Inr cw \<and> LiquidationThreshold ad' i = Inr lt
         \<and> IsCurrency ad' i = cur \<and> IsBond ad' i = bond \<and> CanTrade ad' i = trade \<and> CanBorrow ad' i = borrow
         \<and> IsVirtualBorrow ad' i = virt \<and> IsInterest ad' i = int')"
proof -
  have v: "valid_asset ad i" and m: "ad_collateralWeights ad = None \<or> ad_liquidationThresholds ad = None \<longrightarrow> mlookup (ad_decimals ad) i = None"
    using reach_inv [OF assms] by (auto simp: ad_inv_def all_maps_def zeroAssetData_def)
  have "in_tables ad i = replicate 10 (AssetData_Has ad i)"
    using v by (cases "mlookup (ad_decimals ad) i") (auto simp: valid_asset_def in_tables_def AssetData_Has_def numeral_nat)
  moreover have "\<forall>ad'. RegisterAsset ad i d cw lt cur bond trade borrow virt int' cs = (ad', None) \<longrightarrow>
         Decimals ad' i = Inr d \<and> CollateralWeight ad' i = Inr cw \<and> LiquidationThreshold ad' i = Inr lt
         \<and> IsCurrency ad' i = cur \<and> IsBond ad' i = bond \<and> CanTrade ad' i = trade \<and> CanBorrow ad' i = borrow
         \<and> IsVirtualBorrow ad' i = virt \<and> IsInterest ad' i = int'"
    using Register_readers [OF reach_inv [OF assms]] by blast
  moreover have "(AssetData_Has ad i \<longleftrightarrow> is_ok (CollateralWeight ad i)) \<and> (AssetData_Has ad i \<longleftrightarrow> is_ok (LiquidationThreshold ad i))
    \<and> (AssetData_Has ad i \<longleftrightarrow> is_ok (Decimals ad i)) \<and> (AssetData_Has ad i \<longrightarrow> i \<noteq> '''')
    \<and> (\<forall>d. Decimals ad i = Inr d \<longrightarrow> 0 \<le>s d) \<and> (\<forall>w. CollateralWeight ad i = Inr w \<longrightarrow> \<not> bad_float w)
    \<and> (\<forall>w. LiquidationThreshold ad i = Inr w \<longrightarrow> \<not> bad_float w)
    \<and> (IsVirtualBorrow ad i \<longrightarrow> CanBorrow ad i) \<and> (IsCurrency ad i \<longrightarrow> AssetData_Has ad i)
    \<and> (\<forall>c \<in> set (coupons_of ad i). positive_float (Yield c)) \<and> (\<forall>p. Price ad i = Inr p \<longrightarrow> \<not> bad_float p)"
  proof (cases "mlookup (ad_decimals ad) i")
    case None
    with v show ?thesis
      by (auto simp: valid_asset_def AssetData_Has_def Decimals_def CollateralWeight_def LiquidationThreshold_def
          IsVirtualBorrow_def CanBorrow_def IsCurrency_def Price_def flag_def split: option.splits if_splits)
  next
    case (Some d)
    with v m show ?thesis
      by (auto simp: valid_asset_def AssetData_Has_def Decimals_def CollateralWeight_def LiquidationThreshold_def
          IsVirtualBorrow_def CanBorrow_def IsCurrency_def Price_def flag_def split: option.splits if_splits)
  qed
  ultimately show ?thesis by (elim conjE) (intro conjI; assumption)
qed

definition one_asset :: AssetData where
  "one_asset = fst (RegisterAsset zeroAssetData ''USD'' 6 (FFin 1) (FFin 1) True False True True False False [])"

lemma two_assets: "snd (RegisterAsset one_asset ''EUR'' 2 (FFin 1) (FFin 1) True False True True False False []) = None"
  by code_simp

theorem AssetData_tables_consistent_witness:
  "AssetData_Has one_asset ''USD'' \<and> in_tables one_asset ''USD'' = replicate 10 True
    \<and> Decimals (fst (RegisterAsset one_asset ''EUR'' 2 (FFin 1) (FFin 1) True False True True False False [])) ''EUR'' = Inr 2"
proof -
  have c: "ad_reach one_asset" unfolding one_asset_def by (intro ad_reach.intros)
  have usd: "AssetData_Has one_asset ''USD''" by code_simp
  let ?r = "RegisterAsset one_asset ''EUR'' 2 (FFin 1) (FFin 1) True False True True False False []"
  have r: "?r = (fst ?r, None)" using two_assets by (simp only: prod_eq_iff fst_conv snd_conv simp_thms)
  have "in_tables one_asset ''USD'' = replicate 10 True"
    using conjunct1 [OF AssetData_tables_consistent [OF c, of "''USD''"]] usd by (simp only:)
  moreover have "Decimals (fst ?r) ''EUR'' = Inr 2"
    using AssetData_tables_consistent [OF c, of "''EUR''" 2 "FFin 1" "FFin 1" True False True True False False "[]"] r by blast
  ultimately show ?thesis using usd by blast
qed

section \<open>Ranges of coupon periods\<close>

lemma select_error: "select_coupons pd P cs = Inl e \<Longrightarrow> select_coupons pd Q cs = Inl e"
  by (induction cs) (auto split: sum.splits)

lemma select_split:
  assumes "select_coupons pd P cs = Inr x" "select_coupons pd Q cs = Inr y" "select_coupons pd R cs = Inr z"
    and "\<And>e c. R e c \<longleftrightarrow> P e c \<or> Q e c" "\<And>e c. \<not> (P e c \<and> Q e c)"
  shows "mset z = mset x + mset y"
  using assms(1-3)
proof (induction cs arbitrary: x y z)
  case (Cons c cs)
  then obtain e where e: "UnixFromDate pd (Coupon_Date c) = Inr e" by (auto split: sum.splits)
  from Cons.prems e obtain x' y' z' where r: "select_coupons pd P cs = Inr x'" "select_coupons pd Q cs = Inr y'"
    "select_coupons pd R cs = Inr z'" by (auto split: sum.splits)
  then have "mset z' = mset x' + mset y'" by (rule Cons.IH)
  with Cons.prems e r assms(4,5) [of e c] show ?case
    by (cases "P e c"; cases "Q e c") auto
qed simp

text \<open>
  C30: consecutive ranges of time neither miss nor repeat a coupon: the coupons ending after \<open>a\<close> and up
  to \<open>c\<close> are, with their multiplicities, those up to \<open>b\<close> together with those after \<open>b\<close>; and a date
  that cannot be parsed is reported for every range alike.
\<close>

theorem CouponsEndingInRange_split:
  assumes "sint a \<le> sint b" "sint b \<le> sint c"
  shows "case (CouponsEndingInRange pd ad i a b, CouponsEndingInRange pd ad i b c, CouponsEndingInRange pd ad i a c) of
     (Inr x, Inr y, Inr z) \<Rightarrow> mset z = mset x + mset y
   | (Inl e, Inl e', Inl e'') \<Rightarrow> e = e' \<and> e = e''
   | _ \<Rightarrow> False"
proof (cases "ad_coupons ad = None")
  case True
  then show ?thesis by (simp add: CouponsEndingInRange_def)
next
  case False
  let ?P = "\<lambda>f t e k. f <s e \<and> e \<le>s t \<and> positive_float (Yield k)"
  let ?cs = "coupons_of ad i"
  have eq: "CouponsEndingInRange pd ad i f t = select_coupons pd (?P f t) ?cs" for f t
    by (simp only: CouponsEndingInRange_def False if_False)
  show ?thesis
  proof (cases "select_coupons pd (?P a b) ?cs")
    case (Inl e)
    then show ?thesis unfolding eq
      using select_error [OF Inl, of "?P b c"] select_error [OF Inl, of "?P a c"] by simp
  next
    case (Inr x)
    moreover obtain y where "select_coupons pd (?P b c) ?cs = Inr y"
      using Inr select_error [of pd "?P b c" ?cs _ "?P a b"] by (cases "select_coupons pd (?P b c) ?cs") auto
    moreover obtain z where "select_coupons pd (?P a c) ?cs = Inr z"
      using Inr select_error [of pd "?P a c" ?cs _ "?P a b"] by (cases "select_coupons pd (?P a c) ?cs") auto
    moreover have "mset z = mset x + mset y"
      by (rule select_split [OF calculation]) (use assms in \<open>auto simp: word_sless_alt word_sle_eq\<close>)
    ultimately show ?thesis unfolding eq by simp
  qed
qed

definition bond_data :: AssetData where
  "bond_data = fst (RegisterAsset zeroAssetData ''B'' 6 (FFin 1) (FFin 1) False True True True False False
     [Some \<lparr>Coupon_Date = ''21'', Coupon_Start = '''', Yield = FFin 1, IsMaturity = False\<rparr>,
      Some \<lparr>Coupon_Date = ''321'', Coupon_Start = '''', Yield = FFin 1, IsMaturity = True\<rparr>])"

definition length_date :: "string \<Rightarrow> string + int64" where
  "length_date d = Inr (of_nat (length d))"

theorem CouponsEndingInRange_split_witness:
  "case (CouponsEndingInRange length_date bond_data ''B'' 1 2, CouponsEndingInRange length_date bond_data ''B'' 2 3,
      CouponsEndingInRange length_date bond_data ''B'' 1 3) of
     (Inr x, Inr y, Inr z) \<Rightarrow> map Coupon_Date x = [''21''] \<and> map Coupon_Date y = [''321''] \<and> mset z = mset x + mset y
   | _ \<Rightarrow> False"
proof -
  let ?x = "CouponsEndingInRange length_date bond_data ''B'' 1 2" and ?y = "CouponsEndingInRange length_date bond_data ''B'' 2 3"
  have "case ?x of Inr x \<Rightarrow> map Coupon_Date x = [''21''] | _ \<Rightarrow> False" "case ?y of Inr y \<Rightarrow> map Coupon_Date y = [''321''] | _ \<Rightarrow> False"
    by code_simp+
  with CouponsEndingInRange_split [of 1 2 3 length_date bond_data "''B''"] show ?thesis
    by (simp split: sum.splits)
qed

end
