(* ===== verification/BalancesJSON.thy ===== *)
theory BalancesJSON
  imports Balances
begin

text \<open>
  \<open>src/ledger/types/balances_json.go\<close>: the JSON form of a set of balances. \<open>floatMap\<close> stands for the
  JSON library's \<open>Unmarshal\<close> into a \<open>map[string]float64\<close>, of which the code uses the error only.
\<close>

definition displayAmount :: "int64 \<Rightarrow> string" where
  "displayAmount amount = FormatInt amount"

definition MarshalJSON :: "Balances \<Rightarrow> error + string" where
  "MarshalJSON b = (case Balances_Validate b True of Some e \<Rightarrow> Inl e
     | None \<Rightarrow>
       let stringMap = map (\<lambda>(assetID, amount). (assetID, displayAmount amount))
             (filter (\<lambda>(assetID, amount). \<not> (amount = 0 \<or> assetID = '''')) (entries b));
           assetIDs = string_sort (mkeys stringMap);
           contents = Join (map (\<lambda>assetID. [CHR 34] @ assetID @ [CHR 34] @ '':'' @ mget '''' stringMap assetID) assetIDs) '',''
       in Inr (''{'' @ contents @ ''}''))"

definition json_keep :: "char \<Rightarrow> bool" where
  "json_keep c = (is_alnum c \<or> c = CHR '':'' \<or> c = CHR '','' \<or> c = CHR ''_'' \<or> c = CHR ''-'')"

fun parse_lines :: "string list \<Rightarrow> (string, int64) gomap \<Rightarrow> error option \<times> (string, int64) gomap" where
  "parse_lines [] m = (None, m)"
| "parse_lines (line # ls) m =
     (let split = Split (CHR '':'') line
      in if length split \<noteq> 2
         then (Some (ErrorString (''line '' @ [CHR 34] @ line @ [CHR 34] @ '' is not split by single colon'')), m)
         else let assetID = split ! 0
         in case ValidAssetID assetID of Some e \<Rightarrow> (Some e, m)
          | None \<Rightarrow>
         if mhas m assetID then (Some (ErrorString (''duplicate balance during unmarshal: '' @ assetID)), m)
         else let amountString = split ! 1
         in case ParseInt amountString of Inl e \<Rightarrow> (Some (NumError ''ParseInt'' amountString e), m)
          | Inr amount \<Rightarrow> parse_lines ls (mput assetID amount m))"

definition UnmarshalJSON :: "(string \<Rightarrow> error option) \<Rightarrow> string \<Rightarrow> error option \<times> Balances" where
  "UnmarshalJSON floatMap data =
     (case floatMap data of Some e \<Rightarrow> (Some e, mkBals [])
      | None \<Rightarrow>
        let s = filter json_keep data;
            (err, m) = (if s \<noteq> '''' then parse_lines (Split (CHR '','') s) [] else (None, []))
        in case err of Some e \<Rightarrow> (Some e, mkBals m)
           | None \<Rightarrow> (Balances_Validate (mkBals m) True, mkBals m))"

text \<open>
  The methods that go through the JSON library (\<open>marshal\<close> and \<open>unmarshal\<close>), which calls \<open>MarshalJSON\<close> and
  \<open>UnmarshalJSON\<close> on its way.
\<close>

definition Balances_MarshalBinary :: "(Balances \<Rightarrow> error + string) \<Rightarrow> Balances \<Rightarrow> error + string" where
  "Balances_MarshalBinary marshal b = marshal b"

definition Balances_UnmarshalBinary ::
  "(string \<Rightarrow> Balances \<Rightarrow> error option \<times> Balances) \<Rightarrow> string \<Rightarrow> Balances \<Rightarrow> error option \<times> Balances" where
  "Balances_UnmarshalBinary unmarshal data b = unmarshal data b"

definition Balances_String :: "(Balances \<Rightarrow> error + string) \<Rightarrow> Balances \<Rightarrow> string" where
  "Balances_String marshal b =
     (case marshal b of Inl err \<Rightarrow> ''{'' @ [CHR 34] @ ''Error'' @ [CHR 34] @ '': '' @ Error err @ ''}''
      | Inr j \<Rightarrow> j)"

section \<open>The text of a valid set of balances\<close>

lemma Balances_Validate_True:
  "Balances_Validate b True = None \<longleftrightarrow> (\<forall>(i, n) \<in> set (entries b). i \<noteq> '''' \<and> ValidAssetID i = None)"
  by (auto simp: Validate_None_iff)

definition json_line :: "Balances \<Rightarrow> string \<Rightarrow> string" where
  "json_line b i = [CHR 34] @ i @ [CHR 34] @ '':'' @ FormatInt (AmountOf b i)"

lemma Marshal_text:
  assumes "wf_bals b" "Balances_Validate b True = None"
  shows "MarshalJSON b = Inr (''{'' @ Join (map (json_line b) (string_sort (AssetIDs b))) '','' @ ''}'')"
proof -
  let ?f = "filter (\<lambda>(i, n). \<not> (n = 0 \<or> i = '''')) (entries b)"
  let ?m = "map (\<lambda>(i, n). (i, displayAmount n)) ?f"
  have f: "?f = filter (\<lambda>(i, n). n \<noteq> 0) (entries b)"
    using assms(2) by (intro filter_cong) (auto simp: Balances_Validate_True)
  have k: "mkeys ?m = AssetIDs b" unfolding f by (auto simp: mkeys_def AssetIDs_def)
  have "mget '''' ?m i = FormatInt (AmountOf b i)" if i: "i \<in> set (AssetIDs b)" for i
  proof -
    obtain n where n: "(i, n) \<in> set (entries b)" "n \<noteq> 0" using i by (auto simp: AssetIDs_def)
    then have "AmountOf b i = n" using assms(1) by (simp add: AmountOf_entries wf_bals_def mget_in)
    moreover have "(i, displayAmount n) \<in> set ?m" unfolding f using n by force
    moreover have "wf_map ?m"
      using distinct_AssetIDs [OF assms(1)] k by (simp add: wf_map_def mkeys_def)
    ultimately show ?thesis by (simp add: mget_in displayAmount_def)
  qed
  then have "map (\<lambda>i. [CHR 34] @ i @ [CHR 34] @ '':'' @ mget '''' ?m i) (string_sort (AssetIDs b))
      = map (json_line b) (string_sort (AssetIDs b))"
    by (auto simp: json_line_def)
  then show ?thesis using assms(2) by (simp only: MarshalJSON_def Let_def option.case k)
qed

text \<open>
  The JSON text of a valid set of balances depends only on its amounts: it does not depend on the
  iteration order of the map, nor on entries with a zero amount.
\<close>

theorem MarshalJSON_canonical:
  assumes "wf_bals b" "wf_bals c" "Balances_Validate b True = None" "Balances_Validate c True = None"
    and "\<forall>i. AmountOf b i = AmountOf c i"
  shows "MarshalJSON b = MarshalJSON c"
proof -
  have "string_sort (AssetIDs b) = string_sort (AssetIDs c)"
    using assms by (intro string_sort_cong) (simp_all add: distinct_AssetIDs set_AssetIDs)
  moreover have "json_line b = json_line c" using assms(5) by (simp add: json_line_def fun_eq_iff)
  ultimately show ?thesis using Marshal_text assms by simp
qed

theorem MarshalJSON_canonical_witness:
  "MarshalJSON (mkBals [(''A'', 1), (''B'', 2)]) = MarshalJSON (mkBals [(''B'', 2), (''A'', 1), (''C'', 0)])"
proof -
  have w: "wf_bals (mkBals [(''A'', 1), (''B'', 2)])" "wf_bals (mkBals [(''B'', 2), (''A'', 1), (''C'', 0)])"
    "Balances_Validate (mkBals [(''A'', 1), (''B'', 2)]) True = None"
    "Balances_Validate (mkBals [(''B'', 2), (''A'', 1), (''C'', 0)]) True = None"
    by code_simp+
  moreover have "\<forall>i. AmountOf (mkBals [(''A'', 1), (''B'', 2)]) i = AmountOf (mkBals [(''B'', 2), (''A'', 1), (''C'', 0)]) i"
    by (simp add: AmountOf_def mkBals_def mget_Cons mget_Nil)
  ultimately show ?thesis by (rule MarshalJSON_canonical)
qed

section \<open>Reading it back\<close>

definition text_line :: "Balances \<Rightarrow> string \<Rightarrow> string" where
  "text_line b i = i @ '':'' @ FormatInt (AmountOf b i)"

lemma json_keep_id: "id_char c \<Longrightarrow> json_keep c \<and> c \<noteq> CHR '','' \<and> c \<noteq> CHR '':''"
  by (auto simp: id_char_def json_keep_def is_alnum_def)

lemma id_char_FormatInt: "c \<in> set (FormatInt n) \<Longrightarrow> id_char c"
  using FormatInt_chars [of n] by (auto simp: id_char_def is_alnum_def is_digit_def)

lemma filter_json_line: "list_all id_char i \<Longrightarrow> filter json_keep (json_line b i) = text_line b i"
proof -
  assume "list_all id_char i"
  then have "filter json_keep i = i" "filter json_keep (FormatInt (AmountOf b i)) = FormatInt (AmountOf b i)"
    using json_keep_id id_char_FormatInt by (auto simp: list_all_iff intro!: filter_True)
  moreover have "\<not> json_keep (CHR 34)" "json_keep (CHR '':'')" by (simp_all add: json_keep_def is_alnum_def)
  ultimately show ?thesis by (simp add: json_line_def text_line_def)
qed

lemma filter_Join: "P c \<Longrightarrow> filter P (Join xs [c]) = Join (map (filter P) xs) [c]"
  by (induction xs "[c]" rule: Join.induct) auto

lemma filter_marshalled:
  assumes "\<forall>i \<in> set is. list_all id_char i"
  shows "filter json_keep (''{'' @ Join (map (json_line b) is) '','' @ ''}'') = Join (map (text_line b) is) '',''"
proof -
  have "\<not> json_keep (CHR ''{'')" "\<not> json_keep (CHR ''}'')" "json_keep (CHR '','')"
    by (simp_all add: json_keep_def is_alnum_def)
  then have "filter json_keep (''{'' @ Join (map (json_line b) is) '','' @ ''}'')
      = Join (map (filter json_keep) (map (json_line b) is)) '',''"
    by (simp add: filter_Join del: map_map)
  moreover have "map (filter json_keep) (map (json_line b) is) = map (text_line b) is"
    using assms filter_json_line by simp
  ultimately show ?thesis by (simp only:)
qed

lemma id_chars_no_sep: "list_all id_char s \<Longrightarrow> CHR '':'' \<notin> set s \<and> CHR '','' \<notin> set s"
  by (metis list_all_iff json_keep_id)

lemma id_chars_FormatInt: "list_all id_char (FormatInt n)"
  using id_char_FormatInt by (simp add: list_all_iff)

lemma Split_text_line: "list_all id_char i \<Longrightarrow> Split (CHR '':'') (text_line b i) = [i, FormatInt (AmountOf b i)]"
proof -
  assume "list_all id_char i"
  then have "CHR '':'' \<notin> set i" "CHR '':'' \<notin> set (FormatInt (AmountOf b i))"
    using id_chars_no_sep id_chars_FormatInt by blast+
  then show ?thesis by (simp add: text_line_def Split_append_sep Split_notin)
qed

lemma parse_text_lines:
  assumes "\<forall>i \<in> set is. ValidAssetID i = None" "distinct is" "\<forall>i \<in> set is. map_of m i = None" "wf_map m"
  shows "\<exists>m'. parse_lines (map (text_line b) is) m = (None, m') \<and> wf_map m'
    \<and> (\<forall>i. map_of m' i = (if i \<in> set is then Some (AmountOf b i) else map_of m i))"
  using assms
proof (induction "is" arbitrary: m)
  case (Cons i xs)
  let ?m = "mput i (AmountOf b i) m"
  have v: "ValidAssetID i = None" using Cons.prems(1) by simp
  then have sp: "Split (CHR '':'') (text_line b i) = [i, FormatInt (AmountOf b i)]"
    using valid_id_chars Split_text_line by blast
  have "parse_lines (map (text_line b) (i # xs)) m = parse_lines (map (text_line b) xs) ?m"
    using v Cons.prems(3) by (simp add: sp ParseInt_FormatInt mhas_def)
  moreover have "\<exists>m'. parse_lines (map (text_line b) xs) ?m = (None, m') \<and> wf_map m'
    \<and> (\<forall>j. map_of m' j = (if j \<in> set xs then Some (AmountOf b j) else map_of ?m j))"
    using Cons.prems by (intro Cons.IH) (auto simp: gomap_simps wf_mput)
  ultimately show ?case using Cons.prems(2) by (fastforce simp: gomap_simps)
qed simp

text \<open>The lines of a marshalled map, split at the commas, are parsed to the map.\<close>

lemma parse_joined_lines:
  assumes "\<forall>i \<in> set is. ValidAssetID i = None" "distinct is"
  obtains m where "wf_map m" "\<forall>i. map_of m i = (if i \<in> set is then Some (AmountOf b i) else None)"
    "(if Join (map (text_line b) is) '','' \<noteq> ''''
      then parse_lines (Split (CHR '','') (Join (map (text_line b) is) '','')) [] else (None, [])) = (None, m)"
proof -
  obtain m where m: "parse_lines (map (text_line b) is) [] = (None, m)" "wf_map m"
    "\<forall>i. map_of m i = (if i \<in> set is then Some (AmountOf b i) else None)"
    using parse_text_lines [of "is" "[]" b] assms by (auto simp: wf_map_def)
  show ?thesis
  proof (cases "is = []")
    case True
    then show ?thesis using m by (intro that [of m]) auto
  next
    case False
    have "CHR '','' \<notin> set (text_line b i)" if "i \<in> set is" for i
      using that assms(1) valid_id_chars [of i] id_chars_no_sep [of i] id_chars_no_sep [OF id_chars_FormatInt, of "AmountOf b i"]
      by (simp add: text_line_def)
    then have "Split (CHR '','') (Join (map (text_line b) is) '','') = map (text_line b) is"
      using False by (intro Split_Join) auto
    moreover have "Join (map (text_line b) is) '','' \<noteq> ''''"
      using False by (cases "is"; cases "tl is") (auto simp: text_line_def)
    ultimately show ?thesis using m by (intro that [of m]) auto
  qed
qed

text \<open>
  C22: reading the JSON text of a valid set of balances gives back the same amounts, when the JSON
  library accepts the text.
\<close>

theorem UnmarshalJSON_MarshalJSON:
  assumes "wf_bals b" "MarshalJSON b = Inr data" "floatMap data = None"
  shows "\<exists>b'. UnmarshalJSON floatMap data = (None, b') \<and> (\<forall>i. AmountOf b' i = AmountOf b i)"
proof -
  let ?is = "string_sort (AssetIDs b)"
  have v: "Balances_Validate b True = None"
    using assms(2) by (auto simp: MarshalJSON_def split: option.splits)
  have d: "data = ''{'' @ Join (map (json_line b) ?is) '','' @ ''}''"
    using Marshal_text [OF assms(1) v] assms(2) by simp
  have ids: "ValidAssetID i = None" if "i \<in> set ?is" for i
    using that v by (auto simp: Balances_Validate_True AssetIDs_def)
  then have chars: "\<forall>i \<in> set ?is. list_all id_char i" using valid_id_chars by blast
  have s: "filter json_keep data = Join (map (text_line b) ?is) '',''"
    unfolding d by (rule filter_marshalled [OF chars])
  from ids distinct_string_sort [OF distinct_AssetIDs [OF assms(1)]]
  obtain m where m: "wf_map m" "\<forall>i. map_of m i = (if i \<in> set ?is then Some (AmountOf b i) else None)"
    and lines: "(if Join (map (text_line b) ?is) '','' \<noteq> '''' then parse_lines (Split (CHR '','') (Join (map (text_line b) ?is) '','')) []
      else (None, [])) = (None, m)"
    using parse_joined_lines [of ?is b] by blast
  have "i \<in> set ?is" if "(i, n) \<in> set m" for i n
    using that m by (auto simp: wf_map_def split: if_splits)
  then have "Balances_Validate (mkBals m) True = None"
    using ids valid_id_chars unfolding Balances_Validate_True by (auto simp: mkBals_def entries_def)
  then have "UnmarshalJSON floatMap data = (None, mkBals m)"
    using assms(3) lines by (simp add: UnmarshalJSON_def s Let_def)
  moreover have "AmountOf (mkBals m) i = AmountOf b i" for i
  proof -
    have "AmountOf (mkBals m) i = mget 0 m i" by (simp add: AmountOf_def mkBals_def)
    then show ?thesis using m(2) assms(1) by (simp add: mget_def set_AssetIDs)
  qed
  ultimately show ?thesis by blast
qed

theorem UnmarshalJSON_MarshalJSON_witness:
  "\<exists>b'. UnmarshalJSON (\<lambda>_. None) [CHR ''{'', CHR 34, CHR ''A'', CHR 34, CHR '':'', CHR ''5'', CHR ''}''] = (None, b')
     \<and> AmountOf b' ''A'' = 5"
proof -
  have w: "wf_bals (mkBals [(''A'', 5)])"
    "MarshalJSON (mkBals [(''A'', 5)]) = Inr [CHR ''{'', CHR 34, CHR ''A'', CHR 34, CHR '':'', CHR ''5'', CHR ''}'']"
    by code_simp+
  have "AmountOf (mkBals [(''A'', 5)]) ''A'' = 5" by code_simp
  then show ?thesis
    using UnmarshalJSON_MarshalJSON [OF w, of "\<lambda>_. None"] by metis
qed

text \<open>
  A JSON number with a fraction is accepted and read without its decimal point: \<open>{"A":1.5}\<close> gives
  an amount of 15.
\<close>

theorem UnmarshalJSON_drops_point:
  "UnmarshalJSON (\<lambda>_. None) ([CHR ''{'', CHR 34] @ ''A'' @ [CHR 34] @ '':1.5}'') = (None, mkBals [(''A'', 15)])"
proof -
  have "filter json_keep ([CHR ''{'', CHR 34] @ ''A'' @ [CHR 34] @ '':1.5}'') = ''A:15''" by code_simp
  moreover have "parse_lines (Split (CHR '','') ''A:15'') [] = (None, [(''A'', 15)])"
  proof -
    have "FormatInt 15 = ''15''" "Split (CHR '','') ''A:15'' = [''A:15'']" "Split (CHR '':'') ''A:15'' = [''A'', ''15'']"
      "ValidAssetID ''A'' = None"
      by code_simp+
    then show ?thesis using ParseInt_FormatInt [of 15] by (simp add: mhas_def mput_def)
  qed
  moreover have "Balances_Validate (mkBals [(''A'', 15)]) True = None" by code_simp
  ultimately show ?thesis by (simp only: UnmarshalJSON_def Let_def option.case prod.case if_True list.distinct simp_thms)
qed

end
