(* ===== verification/Module.thy ===== *)
theory Module
  imports Tracking
begin

text \<open>
  \<open>src/ledger/types/module.go\<close>: the snapshot of the module's assets and debts, with the change
  tracking of \<open>Tracking\<close>. The JSON library is the parameters \<open>marshal\<close> and \<open>unmarshal\<close>, as for
  positions. \<open>Validate\<close> does not test \<open>TotalSupplySnapshots\<close> for nil before it reads it: its model
  is an option, \<open>None\<close> for the panic.
\<close>

record ModuleFields =
  Module_Balance :: "Balances option"
  Module_Supplied :: "Balances option"
  Virtual :: "Balances option"
  Borrowed :: "Balances option"
  CouponFunds :: "Balances option"
  DollarCouponFundSources :: "Balances option"
  TotalSupplySnapshots :: "Balances option"
  Module_LastUpdated :: int64
  Module_Sequence :: uint64

record Module = ModuleFields +
  Module_original :: string
  Module_originalSequence :: uint64

type_synonym mod_marshal = "ModuleFields \<Rightarrow> string option"
type_synonym mod_unmarshal = "string \<Rightarrow> ModuleFields \<Rightarrow> error option \<times> ModuleFields"

abbreviation mod_fields :: "Module \<Rightarrow> ModuleFields" where
  "mod_fields m \<equiv> ModuleFields.truncate m"

definition with_mod_fields :: "ModuleFields \<Rightarrow> string \<Rightarrow> uint64 \<Rightarrow> Module" where
  "with_mod_fields f orig oseq = ModuleFields.extend f (Module.fields orig oseq)"

definition zero_module :: ModuleFields where
  "zero_module = \<lparr>Module_Balance = None, Module_Supplied = None, Virtual = None, Borrowed = None,
     CouponFunds = None, DollarCouponFundSources = None, TotalSupplySnapshots = None,
     Module_LastUpdated = 0, Module_Sequence = 0\<rparr>"

definition Module_Init :: "mod_marshal \<Rightarrow> Module \<Rightarrow> Module" where
  "Module_Init marshal m =
     (let m = m\<lparr>Module_Balance := non_nil (Module_Balance m)\<rparr>;
          m = m\<lparr>Module_Supplied := non_nil (Module_Supplied m)\<rparr>;
          m = m\<lparr>Virtual := non_nil (Virtual m)\<rparr>;
          m = m\<lparr>Borrowed := non_nil (Borrowed m)\<rparr>;
          m = m\<lparr>CouponFunds := non_nil (CouponFunds m)\<rparr>;
          m = m\<lparr>DollarCouponFundSources := non_nil (DollarCouponFundSources m)\<rparr>;
          m = m\<lparr>TotalSupplySnapshots := non_nil (TotalSupplySnapshots m)\<rparr>
      in if Module_original m = ''''
         then (case marshal (mod_fields m) of None \<Rightarrow> m
               | Some j \<Rightarrow> m\<lparr>Module_original := j, Module_originalSequence := Module_Sequence m\<rparr>)
         else m)"

definition Module_MarshalBinary :: "mod_marshal \<Rightarrow> Module \<Rightarrow> string option" where
  "Module_MarshalBinary marshal m = marshal (mod_fields m)"

definition Module_UnmarshalBinary ::
  "mod_marshal \<Rightarrow> mod_unmarshal \<Rightarrow> string \<Rightarrow> Module \<Rightarrow> error option \<times> Module" where
  "Module_UnmarshalBinary marshal unmarshal data m =
     (let (err, f) = unmarshal data (mod_fields m)
      in (err, Module_Init marshal (with_mod_fields f (Module_original m) (Module_originalSequence m))))"

definition InitialModule :: "mod_marshal \<Rightarrow> Module" where
  "InitialModule marshal =
     Module_Init marshal (with_mod_fields (zero_module\<lparr>Module_Sequence := 0, Module_LastUpdated := 0\<rparr>) '''' 0)"

definition snapshot_error :: "string \<times> int64 \<Rightarrow> error option" where
  "snapshot_error = (\<lambda>(id', amt). if amt <s - 1 \<or> amt = 0
     then Some (Data (''module Total Supply Snapshots: must be > 0 or == -1 ('' @ FormatInt amt @ '' '' @ id' @ '')''))
     else None)"

definition Module_Validate :: "Module \<Rightarrow> error option option" where
  "Module_Validate m =
     (if Module_Balance m = None \<or> Module_Supplied m = None \<or> Borrowed m = None \<or> Virtual m = None
        \<or> CouponFunds m = None \<or> DollarCouponFundSources m = None then Some (Some (Data ''nil Balances in Module''))
      else case validate_field (Module_Balance m) False ''module Balance'' of Some e \<Rightarrow> Some (Some e) | None \<Rightarrow>
        (case validate_field (Module_Supplied m) False ''module Supplied'' of Some e \<Rightarrow> Some (Some e) | None \<Rightarrow>
        (case validate_field (Virtual m) False ''module Virtual'' of Some e \<Rightarrow> Some (Some e) | None \<Rightarrow>
        (case validate_field (Borrowed m) False ''module Borrowed'' of Some e \<Rightarrow> Some (Some e) | None \<Rightarrow>
        (case validate_field (CouponFunds m) False ''module Coupon Funds'' of Some e \<Rightarrow> Some (Some e) | None \<Rightarrow>
        (case validate_field (DollarCouponFundSources m) False ''module Dollar Coupon Fund Sources'' of Some e \<Rightarrow> Some (Some e) | None \<Rightarrow>
        (case TotalSupplySnapshots m of None \<Rightarrow> None | Some snaps \<Rightarrow>
        (case validate_field (Some snaps) True ''module Total Supply Snapshots'' of Some e \<Rightarrow> Some (Some e) | None \<Rightarrow>
        (case first_error snapshot_error (entries snaps) of Some e \<Rightarrow> Some (Some e) | None \<Rightarrow>
         if Module_original m = '''' then Some (Some (NewInternal ''module position not initialized''))
         else Some None)))))))))"

definition NewModule ::
  "mod_marshal \<Rightarrow> Balances option \<Rightarrow> Balances option \<Rightarrow> Balances option \<Rightarrow> Balances option
     \<Rightarrow> Balances option \<Rightarrow> Balances option \<Rightarrow> int64 \<Rightarrow> uint64 \<Rightarrow> (Module \<times> error option) option" where
  "NewModule marshal balance supplied borrowed virtual coupon sources lastUpdated sequence =
     (let m = with_mod_fields (zero_module\<lparr>Module_Balance := balance, Module_Supplied := supplied,
            Borrowed := borrowed, Virtual := virtual, CouponFunds := coupon,
            DollarCouponFundSources := sources, Module_Sequence := sequence,
            Module_LastUpdated := lastUpdated\<rparr>) '''' 0;
          m = Module_Init marshal m
      in map_option (\<lambda>err. (m, err)) (Module_Validate m))"

definition Module_String :: "mod_marshal \<Rightarrow> Module \<Rightarrow> string" where
  "Module_String marshal m = json_text marshal (mod_fields m)"

definition Module_IsModified :: "mod_marshal \<Rightarrow> Module \<Rightarrow> bool" where
  "Module_IsModified marshal m = (Module_original m \<noteq> Module_String marshal m)"

definition Module_NextSequence :: "Module \<Rightarrow> uint64" where
  "Module_NextSequence m = Module_originalSequence m + 1"

definition Module_Copy :: "mod_marshal \<Rightarrow> mod_unmarshal \<Rightarrow> Module \<Rightarrow> Module" where
  "Module_Copy marshal unmarshal m =
     (let j = json_text marshal (mod_fields m);
          (_, f) = unmarshal j zero_module
      in with_mod_fields f (Module_original m) (Module_originalSequence m))"

definition Module_Snapshot :: "mod_marshal \<Rightarrow> mod_unmarshal \<Rightarrow> Module \<Rightarrow> Module" where
  "Module_Snapshot marshal unmarshal m =
     (let j = json_text marshal (mod_fields m);
          (_, f) = unmarshal j zero_module
      in Module_Init marshal (with_mod_fields f '''' 0))"

section \<open>Tracking and validation\<close>

lemma with_mod_fields_simps [simp]:
  "mod_fields (with_mod_fields f o' s) = f" "Module_original (with_mod_fields f o' s) = o'"
  "Module_originalSequence (with_mod_fields f o' s) = s"
  by (simp_all add: with_mod_fields_def ModuleFields.defs Module.defs)

lemma mod_fields_select [simp]:
  "Module_Sequence (mod_fields m) = Module_Sequence m"
  by (simp add: ModuleFields.defs)

definition fill_module :: "ModuleFields \<Rightarrow> ModuleFields" where
  "fill_module f = f\<lparr>Module_Balance := non_nil (Module_Balance f), Module_Supplied := non_nil (Module_Supplied f),
     Virtual := non_nil (Virtual f), Borrowed := non_nil (Borrowed f), CouponFunds := non_nil (CouponFunds f),
     DollarCouponFundSources := non_nil (DollarCouponFundSources f),
     TotalSupplySnapshots := non_nil (TotalSupplySnapshots f)\<rparr>"

lemma Module_Init_fields [simp]: "mod_fields (Module_Init marshal m) = fill_module (mod_fields m)"
  by (simp add: Module_Init_def fill_module_def ModuleFields.defs Let_def split: option.splits)

lemma Module_Init_original:
  "Module_original (Module_Init marshal m) =
     (if Module_original m = '''' then json_text marshal (fill_module (mod_fields m)) else Module_original m)"
  "Module_originalSequence (Module_Init marshal m) =
     (if Module_original m = '''' \<and> marshal (fill_module (mod_fields m)) \<noteq> None then Module_Sequence m
      else Module_originalSequence m)"
  by (simp_all add: Module_Init_def json_text_def fill_module_def ModuleFields.defs Let_def split: option.splits)

interpretation md: tracked mod_fields Module_original Module_originalSequence Module_Sequence marshal
  "Module_Init marshal" "Module_IsModified marshal" Module_NextSequence for marshal
  by unfold_locales
    (auto simp: Module_Init_original json_text_def Module_IsModified_def Module_String_def
      Module_NextSequence_def fill_module_def)

lemma or_else_ok: "(case a of None \<Rightarrow> b | Some e \<Rightarrow> Some (Some e)) = Some None \<longleftrightarrow> a = None \<and> b = Some None"
  and or_else_panic: "(case a of None \<Rightarrow> b | Some e \<Rightarrow> Some (Some e)) = None \<longleftrightarrow> a = None \<and> b = None"
  by (cases a, simp_all)+

text \<open>The entries that \<open>Validate\<close> accepts in \<open>TotalSupplySnapshots\<close>: a supply, or -1 for none.\<close>

definition valid_snapshots :: "Balances \<Rightarrow> bool" where
  "valid_snapshots b \<longleftrightarrow> valid_balances True b \<and> (\<forall>(i, n) \<in> set (entries b). n = - 1 \<or> 0 <s n)"

lemma snapshot_error_None: "snapshot_error (i, n) = None \<longleftrightarrow> n = - 1 \<or> 0 <s n"
proof -
  have "n = - 1 \<longleftrightarrow> sint n = - 1" "n = 0 \<longleftrightarrow> sint n = 0"
    by (auto simp: sint_0_iff_64 dest!: arg_cong [of "sint n" "- 1" "of_int :: int \<Rightarrow> int64"])
  then show ?thesis by (auto simp: snapshot_error_def word_sless_alt)
qed

text \<open>
  \<open>Validate\<close> of a module accepts it exactly when all seven sets of balances are present and valid,
  the first six without negative amounts and the snapshots with supplies or -1 only, and the module is
  initialised. It panics exactly when the six others are valid and \<open>TotalSupplySnapshots\<close> is nil.
\<close>

theorem Module_Validate_spec:
  "(Module_Validate m = Some None \<longleftrightarrow>
      (\<forall>b \<in> {Module_Balance m, Module_Supplied m, Virtual m, Borrowed m, CouponFunds m, DollarCouponFundSources m}.
         \<exists>c. b = Some c \<and> valid_balances False c)
      \<and> (\<exists>c. TotalSupplySnapshots m = Some c \<and> valid_snapshots c) \<and> Module_original m \<noteq> '''')
   \<and> (Module_Validate m = None \<longleftrightarrow>
      (\<forall>b \<in> {Module_Balance m, Module_Supplied m, Virtual m, Borrowed m, CouponFunds m, DollarCouponFundSources m}.
         \<exists>c. b = Some c \<and> valid_balances False c)
      \<and> TotalSupplySnapshots m = None)"
proof (cases "Module_Balance m = None \<or> Module_Supplied m = None \<or> Borrowed m = None \<or> Virtual m = None
        \<or> CouponFunds m = None \<or> DollarCouponFundSources m = None")
  case True
  then show ?thesis by (auto simp: Module_Validate_def)
next
  case False
  have snaps: "first_error snapshot_error (entries c) = None \<longleftrightarrow> (\<forall>(i, n) \<in> set (entries c). n = - 1 \<or> 0 <s n)" for c
    by (auto simp: first_error_None snapshot_error_None)
  show ?thesis
  proof (cases "TotalSupplySnapshots m")
    case None
    then show ?thesis
      unfolding Module_Validate_def if_not_P [OF False] or_else_ok or_else_panic validate_field_None
      using False by auto
  next
    case (Some c)
    have init: "(if Module_original m = '''' then Some (Some e) else Some None) = Some None \<longleftrightarrow> Module_original m \<noteq> ''''"
      "(if Module_original m = '''' then Some (Some e) else Some None) \<noteq> None" for e :: error
      by simp_all
    show ?thesis
      unfolding Module_Validate_def if_not_P [OF False] or_else_ok or_else_panic validate_field_None
        Some option.case snaps init valid_snapshots_def
      using False by auto
  qed
qed


theorem Module_Validate_spec_witness:
  "Module_Validate (with_mod_fields (zero_module\<lparr>Module_Balance := Some EmptyBalances, Module_Supplied := Some EmptyBalances,
     Virtual := Some EmptyBalances, Borrowed := Some EmptyBalances, CouponFunds := Some EmptyBalances,
     DollarCouponFundSources := Some EmptyBalances\<rparr>) ''{}'' 0) = None"
  using Module_Validate_spec [of "with_mod_fields (zero_module\<lparr>Module_Balance := Some EmptyBalances,
     Module_Supplied := Some EmptyBalances, Virtual := Some EmptyBalances, Borrowed := Some EmptyBalances,
     CouponFunds := Some EmptyBalances, DollarCouponFundSources := Some EmptyBalances\<rparr>) ''{}'' 0"]
  by (simp add: with_mod_fields_def zero_module_def ModuleFields.defs Module.defs)

end
