(* ===== verification/Stablecoin.thy ===== *)
theory Stablecoin
  imports AssetData BalancesLaws "HOL-Library.Signed_Division"
begin

text \<open>
  \<open>src/helpers/users.go\<close>: simple stablecoin equivalence. Both functions mutate the position they are
  given: the model returns the receiver's new state beside the returned position, which is the
  receiver itself on the early returns and a copy at the end. An outer option is \<open>None\<close> where the code
  panics (a nil pointer, or a division by an overflowed power of ten).
\<close>

definition exp10 :: "int64 \<Rightarrow> int64" where
  "exp10 x = (((*) 10) ^^ nat (sint x)) 1"

text \<open>Go's division of signed integers truncates.\<close>

definition int64_div :: "int64 \<Rightarrow> int64 \<Rightarrow> int64 option" where
  "int64_div n m = (if m = 0 then None else Some (of_int (sint n sdiv sint m)))"

definition applyDecimalsThenRound :: "int64 \<Rightarrow> int64 \<Rightarrow> bool \<Rightarrow> int64 option" where
  "applyDecimalsThenRound n x roundUp =
     (let m = exp10 x
      in case int64_div n m of None \<Rightarrow> None
         | Some result \<Rightarrow> Some (if result * m <s n \<and> roundUp then result + 1 else result))"

text \<open>
  The loop of \<open>ActivateStablecoinEquivalence\<close> over the positive assets. Its result says whether it
  returned early, and the position it leaves.
\<close>

fun convert_assets ::
  "AssetData \<Rightarrow> string \<Rightarrow> int64 \<Rightarrow> int64 \<Rightarrow> string list \<Rightarrow> Position \<Rightarrow> int64 \<Rightarrow> (bool \<times> Position) option" where
  "convert_assets assets required decimals dollarsToConvert [] position dollarsConverted = Some (False, position)"
| "convert_assets assets required decimals dollarsToConvert (assetID # ids) position dollarsConverted =
     (if dollarsToConvert \<le>s dollarsConverted then Some (True, position)
      else let continue = convert_assets assets required decimals dollarsToConvert ids
      in if \<not> IsCurrency assets assetID \<or> assetID = required then continue position dollarsConverted
      else case Decimals assets assetID of Inl _ \<Rightarrow> continue position dollarsConverted
      | Inr cDecimals \<Rightarrow>
        (case Owned position of None \<Rightarrow> None | Some owned \<Rightarrow>
        (case applyDecimalsThenRound (AmountOf owned assetID) cDecimals False of None \<Rightarrow> None
        | Some dollars \<Rightarrow>
          let dollars = (if dollarsToConvert - dollarsConverted <s dollars then dollarsToConvert - dollarsConverted else dollars)
          in if dollars \<le>s 0 then continue position dollarsConverted
             else let gain = NewBalance_int64 required (dollars * exp10 decimals);
                      loss = NewBalance_int64 assetID (dollars * exp10 cDecimals);
                      (owned, err) = SafeSub owned (Balance_Asset loss) (Balance_Amt loss);
                      position = position\<lparr>Owned := Some owned\<rparr>
                  in if err \<noteq> None then continue position dollarsConverted
                     else let position = position\<lparr>Owned := Some (AddAmount owned (Balance_Asset gain) (Balance_Amt gain))\<rparr>
                     in case SSEQ position of None \<Rightarrow> None
                        | Some sseq \<Rightarrow>
                          let position = position\<lparr>SSEQ := Some (SubAmount sseq (Balance_Asset loss) (Balance_Amt loss))\<rparr>;
                              sseq = SubAmount sseq (Balance_Asset loss) (Balance_Amt loss);
                              position = position\<lparr>SSEQ := Some (AddAmount sseq (Balance_Asset gain) (Balance_Amt gain))\<rparr>
                          in continue position (dollarsConverted + dollars))))"

definition ActivateStablecoinEquivalence ::
  "pos_marshal \<Rightarrow> pos_unmarshal \<Rightarrow> AssetData \<Rightarrow> Position \<Rightarrow> Balance \<Rightarrow> (Position \<times> Position) option" where
  "ActivateStablecoinEquivalence marshal unmarshal assets position balanceRequired =
     (if \<not> IsCurrency assets (Balance_Asset balanceRequired) then Some (position, position)
      else if Balance_Amt balanceRequired = 0 then Some (position, position)
      else case Owned position of None \<Rightarrow> None | Some owned \<Rightarrow>
        if HasAtLeast owned (Balance_Asset balanceRequired) (Balance_Amt balanceRequired) then Some (position, position)
        else case Decimals assets (Balance_Asset balanceRequired) of Inl _ \<Rightarrow> Some (position, position)
        | Inr decimals \<Rightarrow>
          let dollarsToConvert = Balance_Amt balanceRequired - AmountOf owned (Balance_Asset balanceRequired)
          in case applyDecimalsThenRound dollarsToConvert decimals True of None \<Rightarrow> None
          | Some dollarsToConvert \<Rightarrow>
            (case convert_assets assets (Balance_Asset balanceRequired) decimals dollarsToConvert
                (PositiveAssets owned) position 0 of None \<Rightarrow> None
             | Some (True, position) \<Rightarrow> Some (position, position)
             | Some (False, position) \<Rightarrow> Some (position, Position_Copy marshal unmarshal position)))"

definition int64_min :: "int64 \<Rightarrow> int64 \<Rightarrow> int64" where
  "int64_min a b = (if b <s a then b else a)"

definition CleanupStablecoinEquivalence ::
  "pos_marshal \<Rightarrow> pos_unmarshal \<Rightarrow> AssetData \<Rightarrow> Position \<Rightarrow> (Position \<times> Position) option" where
  "CleanupStablecoinEquivalence marshal unmarshal assets position =
     (case SSEQ position of None \<Rightarrow> None | Some sseq \<Rightarrow>
      let negativeSSEQ = Negative sseq; positiveSSEQ = Positive sseq
      in if length (AssetIDs negativeSSEQ) < 1 \<or> length (AssetIDs positiveSSEQ) < 1 then Some (position, position)
      else let negAssetID = AssetIDs negativeSSEQ ! 0; posAssetID = AssetIDs positiveSSEQ ! 0;
               negBal = SelectPositive negativeSSEQ negAssetID; posBal = SelectPositive positiveSSEQ posAssetID
      in if \<not> IsCurrency assets negAssetID then Some (position, position)
      else if \<not> IsCurrency assets posAssetID then Some (position, position)
      else case Decimals assets posAssetID of Inl _ \<Rightarrow> Some (position, position)
      | Inr posExponent \<Rightarrow> (case Decimals assets negAssetID of Inl _ \<Rightarrow> Some (position, position)
      | Inr negExponent \<Rightarrow>
        let minimumExponent = int64_min posExponent negExponent
        in case Owned position of None \<Rightarrow> None | Some owned \<Rightarrow>
        (case (applyDecimalsThenRound (AmountOf owned posAssetID) (posExponent - minimumExponent) False,
               applyDecimalsThenRound (Balance_Amt posBal) (posExponent - minimumExponent) False,
               applyDecimalsThenRound (Balance_Amt negBal) (negExponent - minimumExponent) False) of
          (Some amtOwned, Some amtPosEquivalence, Some amtNegEquivalence) \<Rightarrow>
            let amount = int64_min (int64_min amtOwned amtPosEquivalence) amtNegEquivalence
            in if amount \<le>s 0 then Some (position, position)
            else let gainAssetID = Balance_Asset negBal; lossAssetID = Balance_Asset posBal;
                     gainAmount = amount * exp10 (negExponent - minimumExponent);
                     lossAmount = amount * exp10 (posExponent - minimumExponent);
                     (owned, err) = SafeSub owned lossAssetID lossAmount;
                     position = position\<lparr>Owned := Some owned\<rparr>
                 in if err \<noteq> None then Some (position, position)
                 else let position = position\<lparr>Owned := Some (AddAmount owned gainAssetID gainAmount)\<rparr>;
                          sseq = SubAmount sseq lossAssetID lossAmount;
                          position = position\<lparr>SSEQ := Some (AddAmount sseq gainAssetID gainAmount)\<rparr>
                      in Some (position, Position_Copy marshal unmarshal position)
        | _ \<Rightarrow> None)))"

section \<open>Owned amounts and their record in SSEQ move together\<close>

lemma SafeSub_result:
  assumes "SafeSub b a n = (b', err)" "wf_bals b"
  shows "wf_bals b' \<and> (err \<noteq> None \<longrightarrow> b' = b) \<and>
    (err = None \<longrightarrow> 0 \<le> sint n \<and> (n = 0 \<or> sint n \<le> bal b a) \<and> (\<forall>i. AmountOf b' i = AmountOf b i - (if i = a \<and> a \<noteq> '''' then n else 0)))"
  using assms by (auto simp: SafeSub_def HasAtLeast_iff word_sless_alt bal_simps split: if_splits)

text \<open>What one conversion, and any number of them, may do to the two sets of balances.\<close>

definition mirrored :: "string \<Rightarrow> Balances \<Rightarrow> Balances \<Rightarrow> Balances \<Rightarrow> Balances \<Rightarrow> bool" where
  "mirrored required o' s' ob sb \<longleftrightarrow> wf_bals o' \<and> wf_bals s'
     \<and> (\<forall>i. AmountOf o' i - AmountOf ob i = AmountOf s' i - AmountOf sb i)
     \<and> (\<forall>i. i \<noteq> required \<longrightarrow> bal o' i = bal ob i \<or> 0 \<le> bal o' i \<and> bal o' i \<le> bal ob i)"

lemma mirrored_refl: "wf_bals ob \<Longrightarrow> wf_bals sb \<Longrightarrow> mirrored r ob sb ob sb"
  by (simp add: mirrored_def)

lemma mirrored_trans:
  assumes "mirrored r o2 s2 o1 s1" "mirrored r o1 s1 ob sb"
  shows "mirrored r o2 s2 ob sb"
proof -
  have "AmountOf o2 i - AmountOf ob i = AmountOf s2 i - AmountOf sb i" for i
  proof -
    have "AmountOf o2 i - AmountOf o1 i + (AmountOf o1 i - AmountOf ob i)
        = AmountOf s2 i - AmountOf s1 i + (AmountOf s1 i - AmountOf sb i)"
      using assms by (simp only: mirrored_def)
    then show ?thesis by simp
  qed
  moreover have "bal o2 i = bal ob i \<or> 0 \<le> bal o2 i \<and> bal o2 i \<le> bal ob i" if "i \<noteq> r" for i
  proof -
    have "bal o2 i = bal o1 i \<or> 0 \<le> bal o2 i \<and> bal o2 i \<le> bal o1 i"
      "bal o1 i = bal ob i \<or> 0 \<le> bal o1 i \<and> bal o1 i \<le> bal ob i"
      using assms that unfolding mirrored_def by blast+
    then show ?thesis by linarith
  qed
  ultimately show ?thesis using assms(1) unfolding mirrored_def by blast
qed

lemma update_same: "Owned p = Some ob \<Longrightarrow> SSEQ p = Some sb \<Longrightarrow> p\<lparr>Owned := Some ob, SSEQ := Some sb\<rparr> = p"
  by (cases p) simp

lemma mirrored_exchange:
  assumes "wf_bals ob" "wf_bals sb" "SafeSub ob la lm = (o1, None)" "ga = r \<or> ga = ''''"
  shows "mirrored r (AddAmount o1 ga gn) (AddAmount (SubAmount sb la lm) ga gn) ob sb"
proof -
  from SafeSub_result [OF assms(3,1)] have s: "wf_bals o1" "0 \<le> sint lm" "lm = 0 \<or> sint lm \<le> bal ob la"
    "\<forall>i. AmountOf o1 i = AmountOf ob i - (if i = la \<and> la \<noteq> '''' then lm else 0)" by auto
  have "sint (AmountOf ob la - lm) = bal ob la - sint lm" if "lm \<noteq> 0"
    using s(2,3) that sint_diff_nonneg [of lm "AmountOf ob la"] by simp
  then have "sint (AmountOf ob la - lm) = bal ob la
      \<or> 0 \<le> sint (AmountOf ob la - lm) \<and> sint (AmountOf ob la - lm) \<le> bal ob la"
    using s(2,3) by (cases "lm = 0") auto
  with s assms show ?thesis
    by (auto simp: mirrored_def bal_simps)
qed

text \<open>One round of the loop: it stops, passes the asset over, or exchanges some of it.\<close>

lemma convert_assets_step:
  assumes run: "convert_assets assets r d n (a # ids) p c = Some (early, p')"
    and p: "Owned p = Some ob" "SSEQ p = Some sb" "wf_bals ob"
  obtains (stop) "p' = p" | (skip) "convert_assets assets r d n ids p c = Some (early, p')"
    | (exchange) la lm ga gn o1 c' where "SafeSub ob la lm = (o1, None)" "ga = r \<or> ga = ''''"
      "convert_assets assets r d n ids
         (p\<lparr>Owned := Some (AddAmount o1 ga gn), SSEQ := Some (AddAmount (SubAmount sb la lm) ga gn)\<rparr>) c' = Some (early, p')"
proof (cases "n \<le>s c \<or> \<not> IsCurrency assets a \<or> a = r")
  case True
  then show thesis using run stop skip by (auto split: if_splits)
next
  case cur: False
  show thesis
  proof (cases "Decimals assets a")
    case (Inl e)
    with cur run skip show thesis by simp
  next
    case (Inr cd)
    then obtain k where k: "applyDecimalsThenRound (AmountOf ob a) cd False = Some k"
      using cur run p(1) by (cases "applyDecimalsThenRound (AmountOf ob a) cd False") (auto simp: Let_def)
    define dl where "dl = (if n - c <s k then n - c else k)"
    obtain la lm ga gn where l: "NewBalance_int64 a (dl * exp10 cd) = \<lparr>Balance_Asset = la, Balance_Amount = lm\<rparr>"
      and g: "NewBalance_int64 r (dl * exp10 d) = \<lparr>Balance_Asset = ga, Balance_Amount = gn\<rparr>"
      by (metis Balance.cases)
    have ga: "ga = r \<or> ga = ''''" using g by (cases "r = ''''") auto
    obtain o1 err where s: "SafeSub ob la lm = (o1, err)" by force
    have p1: "p\<lparr>Owned := Some o1\<rparr> = p" if "err \<noteq> None"
      using SafeSub_result [OF s p(3)] that p(1) by (cases p) simp
    consider "dl \<le>s 0" | "\<not> dl \<le>s 0" "err \<noteq> None" | "\<not> dl \<le>s 0" "err = None" by blast
    then show thesis
    proof cases
      case 3
      then show thesis
        using cur Inr k run p(1,2) s l g
        by (intro exchange [OF s [unfolded 3(2)] ga, of gn "c + dl"]) (simp add: dl_def [symmetric] Let_def Balance_Amt_def)
    next
      case 2
      then show thesis using cur Inr k run p p1 s l g
        by (intro skip) (simp add: dl_def [symmetric] Let_def Balance_Amt_def)
    qed (use cur Inr k run p skip in \<open>simp add: dl_def Let_def\<close>)
  qed
qed

lemma convert_assets_mirrored:
  assumes "convert_assets assets r d n ids p c = Some (early, p')"
    and "Owned p = Some ob" "SSEQ p = Some sb" "wf_bals ob" "wf_bals sb"
  shows "\<exists>o' s'. p' = p\<lparr>Owned := Some o', SSEQ := Some s'\<rparr> \<and> mirrored r o' s' ob sb"
  using assms
proof (induction ids arbitrary: p c ob sb)
  case Nil
  then show ?case using mirrored_refl [of ob sb r] update_same [of p ob sb]
    by (intro exI [of _ ob] exI [of _ sb]) simp
next
  case (Cons a ids)
  from Cons.prems(1-4) show ?case
  proof (cases rule: convert_assets_step)
    case stop
    then show ?thesis using mirrored_refl [OF Cons.prems(4,5)] update_same [OF Cons.prems(2,3)]
      by (intro exI [of _ ob] exI [of _ sb]) simp
  next
    case skip
    then show ?thesis by (rule Cons.IH [OF _ Cons.prems(2-5)])
  next
    case (exchange la lm ga gn o1 c')
    let ?o = "AddAmount o1 ga gn" and ?s = "AddAmount (SubAmount sb la lm) ga gn"
    have m: "mirrored r ?o ?s ob sb"
      by (rule mirrored_exchange [OF Cons.prems(4,5) exchange(1,2)])
    then obtain o' s' where "p' = p\<lparr>Owned := Some o', SSEQ := Some s'\<rparr>" "mirrored r o' s' ?o ?s"
      using Cons.IH [OF exchange(3), of ?o ?s] by (auto simp: mirrored_def)
    then show ?thesis using mirrored_trans [OF _ m] by blast
  qed
qed

text \<open>
  C18: activating the stablecoin equivalence changes nothing but the owned balances and their SSEQ
  record, the two move together in every asset (so the owned amounts minus their record stay the same
  and the conversion can be undone), and no asset other than the required one rises or is taken below
  zero.
\<close>

theorem Activate_mirrors_SSEQ:
  assumes "Owned p = Some ob" "SSEQ p = Some sb" "wf_bals ob" "wf_bals sb"
    and "ActivateStablecoinEquivalence marshal unmarshal assets p req = Some (p', r)"
  shows "\<exists>o' s'. p' = p\<lparr>Owned := Some o', SSEQ := Some s'\<rparr>
    \<and> (\<forall>i. AmountOf o' i - AmountOf ob i = AmountOf s' i - AmountOf sb i)
    \<and> (\<forall>i. i \<noteq> Balance_Asset req \<longrightarrow> bal o' i = bal ob i \<or> 0 \<le> bal o' i \<and> bal o' i \<le> bal ob i)"
proof (cases "p' = p")
  case True
  then show ?thesis using update_same [OF assms(1,2)] by (intro exI [of _ ob] exI [of _ sb]) simp
next
  case False
  then obtain d n early where "convert_assets assets (Balance_Asset req) d n (PositiveAssets ob) p 0 = Some (early, p')"
    using assms(1,5) by (auto simp: ActivateStablecoinEquivalence_def Let_def split: if_splits sum.splits option.splits bool.splits)
  from convert_assets_mirrored [OF this assms(1-4)] show ?thesis by (auto simp: mirrored_def)
qed

definition two_stable :: AssetData where
  "two_stable = fst (RegisterAsset (fst (RegisterAsset zeroAssetData ''EUR'' 0 (FFin 1) (FFin 1) True False True True False False []))
     ''USD'' 0 (FFin 1) (FFin 1) True False True True False False [])"

definition holder :: Position where
  "holder = with_fields (zero_fields\<lparr>UserID := ''u'', Owned := Some (mkBals [(''EUR'', 5)]), SSEQ := Some EmptyBalances\<rparr>) ''x'' 0"

theorem Activate_mirrors_SSEQ_witness:
  "\<exists>p' r o' s'. ActivateStablecoinEquivalence (\<lambda>f. None) (\<lambda>j f. (None, f)) two_stable holder
       \<lparr>Balance_Asset = ''USD'', Balance_Amount = 2\<rparr> = Some (p', r)
     \<and> Owned p' = Some o' \<and> SSEQ p' = Some s' \<and> (\<forall>i. AmountOf o' i - AmountOf (mkBals [(''EUR'', 5)]) i = AmountOf s' i)"
proof -
  let ?a = "ActivateStablecoinEquivalence (\<lambda>f. None) (\<lambda>j f. (None, f)) two_stable holder
       \<lparr>Balance_Asset = ''USD'', Balance_Amount = 2\<rparr>"
  have w: "Owned holder = Some (mkBals [(''EUR'', 5)])" "SSEQ holder = Some EmptyBalances"
    "wf_bals (mkBals [(''EUR'', 5)])" "wf_bals EmptyBalances"
    by code_simp+
  have "?a \<noteq> None" by code_simp
  then obtain p' r where e: "?a = Some (p', r)" by auto
  from Activate_mirrors_SSEQ [OF w e] obtain o' s' where
    "Owned p' = Some o'" "SSEQ p' = Some s'" "\<forall>i. AmountOf o' i - AmountOf (mkBals [(''EUR'', 5)]) i = AmountOf s' i"
    by (auto simp: AmountOf_Empty)
  with e show ?thesis by blast
qed

section \<open>Cleaning up\<close>

lemma exp10_power: "exp10 x = 10 ^ nat (sint x)"
proof -
  have "(((*) 10) ^^ n) 1 = (10 :: int64) ^ n" for n by (induction n) simp_all
  then show ?thesis by (simp add: exp10_def)
qed

lemma pow10_small: "0 \<le> k \<Longrightarrow> k \<le> 18 \<Longrightarrow> (10 :: int) ^ nat k < 2 ^ 63"
proof -
  assume "0 \<le> k" "k \<le> 18"
  then have "(10 :: int) ^ nat k \<le> 10 ^ 18" by (intro power_increasing) auto
  then show ?thesis by simp
qed

lemma sint_exp10: "0 \<le> sint x \<Longrightarrow> sint x \<le> 18 \<Longrightarrow> sint (exp10 x) = 10 ^ nat (sint x)"
proof -
  assume x: "0 \<le> sint x" "sint x \<le> 18"
  have "exp10 x = of_int (10 ^ nat (sint x))" by (simp add: exp10_power)
  then show ?thesis using sint_of_int_64 [of "10 ^ nat (sint x)"] pow10_small [OF x] by simp
qed

lemma applyDecimals_down:
  assumes "0 \<le> sint x" "sint x \<le> 18"
  shows "applyDecimalsThenRound n x False = Some (of_int (sint n sdiv 10 ^ nat (sint x)))"
proof -
  have "exp10 x \<noteq> 0" using sint_exp10 [OF assms] by auto
  then show ?thesis
    using sint_exp10 [OF assms] by (simp add: applyDecimalsThenRound_def int64_div_def Let_def)
qed

text \<open>A positive quotient is the floor, and multiplying back never exceeds the amount divided.\<close>

lemma down_positive:
  fixes a n x :: int64
  assumes "0 \<le> sint x" "sint x \<le> 18" "a = of_int (sint n sdiv 10 ^ nat (sint x))" "0 < sint a"
  shows "0 < sint n \<and> sint a * 10 ^ nat (sint x) \<le> sint n"
proof -
  let ?m = "(10 :: int) ^ nat (sint x)"
  have m: "0 < ?m" by simp
  have d: "0 \<le> \<bar>sint n\<bar> div ?m" "\<bar>sint n\<bar> div ?m * ?m \<le> \<bar>sint n\<bar>" "\<bar>sint n\<bar> div ?m \<le> \<bar>sint n\<bar>"
    using m pos_mod_sign [OF m, of "\<bar>sint n\<bar>"] zdiv_mono2 [of "\<bar>sint n\<bar>" 1 ?m]
    by (auto simp: pos_imp_zdiv_nonneg_iff simp flip: minus_mod_eq_div_mult)
  have q: "sint n sdiv ?m = sgn (sint n) * (\<bar>sint n\<bar> div ?m)"
    by (simp add: signed_divide_int_def)
  have "- (2 ^ 63) \<le> sint n sdiv ?m" "sint n sdiv ?m < 2 ^ 63"
    using sint_range_64 [of n] d(1,3) unfolding q by (auto simp: sgn_if)
  then have "sint a = sint n sdiv ?m"
    using assms(3) by (simp add: signed_of_int signed_take_bit_int_eq_self)
  with assms(4) q d have "0 < sint n" "sint a = \<bar>sint n\<bar> div ?m" by (auto simp: sgn_if split: if_splits)
  with d(2) show ?thesis by simp
qed

lemma sint_mult_bounded:
  fixes x y :: int64
  assumes "0 \<le> sint x" "0 \<le> sint y" "sint x * sint y < 2 ^ 63"
  shows "sint (x * y) = sint x * sint y"
proof -
  have "x * y = of_int (sint x * sint y)" by simp
  then show ?thesis using assms sint_of_int_64 [of "sint x * sint y"] by (simp del: of_int_mult)
qed

lemma scaled_amount:
  assumes "0 \<le> sint x" "sint x \<le> 18" "applyDecimalsThenRound n x False = Some q" "a \<le>s q" "0 < sint a"
  shows "0 < sint (a * exp10 x) \<and> sint (a * exp10 x) = sint a * 10 ^ nat (sint x) \<and> sint (a * exp10 x) \<le> sint n"
proof -
  let ?m = "(10 :: int) ^ nat (sint x)"
  have q: "0 < sint q" "sint a \<le> sint q" using assms(4,5) by (auto simp: word_sle_eq)
  have "sint q * ?m \<le> sint n"
    using down_positive [OF assms(1,2) _ q(1), of n] assms(3) applyDecimals_down [OF assms(1,2), of n] by simp
  moreover have "sint a * ?m \<le> sint q * ?m" using q(2) by (intro mult_right_mono) auto
  ultimately have le: "sint a * ?m \<le> sint n" by linarith
  then have "sint (a * exp10 x) = sint a * ?m"
    using assms(5) sint_exp10 [OF assms(1,2)] sint_range_64 [of n] sint_mult_bounded [of a "exp10 x"] by simp
  with le assms(5) show ?thesis by simp
qed

lemma sint_minus_positive: "0 < sint (- x) \<Longrightarrow> sint (- x) = - sint x" for x :: int64
proof (cases "sint x = - (2 ^ 63)")
  case True
  have "x = of_int (sint x)" by simp
  then have "- x = of_int (2 ^ 63)" unfolding True by simp
  then have "sint (- x) < 0" by simp
  then show "0 < sint (- x) \<Longrightarrow> sint (- x) = - sint x" by simp
next
  case False
  then show "sint (- x) = - sint x" using sint_range_64 [of x] by (intro sint_minus_64) auto
qed

lemma SelectPositive_amount:
  "wf_bals b \<Longrightarrow> 0 <s AmountOf b a \<Longrightarrow> Bals b \<noteq> None \<Longrightarrow>
     SelectPositive b a = \<lparr>Balance_Asset = a, Balance_Amount = AmountOf b a\<rparr>"
  by (cases "a = ''''") (simp_all add: SelectPositive_def AmountOf_entries)

lemma min_le: "int64_min a b \<le>s a" "int64_min a b \<le>s b"
  by (auto simp: int64_min_def word_sle_eq word_sless_alt)

lemma sle_trans: "a \<le>s b \<Longrightarrow> b \<le>s c \<Longrightarrow> a \<le>s c" for a b c :: int64
  by (simp add: word_sle_eq)

lemma exponent_gaps:
  fixes a b :: int64
  assumes "0 \<le> sint a" "sint a \<le> m" "0 \<le> sint b" "sint b \<le> m"
  shows "0 \<le> sint (a - int64_min a b)" "sint (a - int64_min a b) \<le> m"
    "0 \<le> sint (b - int64_min a b)" "sint (b - int64_min a b) \<le> m"
proof -
  have "sint (a - b) = sint a - sint b" "sint (b - a) = sint b - sint a"
    using assms sint_range_64 [of a] sint_range_64 [of b] by (intro sint_diff_64; simp)+
  with assms show "0 \<le> sint (a - int64_min a b)" "sint (a - int64_min a b) \<le> m"
    "0 \<le> sint (b - int64_min a b)" "sint (b - int64_min a b) \<le> m"
    by (auto simp: int64_min_def word_sless_alt)
qed

text \<open>The first asset of each sign, and what \<open>SelectPositive\<close> gives for it.\<close>

lemma first_positive:
  assumes "wf_bals sb" "a \<in> set (AssetIDs (Positive sb))"
  shows "0 <s AmountOf sb a" "SelectPositive (Positive sb) a = \<lparr>Balance_Asset = a, Balance_Amount = AmountOf sb a\<rparr>"
proof -
  have amt: "0 <s AmountOf sb a" "AmountOf (Positive sb) a = AmountOf sb a"
    using assms by (auto simp: set_AssetIDs bal_simps split: if_splits)
  then show "0 <s AmountOf sb a" by blast
  have "wf_bals (Positive sb)" using assms(1) by (simp add: bal_simps)
  from SelectPositive_amount [OF this, of a] amt
  show "SelectPositive (Positive sb) a = \<lparr>Balance_Asset = a, Balance_Amount = AmountOf sb a\<rparr>" by (simp add: Positive_def)
qed

lemma first_negative:
  fixes sb a
  defines "nb \<equiv> SelectPositive (Negative sb) a"
  assumes "wf_bals sb" "a \<in> set (AssetIDs (Negative sb))"
  shows "AmountOf sb a <s 0" "Balance_Asset nb = a"
    "0 < sint (Balance_Amount nb) \<Longrightarrow> sint (Balance_Amount nb) = - bal sb a"
proof -
  have amt: "AmountOf sb a <s 0" "AmountOf (Negative sb) a = - AmountOf sb a"
    using assms by (auto simp: set_AssetIDs bal_simps split: if_splits)
  then show "AmountOf sb a <s 0" "Balance_Asset nb = a"
    "0 < sint (Balance_Amount nb) \<Longrightarrow> sint (Balance_Amount nb) = - bal sb a"
    using sint_minus_positive [of "AmountOf sb a"]
    by (auto simp: nb_def SelectPositive_def AmountOf_entries Let_def word_sless_alt NewBalance_int64_def split: if_splits)
qed

text \<open>A clean-up that changes the position exchanges within the bounds of the record.\<close>

lemma cleanup_exchange:
  assumes "Owned p = Some ob" "SSEQ p = Some sb" "wf_bals sb"
    and "\<forall>i d. Decimals assets i = Inr d \<longrightarrow> 0 \<le> sint d \<and> sint d \<le> 18"
    and "CleanupStablecoinEquivalence marshal unmarshal assets p = Some (p', r)" "p' \<noteq> p"
  obtains pos neg loss gain where "neg \<noteq> pos" "0 < bal sb pos" "bal sb neg < 0"
    "0 < sint loss" "sint loss \<le> bal sb pos" "0 < sint gain" "sint gain \<le> - bal sb neg"
    "p' = p\<lparr>Owned := Some (AddAmount (SubAmount ob pos loss) neg gain),
      SSEQ := Some (AddAmount (SubAmount sb pos loss) neg gain)\<rparr>"
proof -
  let ?neg = "AssetIDs (Negative sb) ! 0" and ?pos = "AssetIDs (Positive sb) ! 0"
  have len: "\<not> (length (AssetIDs (Negative sb)) < 1 \<or> length (AssetIDs (Positive sb)) < 1)"
    using assms(1,2,5,6) by (auto simp: CleanupStablecoinEquivalence_def Let_def)
  then have "?neg \<in> set (AssetIDs (Negative sb))" "?pos \<in> set (AssetIDs (Positive sb))"
    by (auto simp: not_less Suc_le_eq)
  note neg = first_negative [OF assms(3) this(1)] and pos = first_positive [OF assms(3) this(2)]
  define nb where "nb = SelectPositive (Negative sb) ?neg"
  have nb: "Balance_Asset nb = ?neg" using neg(2) by (simp add: nb_def)
  have amt: "bal sb ?neg < 0" "0 < bal sb ?pos" using neg(1) pos(1) by (simp_all add: word_sless_alt)
  obtain pe nexp where D: "Decimals assets ?pos = Inr pe" "Decimals assets ?neg = Inr nexp"
    using assms(2,5,6) len
    by (auto simp: CleanupStablecoinEquivalence_def Let_def split: if_splits sum.splits)
  let ?kp = "pe - int64_min pe nexp" and ?kn = "nexp - int64_min pe nexp"
  have k: "0 \<le> sint ?kp" "sint ?kp \<le> 18" "0 \<le> sint ?kn" "sint ?kn \<le> 18"
    using exponent_gaps [of pe 18 nexp] assms(4) D by blast+
  obtain q1 q2 q3 where q: "applyDecimalsThenRound (AmountOf ob ?pos) ?kp False = Some q1"
    "applyDecimalsThenRound (AmountOf sb ?pos) ?kp False = Some q2"
    "applyDecimalsThenRound (Balance_Amount nb) ?kn False = Some q3"
    using applyDecimals_down k by blast
  define am where "am = int64_min (int64_min q1 q2) q3"
  let ?gain = "am * exp10 ?kn" and ?loss = "am * exp10 ?kp"
  note run = assms(5) [unfolded CleanupStablecoinEquivalence_def assms(1,2) Let_def option.case if_not_P [OF len] D sum.case pos(2)
      Balance_Amt_def nb_def [symmetric] Balance.simps q prod.case am_def [symmetric] nb]
  have am: "0 < sint am" using run assms(6) by (auto simp: word_sle_eq not_le split: if_splits)
  have le: "am \<le>s q1" "am \<le>s q2" "am \<le>s q3"
    unfolding am_def using min_le sle_trans by blast+
  note loss1 = scaled_amount [OF k(1,2) q(1) le(1) am] and loss2 = scaled_amount [OF k(1,2) q(2) le(2) am]
    and gain = scaled_amount [OF k(3,4) q(3) le(3) am]
  have "Bals ob \<noteq> None" using loss1 by (auto simp: AmountOf_def split: option.splits)
  then have safe: "SafeSub ob ?pos ?loss = (SubAmount ob ?pos ?loss, None)"
    using loss1 by (simp add: SafeSub_def HasAtLeast_iff word_sless_alt)
  have p': "p' = p\<lparr>Owned := Some (AddAmount (SubAmount ob ?pos ?loss) ?neg ?gain),
      SSEQ := Some (AddAmount (SubAmount sb ?pos ?loss) ?neg ?gain)\<rparr>"
    using run assms(6) am by (auto simp: safe word_sle_eq split: if_splits)
  show ?thesis
    by (rule that [OF _ amt(2,1) _ _ _ _ p']) (use amt loss2 gain neg(3) in \<open>auto simp: nb_def\<close>)
qed

text \<open>
  C19: cleaning up (with exponents between 0 and 18) changes nothing but the owned balances and their
  SSEQ record, moves the two together in every asset, and brings every entry of the record closer to
  zero without crossing it.
\<close>

theorem Cleanup_shrinks_SSEQ:
  assumes "Owned p = Some ob" "SSEQ p = Some sb" "wf_bals ob" "wf_bals sb"
    and "\<forall>i d. Decimals assets i = Inr d \<longrightarrow> 0 \<le> sint d \<and> sint d \<le> 18"
    and "CleanupStablecoinEquivalence marshal unmarshal assets p = Some (p', r)"
  shows "\<exists>o' s'. p' = p\<lparr>Owned := Some o', SSEQ := Some s'\<rparr>
    \<and> (\<forall>i. AmountOf o' i - AmountOf ob i = AmountOf s' i - AmountOf sb i)
    \<and> (\<forall>i. if 0 \<le> bal sb i then 0 \<le> bal s' i \<and> bal s' i \<le> bal sb i else bal sb i \<le> bal s' i \<and> bal s' i \<le> 0)"
proof (cases "p' = p")
  case True
  then show ?thesis using update_same [OF assms(1,2)] by (intro exI [of _ ob] exI [of _ sb]) simp
next
  case False
  with assms(1,2,4-6) obtain pos neg loss gain where x: "neg \<noteq> pos" "0 < bal sb pos" "bal sb neg < 0"
    "0 < sint loss" "sint loss \<le> bal sb pos" "0 < sint gain" "sint gain \<le> - bal sb neg"
    "p' = p\<lparr>Owned := Some (AddAmount (SubAmount ob pos loss) neg gain),
      SSEQ := Some (AddAmount (SubAmount sb pos loss) neg gain)\<rparr>"
    by (rule cleanup_exchange)
  have "sint (AmountOf sb pos - loss) = bal sb pos - sint loss"
    using x(4,5) sint_range_64 [of "AmountOf sb pos"] by (intro sint_diff_64) auto
  moreover have "sint (AmountOf sb neg + gain) = bal sb neg + sint gain"
    using x(6,7) sint_range_64 [of "AmountOf sb neg"] by (intro sint_add_64) auto
  ultimately show ?thesis
    using x assms(3,4)
    by (intro exI [of _ "AddAmount (SubAmount ob pos loss) neg gain"]
        exI [of _ "AddAmount (SubAmount sb pos loss) neg gain"]) (auto simp: bal_simps)
qed

definition converted :: Position where
  "converted = with_fields (zero_fields\<lparr>UserID := ''u'', Owned := Some (mkBals [(''USD'', 5)]),
     SSEQ := Some (mkBals [(''USD'', 3), (''EUR'', - 3)])\<rparr>) ''x'' 0"

lemma two_stable_decimals: "Decimals two_stable i = Inr d \<Longrightarrow> d = 0"
proof -
  have "ad_decimals two_stable = Some [(''EUR'', 0), (''USD'', 0)]" by code_simp
  then show "Decimals two_stable i = Inr d \<Longrightarrow> d = 0"
    by (auto simp: Decimals_def mlookup_def split: option.splits if_splits)
qed

theorem Cleanup_shrinks_SSEQ_witness:
  "\<exists>p' r s'. CleanupStablecoinEquivalence (\<lambda>f. None) (\<lambda>j f. (None, f)) two_stable converted = Some (p', r)
     \<and> SSEQ p' = Some s' \<and> 0 \<le> bal s' ''USD'' \<and> bal s' ''USD'' \<le> 3"
proof -
  let ?a = "CleanupStablecoinEquivalence (\<lambda>f. None) (\<lambda>j f. (None, f)) two_stable converted"
  let ?s = "mkBals [(''USD'', 3), (''EUR'', - 3)]"
  have w: "Owned converted = Some (mkBals [(''USD'', 5)])" "SSEQ converted = Some ?s"
    "wf_bals (mkBals [(''USD'', 5)])" "wf_bals ?s"
    by code_simp+
  have d: "\<forall>i d. Decimals two_stable i = Inr d \<longrightarrow> 0 \<le> sint d \<and> sint d \<le> 18"
    using two_stable_decimals by fastforce
  have b: "bal ?s ''USD'' = 3" by (simp add: AmountOf_def mget_def)
  have "?a \<noteq> None" by code_simp
  then obtain p' r where e: "?a = Some (p', r)" by auto
  obtain o' s' where "p' = converted\<lparr>Owned := Some o', SSEQ := Some s'\<rparr>"
    "\<forall>i. if 0 \<le> bal ?s i then 0 \<le> bal s' i \<and> bal s' i \<le> bal ?s i else bal ?s i \<le> bal s' i \<and> bal s' i \<le> 0"
    using Cleanup_shrinks_SSEQ [OF w d e] by blast
  with b have "SSEQ p' = Some s'" "0 \<le> bal s' ''USD'' \<and> bal s' ''USD'' \<le> 3"
    by (simp, metis order_refl zero_le_numeral)
  with e show ?thesis by blast
qed

end
