(* ===== verification/RedisTx.thy ===== *)
theory RedisTx
  imports GoErrors
begin

text \<open>
  \<open>src/redis\<close>: the keys (\<open>utils.go\<close>, \<open>consts.go\<close>, and \<open>src/orderbook/orderbook.go\<close>), the
  configuration (\<open>config.go\<close>, \<open>NewClient\<close>) and optimistic transactions (\<open>TryTransaction\<close>).

  The go-redis client, the server behind it and the backoff library are not in the repository: they
  are the records \<open>Client\<close> and \<open>Cmdable\<close> of operations on an arbitrary type \<open>'s\<close> of server
  states, passed to every definition that uses them. A closure that is run as a transaction is a
  function on the variables \<open>'l\<close> that it captures and the server state.
\<close>

section \<open>Order books\<close>

definition ID :: "string \<Rightarrow> string \<Rightarrow> string" where
  "ID baseID quoteID = baseID @ ''-'' @ quoteID"

type_synonym Side = string

definition Buy :: Side where "Buy = ''buy''"
definition Sell :: Side where "Sell = ''sell''"

definition GetBaseFromOrderBookID :: "string \<Rightarrow> string" where
  "GetBaseFromOrderBookID orderBookID =
     (let assets = Split (CHR ''-'') orderBookID in if length assets \<noteq> 2 then '''' else assets ! 0)"

definition GetQuoteFromOrderBookID :: "string \<Rightarrow> string" where
  "GetQuoteFromOrderBookID orderBookID =
     (let assets = Split (CHR ''-'') orderBookID in if length assets \<noteq> 2 then '''' else assets ! 1)"

section \<open>Keys\<close>

definition SequenceNumberPrefix :: string where "SequenceNumberPrefix = ''sequence_number''"
definition SequenceNumberOffsetPrefix :: string where "SequenceNumberOffsetPrefix = ''seq_num_offset_mapping''"
definition OrderBookPrefix :: string where "OrderBookPrefix = ''order_book''"
definition OrderPrefix :: string where "OrderPrefix = ''order''"
definition BalancesPrefix :: string where "BalancesPrefix = ''balances''"

lemmas prefix_defs = SequenceNumberPrefix_def SequenceNumberOffsetPrefix_def OrderBookPrefix_def
  OrderPrefix_def BalancesPrefix_def

definition Key :: "string list \<Rightarrow> string" where
  "Key elems = Join elems '':''"

definition SequenceNumberKey :: "string \<Rightarrow> string" where
  "SequenceNumberKey userID = Key [SequenceNumberPrefix, userID]"

definition OrderBookOrdersKey :: "string \<Rightarrow> string" where
  "OrderBookOrdersKey orderBookID = Key [OrderBookPrefix, orderBookID]"

definition OrderBookPricesKey :: "string \<Rightarrow> Side \<Rightarrow> string" where
  "OrderBookPricesKey orderBookID side = Key [OrderBookPrefix, orderBookID, ''prices'', side]"

definition OrdersAtPriceKey :: "string \<Rightarrow> Side \<Rightarrow> string \<Rightarrow> string" where
  "OrdersAtPriceKey orderBookID side price = Key [OrderBookPrefix, orderBookID, price, side]"

definition OrderKey :: "string \<Rightarrow> string" where
  "OrderKey orderID = Key [OrderPrefix, orderID]"

definition BalancesKey :: "string \<Rightarrow> string" where
  "BalancesKey entityID = Key [BalancesPrefix, entityID]"

definition SeqNumOffsetKey :: "string \<Rightarrow> string \<Rightarrow> string" where
  "SeqNumOffsetKey userID topic = Key [SequenceNumberOffsetPrefix, userID, topic]"

definition WatchKeys :: "(string \<Rightarrow> string) \<Rightarrow> string list \<Rightarrow> string list" where
  "WatchKeys f keys = fold (\<lambda>key watchedKeys. watchedKeys @ [f key]) keys []"

lemma fold_snoc: "fold (\<lambda>x acc. acc @ [f x]) xs acc = acc @ map f xs"
  by (induction xs arbitrary: acc) auto

lemma WatchKeys_map: "WatchKeys f keys = map f keys"
  by (simp add: WatchKeys_def fold_snoc)

lemma Split_Key:
  assumes "elems \<noteq> []" "\<forall>e \<in> set elems. CHR '':'' \<notin> set e"
  shows "Split (CHR '':'') (Key elems) = elems"
  using assms by (simp add: Key_def Split_Join)

section \<open>Clients\<close>

type_synonym ClientType = int64

definition ClientTypeRegular :: ClientType where "ClientTypeRegular = 0"
definition ClientTypeCluster :: ClientType where "ClientTypeCluster = 1"
definition ClientTypeFailover :: ClientType where "ClientTypeFailover = 2"

lemmas client_types = ClientTypeRegular_def ClientTypeCluster_def ClientTypeFailover_def

definition ClientType_String :: "ClientType \<Rightarrow> string" where
  "ClientType_String c =
     (if c = ClientTypeRegular then ''regular'' else if c = ClientTypeCluster then ''cluster''
      else if c = ClientTypeFailover then ''failover'' else ''unspecified'')"

definition ClientTypeFromString :: "string \<Rightarrow> ClientType" where
  "ClientTypeFromString clientType =
     (if clientType = ''cluster'' then ClientTypeCluster
      else if clientType = ''failover'' then ClientTypeFailover else ClientTypeRegular)"

record Config =
  Address :: "string list"
  Username :: string
  Password :: string
  DB :: int64
  Protocol :: int64
  DisableIdentity :: bool
  ClientType :: ClientType
  MasterName :: string

text \<open>The options handed to the constructors of go-redis; times are in seconds.\<close>

datatype client_options =
    Options string string string int64 bool
  | ClusterOptions "string list" int64 string string bool
  | FailoverOptions string "string list" string string int64 bool nat nat nat nat nat

definition NewClient :: "Config \<Rightarrow> error + client_options" where
  "NewClient config =
     (if length (Address config) = 0 then Inl (ErrorString ''redis address must be provided'')
      else if ClientType config = ClientTypeRegular then
        Inr (Options (Address config ! 0) (Username config) (Password config) (DB config) (DisableIdentity config))
      else if ClientType config = ClientTypeCluster then
        Inr (ClusterOptions (Address config) (Protocol config) (Username config) (Password config) (DisableIdentity config))
      else if ClientType config = ClientTypeFailover then
        Inr (FailoverOptions (MasterName config) (Address config) (Username config) (Password config)
          (DB config) (DisableIdentity config) 5 3 3 10 2)
      else Inl (ErrorString ''unknown redis client type''))"

text \<open>
  A client type survives being written and read back, and a configuration yields a client exactly
  when it has an address and its client type is one that can be written; the first address is the one
  used for a single server.
\<close>

theorem ClientType_config_roundtrip:
  "(ClientTypeFromString (ClientType_String c) = c \<longleftrightarrow> ClientType_String c \<noteq> ''unspecified'')
   \<and> (is_ok (NewClient config) \<longleftrightarrow> Address config \<noteq> [] \<and> ClientType_String (ClientType config) \<noteq> ''unspecified'')"
  by (auto simp: NewClient_def client_types ClientType_String_def ClientTypeFromString_def)

section \<open>Transactions\<close>

text \<open>
  \<open>Watch\<close> is the client's, \<open>Retry\<close> is \<open>backoff.Retry\<close> (\<open>None\<close> when it never gives up), and
  \<open>NewExponentialBackOff\<close> makes the strategy for a timeout.
\<close>

record ('b, 'w) Client =
  Watch :: "('w \<Rightarrow> error option \<times> 'w) \<Rightarrow> string list \<Rightarrow> 'w \<Rightarrow> error option \<times> 'w"
  Retry :: "('w \<Rightarrow> error option \<times> 'w) \<Rightarrow> 'b \<Rightarrow> 'w \<Rightarrow> (error option \<times> 'w) option"
  NewExponentialBackOff :: "int64 \<Rightarrow> 'b"

type_synonym ('l, 's) txn = "'l \<times> 's \<Rightarrow> error option \<times> 'l \<times> 's"

definition TryTransaction ::
  "('b, 'l \<times> 's) Client \<Rightarrow> ('l, 's) txn \<Rightarrow> 'b \<Rightarrow> string list \<Rightarrow> 'l \<times> 's \<Rightarrow> (error option \<times> 'l \<times> 's) option" where
  "TryTransaction rdb f backoffStrategy keys =
     (let retryFn = Watch rdb f keys in Retry rdb retryFn backoffStrategy)"

text \<open>
  What the two libraries document. \<open>Retry\<close> runs the operation again after an error, as often as its
  strategy allows, and returns what the last run returned. \<open>Watch\<close> calls the function once, on the
  server state that it then finds (\<open>env\<close> relates the states before and after what other clients do),
  and returns its error; or it fails without calling it.
\<close>

inductive attempts :: "('w \<Rightarrow> error option \<times> 'w) \<Rightarrow> 'w \<Rightarrow> error option \<times> 'w \<Rightarrow> bool" for op where
  last: "op w = r \<Longrightarrow> attempts op w r"
| again: "op w = (Some e, w') \<Longrightarrow> attempts op w' r \<Longrightarrow> attempts op w r"

definition retries :: "('b, 'w) Client \<Rightarrow> bool" where
  "retries rdb \<longleftrightarrow> (\<forall>op b w r. Retry rdb op b w = Some r \<longrightarrow> attempts op w r)"

definition watches :: "('s \<Rightarrow> 's \<Rightarrow> bool) \<Rightarrow> ('b, 'l \<times> 's) Client \<Rightarrow> bool" where
  "watches env rdb \<longleftrightarrow> (\<forall>f keys l s. \<exists>s'. env s s' \<and>
     (Watch rdb f keys (l, s) = f (l, s') \<or> (\<exists>e. Watch rdb f keys (l, s) = (Some e, l, s'))))"

text \<open>A client that retries a fixed number of times, for concrete runs.\<close>

fun retry_n :: "('w \<Rightarrow> error option \<times> 'w) \<Rightarrow> nat \<Rightarrow> 'w \<Rightarrow> (error option \<times> 'w) option" where
  "retry_n op 0 w = Some (op w)"
| "retry_n op (Suc n) w = (case op w of (None, w') \<Rightarrow> Some (None, w') | (Some e, w') \<Rightarrow> retry_n op n w')"

definition bounded_client :: "nat \<Rightarrow> (nat, 'w) Client" where
  "bounded_client n = \<lparr>Watch = \<lambda>f keys. f, Retry = retry_n, NewExponentialBackOff = \<lambda>_. n\<rparr>"

lemma retry_n_attempts: "retry_n op n w = Some r \<Longrightarrow> attempts op w r"
proof (induction op n w rule: retry_n.induct)
  case (2 op n w)
  then show ?case
    by (cases "op w"; cases "fst (op w)") (auto intro: attempts.intros)
qed (auto intro: attempts.last)

lemma bounded_client_laws [simp]:
  "retries (bounded_client n)" "(\<And>s. env s s) \<Longrightarrow> watches env (bounded_client n)"
  by (auto simp: retries_def watches_def bounded_client_def retry_n_attempts)

lemma bounded_client_gives_up: "Retry (bounded_client n) op b w \<noteq> None"
proof -
  have "retry_n op b w \<noteq> None"
    by (induction op b w rule: retry_n.induct) (auto split: prod.splits option.splits)
  then show ?thesis by (simp add: bounded_client_def)
qed

text \<open>
  The rule of a retried transaction: \<open>inv\<close> holds of the captured variables and the server before every
  attempt, whatever failed attempts and other clients (\<open>env\<close>) do, and a successful attempt
  establishes \<open>post\<close>.
\<close>

locale transaction =
  fixes txn :: "('l, 's) txn"
    and inv :: "'l \<Rightarrow> 's \<Rightarrow> bool"
    and post :: "'l \<Rightarrow> 's \<Rightarrow> bool"
    and env :: "'s \<Rightarrow> 's \<Rightarrow> bool"
  assumes other_clients: "inv l s \<Longrightarrow> env s s' \<Longrightarrow> inv l s'"
    and failed: "inv l s \<Longrightarrow> txn (l, s) = (Some e, l', s') \<Longrightarrow> inv l' s'"
    and succeeded: "inv l s \<Longrightarrow> txn (l, s) = (None, l', s') \<Longrightarrow> post l' s'"
begin

lemma attempts_post:
  assumes "attempts (Watch rdb txn keys) w r" "watches env rdb" "fst r = None" "inv (fst w) (snd w)"
  shows "post (fst (snd r)) (snd (snd r))"
  using assms(1,3,4)
proof (induction rule: attempts.induct)
  case (last w r)
  obtain l s where w: "w = (l, s)" by (cases w)
  obtain l' s'' where r: "r = (None, l', s'')" using last.prems(1) by (cases r) auto
  obtain s' where s': "env s s'" "Watch rdb txn keys (l, s) = txn (l, s')"
    using assms(2) last r w unfolding watches_def by (metis option.distinct(1) prod.inject)
  then have "txn (l, s') = (None, l', s'')" using last.hyps r w by simp
  with succeeded [OF other_clients [OF _ s'(1)] this] last.prems w r show ?case by simp
next
  case (again w e w' r)
  obtain l s where w: "w = (l, s)" by (cases w)
  obtain s' where s': "env s s'"
    "Watch rdb txn keys (l, s) = txn (l, s') \<or> (\<exists>e. Watch rdb txn keys (l, s) = (Some e, l, s'))"
    using assms(2) unfolding watches_def by blast
  have "inv l s'" using other_clients [OF _ s'(1)] again.prems w by simp
  then have "inv (fst w') (snd w')"
    using again.hyps(1) s'(2) failed [of l s' e "fst w'" "snd w'"] w by auto
  with again.IH again.prems(1) show ?case by blast
qed

lemma TryTransaction_post:
  assumes "TryTransaction rdb txn b keys (l, s) = Some (None, l', s')"
    and "retries rdb" "watches env rdb" "inv l s"
  shows "post l' s'"
  using attempts_post [of rdb keys "(l, s)" "(None, l', s')"] assms
  by (simp add: TryTransaction_def retries_def)

end

text \<open>
  The contract of a transaction that can be run again: an attempt does not depend on what the failed
  attempts before it have left in the captured variables, and a failed attempt changes the server only
  as \<open>safe\<close> allows. Then a successful \<open>TryTransaction\<close> is one run from the initial variables, on a
  server that only failed attempts and other clients have changed.
\<close>

locale restartable =
  fixes txn :: "('l, 's) txn"
    and fresh :: "'l \<Rightarrow> bool"
    and safe :: "'s \<Rightarrow> 's \<Rightarrow> bool"
  assumes safe_refl: "safe s s"
    and safe_trans: "safe s s' \<Longrightarrow> safe s' s'' \<Longrightarrow> safe s s''"
    and restart: "fresh l \<Longrightarrow> txn (l, s) = (Some e, l', s') \<Longrightarrow> fresh l' \<and> safe s s'"
    and same: "fresh l \<Longrightarrow> fresh k \<Longrightarrow> txn (l, s) = (None, l', s') \<Longrightarrow> txn (k, s) = (None, l', s')"

sublocale restartable < run: transaction txn "\<lambda>l s. fresh l \<and> safe s\<^sub>0 s"
  "\<lambda>l' s'. \<forall>l\<^sub>0. fresh l\<^sub>0 \<longrightarrow> (\<exists>s. safe s\<^sub>0 s \<and> txn (l\<^sub>0, s) = (None, l', s'))" safe
  for s\<^sub>0
  by unfold_locales (use safe_trans restart same in blast)+

context restartable
begin

lemma TryTransaction_one_run:
  assumes "TryTransaction rdb txn b keys (l, s) = Some (None, l', s'')"
    and "retries rdb" "watches safe rdb" "fresh l"
  shows "\<exists>s'. safe s s' \<and> txn (l, s') = (None, l', s'')"
  using run.TryTransaction_post [OF assms(1-3)] assms(4) safe_refl by blast

end

section \<open>Hashes on the server\<close>

text \<open>
  The values that are written: text, integers, booleans and times as they are, other objects as what
  their \<open>MarshalBinary\<close> returned (\<open>None\<close> for an error). \<open>RFC3339Nano\<close> prints a time.
\<close>

datatype 't arg = AString string | AUint uint64 | AInt int64 | ABool bool | ATime 't | AMarshal "string option"

record ('t, 's) Cmdable =
  HGetAll :: "string \<Rightarrow> 's \<Rightarrow> (error + (string, string) gomap) \<times> 's"
  HGet :: "string \<Rightarrow> string \<Rightarrow> 's \<Rightarrow> (error + string) \<times> 's"
  HMGet :: "string \<Rightarrow> string list \<Rightarrow> 's \<Rightarrow> (error + string option list) \<times> 's"
  HSet :: "string \<Rightarrow> (string \<times> 't arg) list \<Rightarrow> 's \<Rightarrow> error option \<times> 's"
  HMSet :: "string \<Rightarrow> (string \<times> 't arg) list \<Rightarrow> 's \<Rightarrow> error option \<times> 's"
  Keys :: "string \<Rightarrow> 's \<Rightarrow> (error + string list) \<times> 's"
  TxPipelined_HGetAll :: "string list \<Rightarrow> 's \<Rightarrow> (error option \<times> (error + (string, string) gomap) list) \<times> 's"
  Nil :: error

text \<open>\<open>errors.Is(err, redis.Nil)\<close> looks along the chain of causes.\<close>

definition errors_Is :: "error \<Rightarrow> error \<Rightarrow> bool" where
  "errors_Is err target = (target \<in> set (chain err))"

lemma errors_Is_refl [simp]: "errors_Is e e"
  by (cases e) (simp_all add: errors_Is_def)

text \<open>
  What the server documents, in terms of the fields \<open>content s key\<close> of the hash at a key: reads
  return and do not change them, a write sets the given fields to the text of their values; one that
  returns an error has set all of them (when the reply was lost) or none.
\<close>

fun arg_text :: "('t \<Rightarrow> string) \<Rightarrow> 't arg \<Rightarrow> string option" where
  "arg_text rfc (AString s) = Some s"
| "arg_text rfc (AUint n) = Some (FormatUint n)"
| "arg_text rfc (AInt n) = Some (FormatInt n)"
| "arg_text rfc (ABool b) = Some (if b then ''1'' else ''0'')"
| "arg_text rfc (ATime t) = Some (rfc t)"
| "arg_text rfc (AMarshal j) = j"

definition hash_of :: "(string \<rightharpoonup> string) \<Rightarrow> error + (string, string) gomap \<Rightarrow> bool" where
  "hash_of h r = (case r of Inl e \<Rightarrow> True | Inr m \<Rightarrow> wf_map m \<and> map_of m = h)"

definition written :: "('t \<Rightarrow> string) \<Rightarrow> (string \<times> 't arg) list \<Rightarrow> (string \<rightharpoonup> string) \<Rightarrow> (string \<rightharpoonup> string)" where
  "written rfc vs h = (\<lambda>f. case map_of vs f of None \<Rightarrow> h f | Some a \<Rightarrow> arg_text rfc a)"

definition write_law ::
  "('s \<Rightarrow> string \<Rightarrow> string \<rightharpoonup> string) \<Rightarrow> ('t \<Rightarrow> string) \<Rightarrow>
   (string \<Rightarrow> (string \<times> 't arg) list \<Rightarrow> 's \<Rightarrow> error option \<times> 's) \<Rightarrow> bool" where
  "write_law content rfc hset \<longleftrightarrow> (\<forall>k vs s e s'. hset k vs s = (e, s') \<longrightarrow> distinct (map fst vs) \<longrightarrow>
     (\<forall>(f, a) \<in> set vs. arg_text rfc a \<noteq> None) \<and> content s' = (content s)(k := written rfc vs (content s k))
     \<or> e \<noteq> None \<and> content s' = content s)"

definition hash_server :: "('s \<Rightarrow> string \<Rightarrow> string \<rightharpoonup> string) \<Rightarrow> ('t \<Rightarrow> string) \<Rightarrow> ('t, 's) Cmdable \<Rightarrow> bool" where
  "hash_server content rfc tx \<longleftrightarrow>
     (\<forall>k s r s'. HGetAll tx k s = (r, s') \<longrightarrow> content s' = content s \<and> hash_of (content s k) r)
   \<and> (\<forall>k f s r s'. HGet tx k f s = (r, s') \<longrightarrow> content s' = content s \<and>
        (case r of Inr v \<Rightarrow> content s k f = Some v | Inl e \<Rightarrow> errors_Is e (Nil tx) \<longrightarrow> content s k f = None))
   \<and> (\<forall>k fs s r s'. HMGet tx k fs s = (r, s') \<longrightarrow> content s' = content s \<and>
        (case r of Inr vs \<Rightarrow> vs = map (content s k) fs | Inl e \<Rightarrow> \<not> errors_Is e (Nil tx)))
   \<and> (\<forall>ks s e rs s'. TxPipelined_HGetAll tx ks s = ((e, rs), s') \<longrightarrow> content s' = content s \<and>
        list_all2 (\<lambda>k r. hash_of (content s k) r) ks rs \<and> (e = None \<longrightarrow> list_all is_ok rs))
   \<and> write_law content rfc (HSet tx) \<and> write_law content rfc (HMSet tx)"

lemma write_lawD:
  assumes "write_law content rfc hset" "hset k vs s = (e, s')" "distinct (map fst vs)"
  shows "(\<forall>(f, a) \<in> set vs. arg_text rfc a \<noteq> None) \<and> content s' = (content s)(k := written rfc vs (content s k))
     \<or> e \<noteq> None \<and> content s' = content s"
  using assms(1) [unfolded write_law_def, rule_format, OF assms(2,3)] .

lemma hash_server_HSet:
  assumes "hash_server content rfc tx" "HSet tx k vs s = (e, s')" "distinct (map fst vs)"
  shows "(\<forall>(f, a) \<in> set vs. arg_text rfc a \<noteq> None) \<and> content s' = (content s)(k := written rfc vs (content s k))
     \<or> e \<noteq> None \<and> content s' = content s"
  using write_lawD [where hset = "HSet tx", OF _ assms(2,3)] assms(1) by (simp add: hash_server_def)

lemma hash_server_HMSet:
  assumes "hash_server content rfc tx" "HMSet tx k vs s = (e, s')" "distinct (map fst vs)"
  shows "(\<forall>(f, a) \<in> set vs. arg_text rfc a \<noteq> None) \<and> content s' = (content s)(k := written rfc vs (content s k))
     \<or> e \<noteq> None \<and> content s' = content s"
  using write_lawD [where hset = "HMSet tx", OF _ assms(2,3)] assms(1) by (simp add: hash_server_def)

lemma hash_server_HGet:
  assumes "hash_server content rfc tx" "HGet tx k f s = (r, s')"
  shows "content s' = content s \<and>
    (case r of Inr v \<Rightarrow> content s k f = Some v | Inl e \<Rightarrow> errors_Is e (Nil tx) \<longrightarrow> content s k f = None)"
  using assms unfolding hash_server_def by blast

lemma hash_server_HMGet:
  assumes "hash_server content rfc tx" "HMGet tx k fs s = (r, s')"
  shows "content s' = content s \<and>
    (case r of Inr vs \<Rightarrow> vs = map (content s k) fs | Inl e \<Rightarrow> \<not> errors_Is e (Nil tx))"
  using assms unfolding hash_server_def by blast

lemma hash_server_pipeline:
  assumes "hash_server content rfc tx" "TxPipelined_HGetAll tx ks s = ((e, rs), s')"
  shows "content s' = content s \<and> list_all2 (\<lambda>k r. hash_of (content s k) r) ks rs \<and> (e = None \<longrightarrow> list_all is_ok rs)"
  using assms unfolding hash_server_def by blast

text \<open>A server that keeps its hashes in memory and never fails, for concrete runs.\<close>

type_synonym mem = "(string, (string, string) gomap) gomap"

definition mem_content :: "mem \<Rightarrow> string \<Rightarrow> string \<rightharpoonup> string" where
  "mem_content s k = map_of (mget [] s k)"

definition mem_hset :: "('t \<Rightarrow> string) \<Rightarrow> string \<Rightarrow> (string \<times> 't arg) list \<Rightarrow> mem \<Rightarrow> error option \<times> mem" where
  "mem_hset rfc k vs s =
     (if list_all (\<lambda>(f, a). arg_text rfc a \<noteq> None) vs
      then (None, mput k (fold (\<lambda>(f, a). mput f (the (arg_text rfc a))) vs (mget [] s k)) s)
      else (Some (ErrorString ''redis: cannot marshal''), s))"

definition mem_server :: "('t \<Rightarrow> string) \<Rightarrow> ('t, mem) Cmdable" where
  "mem_server rfc =
     \<lparr>HGetAll = \<lambda>k s. (Inr (AList.clearjunk (mget [] s k)), s),
      HGet = \<lambda>k f s. (case map_of (mget [] s k) f of None \<Rightarrow> Inl (ErrorString ''redis: nil'') | Some v \<Rightarrow> Inr v, s),
      HMGet = \<lambda>k fs s. (Inr (map (map_of (mget [] s k)) fs), s),
      HSet = mem_hset rfc, HMSet = mem_hset rfc, Keys = \<lambda>p s. (Inr (mkeys s), s),
      TxPipelined_HGetAll = \<lambda>ks s. ((None, map (\<lambda>k. Inr (AList.clearjunk (mget [] s k))) ks), s),
      Nil = ErrorString ''redis: nil''\<rparr>"

lemma map_of_puts:
  "distinct (map fst vs) \<Longrightarrow> \<forall>(f, a) \<in> set vs. g a \<noteq> None \<Longrightarrow>
   map_of (fold (\<lambda>(f, a). mput f (the (g a))) vs h) f =
     (case map_of vs f of None \<Rightarrow> map_of h f | Some a \<Rightarrow> g a)"
proof (induction vs arbitrary: h)
  case (Cons v vs)
  obtain k a where v: "v = (k, a)" by (cases v)
  have "map_of vs k = None" using Cons.prems(1) v by (simp add: map_of_eq_None_iff)
  with Cons v show ?case by (auto simp: gomap_simps split: option.splits)
qed simp

lemma mem_server_laws: "hash_server mem_content rfc (mem_server rfc)"
proof -
  have "(\<forall>(f, a) \<in> set vs. arg_text rfc a \<noteq> None)
      \<and> mem_content s' = (mem_content s)(k := written rfc vs (mem_content s k))
      \<or> e \<noteq> None \<and> mem_content s' = mem_content s"
    if "mem_hset rfc k vs s = (e, s')" "distinct (map fst vs)" for k vs s e s'
    using that map_of_puts [of vs "arg_text rfc"]
    by (auto simp: mem_hset_def mem_content_def written_def fun_eq_iff gomap_simps list_all_iff
        split: if_splits)
  then have "write_law mem_content rfc (mem_hset rfc)" unfolding write_law_def by blast
  then show ?thesis
    by (auto simp: hash_server_def mem_server_def mem_content_def hash_of_def wf_map_def map_of_clearjunk
        list_all2_map2 list_all_iff list_all2_same fun_eq_iff errors_Is_def split: option.splits)
qed


section \<open>Setting one hash\<close>

text \<open>Writing one hash, as a retried transaction: every operation that only sets fields is of this form.\<close>

definition set_hash :: "('t, 's) Cmdable \<Rightarrow> string \<Rightarrow> (string \<times> 't arg) list \<Rightarrow> (unit, 's) txn" where
  "set_hash tx k vs = (\<lambda>(_, s). case HSet tx k vs s of (err, s) \<Rightarrow> (err, (), s))"

definition encodable :: "('t \<Rightarrow> string) \<Rightarrow> (string \<times> 't arg) list \<Rightarrow> bool" where
  "encodable rfc vs = (\<forall>(f, a) \<in> set vs. arg_text rfc a \<noteq> None)"

definition hash_set where
  "hash_set rfc k vs h h' \<longleftrightarrow> encodable rfc vs \<and> h' = h(k := written rfc vs (h k))"

lemma hash_set_again: "hash_set rfc k vs h h1 \<Longrightarrow> hash_set rfc k vs h1 h2 \<Longrightarrow> hash_set rfc k vs h h2"
  by (auto simp: hash_set_def written_def fun_eq_iff split: option.splits)

lemma set_hash_run:
  assumes "set_hash tx k vs (l, s) = (e, l', s')" "hash_server content rfc tx" "distinct (map fst vs)"
  shows "hash_set rfc k vs (content s) (content s') \<or> e \<noteq> None \<and> content s' = content s"
proof -
  have "HSet tx k vs s = (e, s')" using assms(1) by (cases "HSet tx k vs s") (simp add: set_hash_def)
  from hash_server_HSet [OF assms(2) this assms(3)] show ?thesis unfolding hash_set_def encodable_def .
qed

definition set_hash_inv where
  "set_hash_inv content rfc tx k vs h s \<longleftrightarrow> hash_server content rfc tx \<and> distinct (map fst vs)
     \<and> (content s = h \<or> hash_set rfc k vs h (content s))"

interpretation set_hash: transaction "set_hash tx k vs" "\<lambda>_. set_hash_inv content rfc tx k vs h"
  "\<lambda>_ s. hash_set rfc k vs h (content s)" "\<lambda>s s'. content s' = content s"
  for tx :: "('t, 's) Cmdable" and k vs rfc h and content :: "'s \<Rightarrow> string \<Rightarrow> string \<rightharpoonup> string"
proof unfold_locales
  fix s s' assume "set_hash_inv content rfc tx k vs h s" "content s' = content s"
  then show "set_hash_inv content rfc tx k vs h s'" by (simp add: set_hash_inv_def)
next
  fix l s e l' s' assume inv: "set_hash_inv content rfc tx k vs h s" and run: "set_hash tx k vs (l, s) = (Some e, l', s')"
  from inv set_hash_run [OF run, of content rfc] hash_set_again
  show "set_hash_inv content rfc tx k vs h s'" unfolding set_hash_inv_def by metis
next
  fix l s l' s' assume inv: "set_hash_inv content rfc tx k vs h s" and run: "set_hash tx k vs (l, s) = (None, l', s')"
  from inv set_hash_run [OF run, of content rfc] hash_set_again
  show "hash_set rfc k vs h (content s')" unfolding set_hash_inv_def by metis
qed

lemma set_hash_TryTransaction:
  assumes "TryTransaction rdb (set_hash tx k vs) b keys ((), s) = Some (None, (), s')"
    and "hash_server content rfc tx" "retries rdb" "watches (\<lambda>s s'. content s' = content s) rdb"
    and "distinct (map fst vs)"
  shows "hash_set rfc k vs (content s) (content s')"
  using set_hash.TryTransaction_post [where content = content and rfc = rfc and h = "content s", OF assms(1,3,4)] assms(2,5)
  by (simp add: set_hash_inv_def)

end
