(* ===== verification/PositionStore.thy ===== *)
theory PositionStore
  imports RedisTx Module Position
begin

text \<open>
  \<open>src/ledger/redis/positions.go\<close>: user positions and the module, stored as hashes. Each position has
  its own hash with one field, named after the user, that holds the JSON text. A transaction returns
  \<open>None\<close> where the code does not return: it panics or retries for ever.

  The abstract content of the store is a map from users to the exported fields of their positions
  (\<open>stored_positions\<close>); the two refinement theorems say what \<open>SetUsersPosition\<close> and
  \<open>GetUsersPosition\<close> do to it.
\<close>

definition UserPositionKey :: "string \<Rightarrow> string" where
  "UserPositionKey userID = ''positions:users:'' @ userID"

definition ModulePositionKey :: string where
  "ModulePositionKey = ''positions''"

lemma UserPositionKey_inject [simp]: "UserPositionKey u = UserPositionKey v \<longleftrightarrow> u = v"
  by (simp add: UserPositionKey_def)

lemma UserPositionKey_module [simp]: "UserPositionKey u \<noteq> ModulePositionKey"
  by (simp add: UserPositionKey_def ModulePositionKey_def)

section \<open>Reading positions\<close>

definition new_Position :: Position where
  "new_Position = with_fields zero_fields '''' 0"

text \<open>The loop over the fields of one hash.\<close>

fun read_positions ::
  "pos_marshal \<Rightarrow> pos_unmarshal \<Rightarrow> string list \<Rightarrow> (string, Position) gomap \<Rightarrow> error option \<times> (string, Position) gomap" where
  "read_positions marshal unmarshal [] positions = (None, positions)"
| "read_positions marshal unmarshal (v # vs) positions =
     (case Position_UnmarshalBinary marshal unmarshal v new_Position of
        (Some err, p) \<Rightarrow> (Some err, positions)
      | (None, p) \<Rightarrow> read_positions marshal unmarshal vs (mput (UserID p) p positions))"

text \<open>The loop over the results of the pipeline.\<close>

fun collect_positions ::
  "pos_marshal \<Rightarrow> pos_unmarshal \<Rightarrow> (error + (string, string) gomap) list \<Rightarrow> (string, Position) gomap
     \<Rightarrow> error option \<times> (string, Position) gomap" where
  "collect_positions marshal unmarshal [] positions = (None, positions)"
| "collect_positions marshal unmarshal (c # cmd) positions =
     (case c of Inl err \<Rightarrow> (Some err, positions)
      | Inr res \<Rightarrow>
        (case read_positions marshal unmarshal (map snd res) positions of
           (Some err, positions) \<Rightarrow> (Some err, positions)
         | (None, positions) \<Rightarrow> collect_positions marshal unmarshal cmd positions))"

definition getUsersPosition_f ::
  "pos_marshal \<Rightarrow> pos_unmarshal \<Rightarrow> ('t, 's) Cmdable \<Rightarrow> string list \<Rightarrow> ((string, Position) gomap, 's) txn" where
  "getUsersPosition_f marshal unmarshal tx keys = (\<lambda>(positions, s).
     case TxPipelined_HGetAll tx keys s of ((err, cmd), s) \<Rightarrow>
       (case collect_positions marshal unmarshal cmd positions of
          (Some e, positions) \<Rightarrow> (Some e, positions, s)
        | (None, positions) \<Rightarrow> (err, positions, s)))"

definition initial_positions :: "pos_marshal \<Rightarrow> string list \<Rightarrow> (string, Position) gomap" where
  "initial_positions marshal userIDs =
     fold (\<lambda>userID positions. if mhas positions userID then positions
       else mput userID (InitialPosition marshal userID) positions) userIDs []"

definition getUsersPosition ::
  "('b, (string, Position) gomap \<times> 's) Client \<Rightarrow> ('t, 's) Cmdable \<Rightarrow> pos_marshal \<Rightarrow> pos_unmarshal \<Rightarrow> int64
     \<Rightarrow> string list \<Rightarrow> string list \<Rightarrow> 's \<Rightarrow> ((error + (string, Position) gomap) \<times> 's) option" where
  "getUsersPosition rdb tx marshal unmarshal timeout keys userIDs s =
     (let positions = initial_positions marshal userIDs
      in case TryTransaction rdb (getUsersPosition_f marshal unmarshal tx keys)
           (NewExponentialBackOff rdb timeout) keys (positions, s) of
        None \<Rightarrow> None
      | Some (Some err, _, s) \<Rightarrow> Some (Inl err, s)
      | Some (None, positions, s) \<Rightarrow> Some (Inr positions, s))"

definition GetUsersPosition ::
  "('b, (string, Position) gomap \<times> 's) Client \<Rightarrow> ('t, 's) Cmdable \<Rightarrow> pos_marshal \<Rightarrow> pos_unmarshal \<Rightarrow> int64
     \<Rightarrow> string list \<Rightarrow> 's \<Rightarrow> ((error + (string, Position) gomap) \<times> 's) option" where
  "GetUsersPosition rdb tx marshal unmarshal timeout userIDs s =
     (let watch = map UserPositionKey userIDs
      in getUsersPosition rdb tx marshal unmarshal timeout watch userIDs s)"

definition GetUsersPositionKeys :: "string list \<Rightarrow> string list" where
  "GetUsersPositionKeys userIDs = WatchKeys UserPositionKey userIDs"

definition GetUsersPositionCmd ::
  "('t, 's) Cmdable \<Rightarrow> string list \<Rightarrow> 's \<Rightarrow> (error option \<times> (error + (string, string) gomap) list) \<times> 's" where
  "GetUsersPositionCmd tx users s = TxPipelined_HGetAll tx (map UserPositionKey users) s"

definition GetAllUsersPositionKeys :: "('t, 's) Cmdable \<Rightarrow> 's \<Rightarrow> (error + string list) \<times> 's" where
  "GetAllUsersPositionKeys rdb s =
     (case Keys rdb (UserPositionKey ''*'') s of (Inl err, s) \<Rightarrow> (Inl err, s) | (Inr keys, s) \<Rightarrow> (Inr keys, s))"

section \<open>Writing positions\<close>

text \<open>The keys to watch are evaluated before the closure runs: they are empty strings.\<close>

definition position_values :: "pos_marshal \<Rightarrow> Position \<Rightarrow> (string \<times> 't arg) list" where
  "position_values marshal position = mput (UserID position) (AMarshal (Position_MarshalBinary marshal position)) []"

text \<open>
  A request is a map to pointers. One round of the loop, here and in \<open>SetUsersPositionCmd\<close>, sends one
  command; it panics (\<open>None\<close>) when the pointer is nil, as it reads the user ID behind it.
\<close>

definition write_position ::
  "('t, 's) Cmdable \<Rightarrow> pos_marshal \<Rightarrow> string \<times> Position option \<Rightarrow> 's \<Rightarrow> (error option \<times> 's) option" where
  "write_position tx marshal = (\<lambda>(userID, position) s. case position of None \<Rightarrow> None
     | Some position \<Rightarrow> let key = UserPositionKey userID; values = position_values marshal position
       in Some (HSet tx key values s))"

lemma write_position_simps [simp]:
  "write_position tx marshal (u, Some p) s = Some (HSet tx (UserPositionKey u) (position_values marshal p) s)"
  "write_position tx marshal (u, None) s = None"
  by (simp_all add: write_position_def)

text \<open>A panic in the closure ends the retries: it then returns no error and leaves \<open>None\<close> for \<open>watch\<close>.\<close>

fun write_positions ::
  "('t, 's) Cmdable \<Rightarrow> pos_marshal \<Rightarrow> (string, Position option) gomap \<Rightarrow> (string list option, 's) txn" where
  "write_positions tx marshal [] (watch, s) = (None, watch, s)"
| "write_positions tx marshal ((userID, position) # reqs) (watch, s) =
     (let watch = map_option (\<lambda>watch. watch @ [UserPositionKey userID]) watch
      in case write_position tx marshal (userID, position) s of
           None \<Rightarrow> (None, None, s)
         | Some (Some err, s) \<Rightarrow> (Some err, watch, s)
         | Some (None, s) \<Rightarrow> write_positions tx marshal reqs (watch, s))"

definition SetUsersPosition ::
  "('b, string list option \<times> 's) Client \<Rightarrow> ('t, 's) Cmdable \<Rightarrow> pos_marshal \<Rightarrow> int64
     \<Rightarrow> (string, Position option) gomap \<Rightarrow> 's \<Rightarrow> (error option \<times> 's) option" where
  "SetUsersPosition rdb tx marshal timeout reqs s =
     (let watch = replicate (length reqs) ''''
      in case TryTransaction rdb (write_positions tx marshal reqs) (NewExponentialBackOff rdb timeout) watch (Some watch, s) of
           None \<Rightarrow> None
         | Some (_, None, _) \<Rightarrow> None
         | Some (err, Some _, s) \<Rightarrow> Some (err, s))"

fun SetUsersPositionCmd ::
  "('t, 's) Cmdable \<Rightarrow> pos_marshal \<Rightarrow> (string, Position option) gomap \<Rightarrow> 's \<Rightarrow> (error option list \<times> 's) option" where
  "SetUsersPositionCmd tx marshal [] s = Some ([], s)"
| "SetUsersPositionCmd tx marshal ((userID, position) # reqs) s =
     (case write_position tx marshal (userID, position) s of None \<Rightarrow> None
      | Some (cmd, s) \<Rightarrow>
        (case SetUsersPositionCmd tx marshal reqs s of None \<Rightarrow> None | Some (cmds, s) \<Rightarrow> Some (cmd # cmds, s)))"

section \<open>What the store holds\<close>

definition stored_positions ::
  "pos_marshal \<Rightarrow> pos_unmarshal \<Rightarrow> (string \<Rightarrow> string \<rightharpoonup> string) \<Rightarrow> (string \<rightharpoonup> PositionFields) \<Rightarrow> bool" where
  "stored_positions marshal unmarshal h A \<longleftrightarrow> (\<forall>u. case A u of
      None \<Rightarrow> h (UserPositionKey u) = Map.empty
    | Some f \<Rightarrow> UserID f = u \<and>
        (\<exists>j. marshal f = Some j \<and> unmarshal j zero_fields = (None, f) \<and> h (UserPositionKey u) = [u \<mapsto> j]))"

text \<open>The position that is read for the fields \<open>f\<close>.\<close>

definition read_position :: "pos_marshal \<Rightarrow> PositionFields \<Rightarrow> Position" where
  "read_position marshal f = Position_Init marshal (with_fields f '''' 0)"

lemma stored_None: "stored_positions marshal unmarshal h A \<Longrightarrow> A u = None \<Longrightarrow> h (UserPositionKey u) = Map.empty"
  by (auto simp: stored_positions_def dest: spec [of _ u])

lemma stored_Some:
  assumes "stored_positions marshal unmarshal h A" "A u = Some f"
  obtains j where "UserID f = u" "marshal f = Some j" "unmarshal j zero_fields = (None, f)"
    "h (UserPositionKey u) = [u \<mapsto> j]"
proof -
  have "UserID f = u \<and> (\<exists>j. marshal f = Some j \<and> unmarshal j zero_fields = (None, f) \<and> h (UserPositionKey u) = [u \<mapsto> j])"
    using assms(1) [unfolded stored_positions_def, THEN spec, of u] assms(2) by simp
  then show thesis using that by blast
qed

lemma stored_update:
  assumes "stored_positions marshal unmarshal h A" "UserID f = u" "marshal f = Some j"
    "unmarshal j zero_fields = (None, f)"
  shows "stored_positions marshal unmarshal (h(UserPositionKey u := (h (UserPositionKey u))(u \<mapsto> j))) (A(u \<mapsto> f))"
proof -
  have h: "(h (UserPositionKey u))(u \<mapsto> j) = [u \<mapsto> j]"
  proof (cases "A u")
    case None
    then show ?thesis using stored_None [OF assms(1), of u] by simp
  next
    case (Some g)
    then obtain i where "h (UserPositionKey u) = [u \<mapsto> i]" by (rule stored_Some [OF assms(1)])
    then show ?thesis by simp
  qed
  show ?thesis unfolding stored_positions_def h
  proof
    fix v
    show "case (A(u \<mapsto> f)) v of None \<Rightarrow> (h(UserPositionKey u := [u \<mapsto> j])) (UserPositionKey v) = Map.empty
      | Some f' \<Rightarrow> UserID f' = v \<and> (\<exists>j'. marshal f' = Some j' \<and> unmarshal j' zero_fields = (None, f') \<and>
          (h(UserPositionKey u := [u \<mapsto> j])) (UserPositionKey v) = [v \<mapsto> j'])"
      using assms(1) [unfolded stored_positions_def, THEN spec, of v] assms(2-4)
      by (cases "v = u"; cases "A v") simp_all
  qed
qed

lemma singleton_map:
  assumes "wf_map m" "map_of m = [k \<mapsto> v]"
  shows "m = [(k, v)]"
proof -
  have "set m = set [(k, v)]" using map_of_eq_perm [OF assms(1), of "[(k, v)]"] assms(2) by (simp add: wf_map_def)
  moreover have "distinct m" using assms(1) unfolding wf_map_def by (simp add: distinct_map)
  ultimately show ?thesis by (cases m rule: list.exhaust; cases "tl m") auto
qed

section \<open>Refinement\<close>

definition requested :: "(string, Position option) gomap \<Rightarrow> string \<rightharpoonup> PositionFields" where
  "requested reqs u = (case map_of reqs u of Some (Some p) \<Rightarrow> Some (pos_fields p) | _ \<Rightarrow> None)"

lemma requested_simps [simp]:
  "requested [] = Map.empty" "requested ((u, Some p) # reqs) = (requested reqs)(u \<mapsto> pos_fields p)"
  by (simp_all add: requested_def fun_eq_iff)

lemma requested_None: "u \<notin> fst ` set reqs \<Longrightarrow> requested reqs u = None"
  by (auto simp: requested_def map_of_eq_None_iff image_iff split: option.splits dest!: map_of_SomeD)

text \<open>Not nil, at the key of its own user, and read back by the JSON library.\<close>

definition storable :: "pos_marshal \<Rightarrow> pos_unmarshal \<Rightarrow> string \<times> Position option \<Rightarrow> bool" where
  "storable marshal unmarshal = (\<lambda>(u, p). case p of None \<Rightarrow> False | Some p \<Rightarrow> UserID p = u \<and>
     (\<exists>j. marshal (pos_fields p) = Some j \<and> unmarshal j zero_fields = (None, pos_fields p)))"

lemma storable_Some: "storable marshal unmarshal r \<Longrightarrow> \<exists>p. r = (fst r, Some p)"
  by (cases r) (auto simp: storable_def split: option.splits)

lemma hset_stores:
  assumes "hash_server content rfc tx" "stored_positions marshal unmarshal (content s) A"
    and "storable marshal unmarshal (u, Some p)"
    and "HSet tx (UserPositionKey u) (position_values marshal p) s = (e, s')"
  shows "stored_positions marshal unmarshal (content s') (A(u \<mapsto> pos_fields p))
    \<or> e \<noteq> None \<and> content s' = content s"
proof -
  obtain j where j: "UserID p = u" "marshal (pos_fields p) = Some j" "unmarshal j zero_fields = (None, pos_fields p)"
    using assms(3) by (auto simp: storable_def)
  have vs: "position_values marshal p = [(u, AMarshal (Some j))]"
    by (simp add: position_values_def mput_def Position_MarshalBinary_def j(1,2))
  have "content s' = (content s)(UserPositionKey u := written rfc [(u, AMarshal (Some j))] (content s (UserPositionKey u)))
      \<or> e \<noteq> None \<and> content s' = content s"
    using hash_server_HSet [OF assms(1) assms(4)] by (simp add: vs)
  moreover have "written rfc [(u, AMarshal (Some j))] h = h(u \<mapsto> j)" for h
    by (auto simp: written_def fun_eq_iff)
  ultimately show ?thesis using stored_update [OF assms(2) _ j(2,3)] j(1) by auto
qed

text \<open>A partial write: every user has the old or the requested position.\<close>

definition partly :: "(string \<rightharpoonup> 'a) \<Rightarrow> (string \<rightharpoonup> 'a) \<Rightarrow> (string \<rightharpoonup> 'a) \<Rightarrow> bool" where
  "partly A R B = (\<forall>u. B u = A u \<or> R u \<noteq> None \<and> B u = R u)"

lemma partly_refl [simp]: "partly A R A"
  by (simp add: partly_def)

lemma partly_step: "partly A R B \<Longrightarrow> R u = Some f \<Longrightarrow> partly A R (B(u \<mapsto> f))"
  by (simp add: partly_def)

lemma partly_all: "partly A R B \<Longrightarrow> B ++ R = A ++ R"
  by (fastforce simp: partly_def map_add_def fun_eq_iff split: option.splits)

lemma write_positions_stores:
  assumes "hash_server content rfc tx"
    and "write_positions tx marshal reqs (watch, s) = (err, watch', s')"
    and "stored_positions marshal unmarshal (content s) B" "wf_map reqs"
    and "\<forall>r \<in> set reqs. storable marshal unmarshal r" "partly A R B" "requested reqs \<subseteq>\<^sub>m R"
  shows "(\<exists>B'. stored_positions marshal unmarshal (content s') B' \<and> partly A R B' \<and>
    (err = None \<longrightarrow> B' = B ++ requested reqs)) \<and> (watch \<noteq> None \<longrightarrow> watch' \<noteq> None)"
  using assms(2-)
proof (induction reqs arbitrary: watch s B)
  case Nil
  then show ?case by auto
next
  case (Cons r reqs)
  obtain u p where r: "r = (u, Some p)" using storable_Some [of marshal unmarshal r] Cons.prems(4) by (cases r) auto
  obtain e s1 where h: "HSet tx (UserPositionKey u) (position_values marshal p) s = (e, s1)"
    by (cases "HSet tx (UserPositionKey u) (position_values marshal p) s")
  have u: "requested reqs u = None"
    using Cons.prems(3) requested_None [of u reqs] by (auto simp: r wf_map_def)
  have R: "R u = Some (pos_fields p)" "requested reqs \<subseteq>\<^sub>m R"
    using Cons.prems(6) u by (auto simp: r map_le_def dom_def split: if_splits)
  have reqs: "wf_map reqs" "\<forall>r \<in> set reqs. storable marshal unmarshal r"
    using Cons.prems(3,4) by (auto simp: wf_map_def)
  show ?case
  proof (cases e)
    case None
    have st: "stored_positions marshal unmarshal (content s1) (B(u \<mapsto> pos_fields p))"
      using hset_stores [OF assms(1) Cons.prems(2) _ h [unfolded None]] Cons.prems(4) r by simp
    have w: "write_positions tx marshal reqs (map_option (\<lambda>w. w @ [UserPositionKey u]) watch, s1) = (err, watch', s')"
      using Cons.prems(1) by (simp add: r h None)
    note IH = Cons.IH [OF w st reqs partly_step [OF Cons.prems(5) R(1)] R(2)]
    then obtain B' where B': "stored_positions marshal unmarshal (content s') B'" "partly A R B'"
        "err = None \<longrightarrow> B' = B(u \<mapsto> pos_fields p) ++ requested reqs" by (elim conjE exE) (rule that)
    have "watch \<noteq> None \<longrightarrow> watch' \<noteq> None" using IH [THEN conjunct2] by simp
    moreover have "B(u \<mapsto> pos_fields p) ++ requested reqs = B ++ requested (r # reqs)"
      using u by (simp add: r map_add_upd_left domIff)
    ultimately show ?thesis using B' by (intro conjI exI [of _ B']) simp_all
  next
    case (Some e')
    then have "(Some e', map_option (\<lambda>w. w @ [UserPositionKey u]) watch, s1) = (err, watch', s')"
      using Cons.prems(1) by (simp add: r h Let_def)
    moreover have "stored_positions marshal unmarshal (content s1) (B(u \<mapsto> pos_fields p)) \<or> content s1 = content s"
      using hset_stores [OF assms(1) Cons.prems(2) _ h] Cons.prems(4) r by auto
    moreover have "err \<noteq> None" "watch \<noteq> None \<longrightarrow> watch' \<noteq> None" "s' = s1" using calculation(1) by auto
    ultimately show ?thesis using Cons.prems(2,5) partly_step [OF Cons.prems(5) R(1)] by metis
  qed
qed

text \<open>Setting positions, as a retried transaction.\<close>

definition set_inv where
  "set_inv content rfc tx marshal unmarshal reqs A s \<longleftrightarrow> hash_server content rfc tx \<and> wf_map reqs
     \<and> (\<forall>r \<in> set reqs. storable marshal unmarshal r)
     \<and> (\<exists>B. stored_positions marshal unmarshal (content s) B \<and> partly A (requested reqs) B)"

interpretation set_pos: transaction "write_positions tx marshal reqs"
  "\<lambda>l s. l \<noteq> None \<and> set_inv content rfc tx marshal unmarshal reqs A s"
  "\<lambda>l s. l \<noteq> None \<and> stored_positions marshal unmarshal (content s) (A ++ requested reqs)"
  "\<lambda>s s'. content s' = content s"
  for tx :: "('t, 's) Cmdable" and marshal unmarshal reqs rfc A and content :: "'s \<Rightarrow> string \<Rightarrow> string \<rightharpoonup> string"
proof unfold_locales
  fix l s s' assume "l \<noteq> None \<and> set_inv content rfc tx marshal unmarshal reqs A s" "content s' = content s"
  then show "l \<noteq> None \<and> set_inv content rfc tx marshal unmarshal reqs A s'" by (simp add: set_inv_def)
next
  fix l s e l' s' assume inv: "l \<noteq> None \<and> set_inv content rfc tx marshal unmarshal reqs A s"
    and run: "write_positions tx marshal reqs (l, s) = (Some e, l', s')"
  from inv obtain B where "stored_positions marshal unmarshal (content s) B" "partly A (requested reqs) B"
    by (auto simp: set_inv_def)
  from write_positions_stores [where content = content and R = "requested reqs", OF _ run this(1) _ _ this(2)] inv
  show "l' \<noteq> None \<and> set_inv content rfc tx marshal unmarshal reqs A s'" by (auto simp: set_inv_def)
next
  fix l s l' s' assume inv: "l \<noteq> None \<and> set_inv content rfc tx marshal unmarshal reqs A s"
    and run: "write_positions tx marshal reqs (l, s) = (None, l', s')"
  from inv obtain B where B: "stored_positions marshal unmarshal (content s) B" "partly A (requested reqs) B"
    by (auto simp: set_inv_def)
  from write_positions_stores [where content = content and R = "requested reqs", OF _ run this(1) _ _ this(2)] inv
  show "l' \<noteq> None \<and> stored_positions marshal unmarshal (content s') (A ++ requested reqs)"
    by (auto simp: set_inv_def simp flip: partly_all [OF B(2)])
qed

lemma SetUsersPosition_stores:
  assumes "hash_server content rfc tx" "retries rdb" "watches (\<lambda>s s'. content s' = content s) rdb"
    and "stored_positions marshal unmarshal (content s) A"
    and "wf_map reqs" "\<forall>r \<in> set reqs. storable marshal unmarshal r"
    and "SetUsersPosition rdb tx marshal timeout reqs s = Some (None, s')"
  shows "stored_positions marshal unmarshal (content s') (A ++ requested reqs)"
proof -
  obtain l where "TryTransaction rdb (write_positions tx marshal reqs) (NewExponentialBackOff rdb timeout)
      (replicate (length reqs) '''') (Some (replicate (length reqs) ''''), s) = Some (None, l, s')"
    using assms(7) by (auto simp: SetUsersPosition_def Let_def split: option.splits)
  moreover have "set_inv content rfc tx marshal unmarshal reqs A s"
    using assms(1,4-6) by (auto simp: set_inv_def intro: partly_refl)
  ultimately show ?thesis using set_pos.TryTransaction_post [OF _ assms(2,3)] by blast
qed

text \<open>
  C3: \<open>SetUsersPosition\<close> refines the update of the abstract store: when it returns without an error,
  after any number of failed and partly written attempts, the store holds exactly the requested
  positions for the requested users and the former ones for all others.
\<close>

theorem SetUsersPosition_refines:
  assumes "hash_server content rfc tx" "retries rdb" "watches (\<lambda>s s'. content s' = content s) rdb"
    and "stored_positions marshal unmarshal (content s) A"
    and "wf_map reqs" "\<forall>r \<in> set reqs. storable marshal unmarshal r"
    and "SetUsersPosition rdb tx marshal timeout reqs s = Some (None, s')"
  shows "stored_positions marshal unmarshal (content s') (A ++ requested reqs)"
  by (rule SetUsersPosition_stores [OF assms])

subsection \<open>Getting positions\<close>

text \<open>A request with a nil position never returns without an error: the closure panics when it comes to it.\<close>

lemma write_positions_nil:
  "write_positions tx marshal reqs (l, s) = (None, l', s') \<Longrightarrow> (u, None) \<in> set reqs \<Longrightarrow> l' = None"
proof (induction reqs arbitrary: l s)
  case (Cons r reqs)
  then show ?case by (cases r; cases "snd r") (auto simp: Let_def split: option.splits prod.splits)
qed simp

interpretation nil_pos: transaction "write_positions tx marshal reqs" "\<lambda>_ _. (u, None) \<in> set reqs" "\<lambda>l _. l = None"
  "\<lambda>_ _. True" for tx :: "('t, 's) Cmdable" and marshal reqs u
  by unfold_locales (auto dest: write_positions_nil)

lemma nil_position_panics:
  assumes "(u, None) \<in> set reqs" "retries rdb" "watches (\<lambda>_ _. True) rdb"
  shows "SetUsersPosition rdb tx marshal timeout reqs s \<noteq> Some (None, s')"
proof
  assume "SetUsersPosition rdb tx marshal timeout reqs s = Some (None, s')"
  then obtain b keys l k where "TryTransaction rdb (write_positions tx marshal reqs) b keys (l, s) = Some (None, Some k, s')"
    by (auto simp: SetUsersPosition_def Let_def split: option.splits)
  from nil_pos.TryTransaction_post [OF this assms(2,3,1)] show False by simp
qed

lemma UserID_read [simp]: "UserID (read_position marshal f) = UserID f"
proof -
  have "UserID (read_position marshal f) = UserID (pos_fields (read_position marshal f))" by simp
  also have "\<dots> = UserID f" by (simp only: read_position_def Init_fields with_fields_simps) (simp add: fill_def)
  finally show ?thesis .
qed

lemma Unmarshal_read:
  "unmarshal j zero_fields = (None, f) \<Longrightarrow>
   Position_UnmarshalBinary marshal unmarshal j new_Position = (None, read_position marshal f)"
  by (simp add: Position_UnmarshalBinary_def new_Position_def read_position_def)

lemma read_one_hash:
  assumes "stored_positions marshal unmarshal h A" "hash_of (h (UserPositionKey u)) (Inr m)"
  shows "read_positions marshal unmarshal (map snd m) l =
    (None, case A u of None \<Rightarrow> l | Some f \<Rightarrow> mput u (read_position marshal f) l)"
proof (cases "A u")
  case None
  then have "map_of m = Map.empty" using assms stored_None by (auto simp: hash_of_def)
  then have "m = []" by simp
  then show ?thesis using None by simp
next
  case (Some f)
  then obtain j where j: "UserID f = u" "unmarshal j zero_fields = (None, f)" "h (UserPositionKey u) = [u \<mapsto> j]"
    by (rule stored_Some [OF assms(1)])
  then have "m = [(u, j)]" using assms(2) singleton_map [of m u j] by (simp add: hash_of_def)
  then show ?thesis using Some j by (simp add: Unmarshal_read)
qed

lemma collect_stored:
  assumes "stored_positions marshal unmarshal h A"
    and "list_all2 (\<lambda>k r. hash_of (h k) r) (map UserPositionKey us) rs"
    and "collect_positions marshal unmarshal rs l = (err, l')"
  shows "(\<forall>v. map_of l' v = map_of l v \<or> (\<exists>f. A v = Some f \<and> map_of l' v = Some (read_position marshal f)))
    \<and> (err = None \<longrightarrow> (\<forall>u \<in> set us. \<forall>f. A u = Some f \<longrightarrow> map_of l' u = Some (read_position marshal f)))"
  using assms(2,3)
proof (induction us arbitrary: rs l)
  case (Cons u us)
  then obtain r rs' where rs: "rs = r # rs'" "hash_of (h (UserPositionKey u)) r"
    "list_all2 (\<lambda>k r. hash_of (h k) r) (map UserPositionKey us) rs'"
    by (auto simp: list_all2_Cons1)
  show ?case
  proof (cases r)
    case (Inr m)
    let ?l = "case A u of None \<Rightarrow> l | Some f \<Rightarrow> mput u (read_position marshal f) l"
    have "collect_positions marshal unmarshal rs' ?l = (err, l')"
      using Cons.prems(2) read_one_hash [OF assms(1), of u m l] rs by (simp add: Inr)
    note IH = Cons.IH [OF rs(3) this]
    have l: "map_of ?l v = map_of l v \<or> (\<exists>f. A v = Some f \<and> map_of ?l v = Some (read_position marshal f))" for v
      by (cases "A u") (auto simp: gomap_simps)
    have u: "A u = Some f \<Longrightarrow> map_of ?l u = Some (read_position marshal f)" for f
      by (simp add: gomap_simps)
    show ?thesis
    proof (intro conjI allI impI ballI)
      fix v show "map_of l' v = map_of l v \<or> (\<exists>f. A v = Some f \<and> map_of l' v = Some (read_position marshal f))"
        using IH l [of v] by (elim conjE allE [of _ v]) auto
    next
      fix v f assume "err = None" "v \<in> set (u # us)" "A v = Some f"
      then show "map_of l' v = Some (read_position marshal f)"
        using IH [THEN conjunct1, rule_format, of u] IH [THEN conjunct2] u [of f]
        by (cases "v \<in> set us") auto
    qed
  qed (use Cons.prems rs in auto)
qed auto


lemma initial_fold:
  "map_of (fold (\<lambda>u l. if mhas l u then l else mput u (f u) l) us l) v =
    (case map_of l v of Some p \<Rightarrow> Some p | None \<Rightarrow> if v \<in> set us then Some (f v) else None)"
  by (induction us arbitrary: l) (auto simp: mhas_def gomap_simps split: option.splits)

lemma map_of_initial:
  "map_of (initial_positions marshal users) v = (if v \<in> set users then Some (InitialPosition marshal v) else None)"
  by (simp add: initial_positions_def initial_fold)

definition get_inv where
  "get_inv content rfc tx marshal unmarshal users A l s \<longleftrightarrow> hash_server content rfc tx
     \<and> stored_positions marshal unmarshal (content s) A
     \<and> (\<forall>u \<in> set users. map_of l u = Some (InitialPosition marshal u)
          \<or> (\<exists>f. A u = Some f \<and> map_of l u = Some (read_position marshal f)))"

definition position_of :: "pos_marshal \<Rightarrow> (string \<rightharpoonup> PositionFields) \<Rightarrow> string \<Rightarrow> Position" where
  "position_of marshal A u = (case A u of None \<Rightarrow> InitialPosition marshal u | Some f \<Rightarrow> read_position marshal f)"

lemma get_step:
  assumes "get_inv content rfc tx marshal unmarshal users A l s"
    and "getUsersPosition_f marshal unmarshal tx (map UserPositionKey users) (l, s) = (err, l', s')"
  shows "get_inv content rfc tx marshal unmarshal users A l' s'
    \<and> (err = None \<longrightarrow> (\<forall>u \<in> set users. map_of l' u = Some (position_of marshal A u)))"
proof -
  obtain e rs s1 where p: "TxPipelined_HGetAll tx (map UserPositionKey users) s = ((e, rs), s1)"
    by (metis prod.exhaust)
  obtain e' l1 where c: "collect_positions marshal unmarshal rs l = (e', l1)" by (cases "collect_positions marshal unmarshal rs l")
  have hs: "hash_server content rfc tx" "stored_positions marshal unmarshal (content s) A"
    using assms(1) by (auto simp: get_inv_def)
  have s1: "content s1 = content s" "list_all2 (\<lambda>k r. hash_of (content s k) r) (map UserPositionKey users) rs"
    using hash_server_pipeline [OF hs(1) p] by auto
  have res: "l' = l1" "s' = s1" "err = None \<Longrightarrow> e' = None"
    using assms(2) by (auto simp: getUsersPosition_f_def p c split: option.splits)
  note coll = collect_stored [OF hs(2) s1(2) c]
  have l': "map_of l' u = Some (InitialPosition marshal u) \<or> (\<exists>f. A u = Some f \<and> map_of l' u = Some (read_position marshal f))"
    if "u \<in> set users" for u
    using coll [THEN conjunct1, rule_format, of u] assms(1) that unfolding res get_inv_def by metis
  moreover have "map_of l' u = Some (position_of marshal A u)" if "u \<in> set users" "err = None" for u
  proof (cases "A u")
    case None
    then show ?thesis using l' [OF that(1)] by (simp add: position_of_def)
  next
    case (Some f)
    then show ?thesis using coll [THEN conjunct2] res that by (simp add: position_of_def)
  qed
  ultimately show ?thesis using hs s1 by (simp add: get_inv_def res)
qed

interpretation get_pos: transaction "getUsersPosition_f marshal unmarshal tx (map UserPositionKey users)"
  "get_inv content rfc tx marshal unmarshal users A"
  "\<lambda>l s. stored_positions marshal unmarshal (content s) A
     \<and> (\<forall>u \<in> set users. map_of l u = Some (position_of marshal A u))"
  "\<lambda>s s'. content s' = content s"
  for tx :: "('t, 's) Cmdable" and marshal unmarshal users rfc A and content :: "'s \<Rightarrow> string \<Rightarrow> string \<rightharpoonup> string"
proof unfold_locales
  fix l s s' assume "get_inv content rfc tx marshal unmarshal users A l s" "content s' = content s"
  then show "get_inv content rfc tx marshal unmarshal users A l s'" by (simp add: get_inv_def)
next
  fix l s e l' s' assume "get_inv content rfc tx marshal unmarshal users A l s"
    "getUsersPosition_f marshal unmarshal tx (map UserPositionKey users) (l, s) = (Some e, l', s')"
  from get_step [OF this] show "get_inv content rfc tx marshal unmarshal users A l' s'" by blast
next
  fix l s l' s' assume "get_inv content rfc tx marshal unmarshal users A l s"
    "getUsersPosition_f marshal unmarshal tx (map UserPositionKey users) (l, s) = (None, l', s')"
  from get_step [OF this] show "stored_positions marshal unmarshal (content s') A
     \<and> (\<forall>u \<in> set users. map_of l' u = Some (position_of marshal A u))" by (simp add: get_inv_def)
qed

lemma GetUsersPosition_reads:
  assumes "hash_server content rfc tx" "retries rdb" "watches (\<lambda>s s'. content s' = content s) rdb"
    and "stored_positions marshal unmarshal (content s) A"
    and "GetUsersPosition rdb tx marshal unmarshal timeout users s = Some (Inr positions, s')"
  shows "stored_positions marshal unmarshal (content s') A
    \<and> (\<forall>u \<in> set users. map_of positions u = Some (position_of marshal A u))"
proof -
  have "TryTransaction rdb (getUsersPosition_f marshal unmarshal tx (map UserPositionKey users))
      (NewExponentialBackOff rdb timeout) (map UserPositionKey users) (initial_positions marshal users, s)
    = Some (None, positions, s')"
    using assms(5) by (auto simp: GetUsersPosition_def getUsersPosition_def Let_def split: option.splits)
  moreover have "get_inv content rfc tx marshal unmarshal users A (initial_positions marshal users) s"
    using assms(1,4) by (simp add: get_inv_def map_of_initial)
  ultimately show ?thesis using get_pos.TryTransaction_post [OF _ assms(2,3)] by blast
qed

text \<open>
  C9: \<open>GetUsersPosition\<close> refines the lookup in the abstract store: when it returns without an error, it
  has, after any number of failed attempts, exactly the stored position of every requested user, or an
  initial one for a user that has none, and the store is unchanged.
\<close>

theorem GetUsersPosition_refines:
  assumes "hash_server content rfc tx" "retries rdb" "watches (\<lambda>s s'. content s' = content s) rdb"
    and "stored_positions marshal unmarshal (content s) A"
    and "GetUsersPosition rdb tx marshal unmarshal timeout users s = Some (Inr positions, s')"
  shows "stored_positions marshal unmarshal (content s') A
    \<and> (\<forall>u \<in> set users. map_of positions u = Some (position_of marshal A u))"
  by (rule GetUsersPosition_reads [OF assms])

text \<open>A concrete run: one position whose JSON text is its user ID, on a server in memory.\<close>

abbreviation demo_marshal :: pos_marshal where
  "demo_marshal \<equiv> \<lambda>f. Some (UserID f)"

abbreviation demo_unmarshal :: pos_unmarshal where
  "demo_unmarshal \<equiv> \<lambda>j f. (None, f\<lparr>UserID := j\<rparr>)"

definition demo_position :: Position where
  "demo_position = with_fields (zero_fields\<lparr>UserID := ''u''\<rparr>) '''' 0"

abbreviation demo_server :: "(nat, mem) Cmdable" where
  "demo_server \<equiv> mem_server (\<lambda>_. '''')"

lemma demo_laws:
  "hash_server mem_content (\<lambda>_. '''') demo_server" "retries (bounded_client 1)"
  "watches (\<lambda>s s'. mem_content s' = mem_content s) (bounded_client 1)"
  "stored_positions demo_marshal demo_unmarshal (mem_content []) Map.empty"
  "wf_map [(''u'', Some demo_position)]"
  "\<forall>r \<in> set [(''u'', Some demo_position)]. storable demo_marshal demo_unmarshal r"
  by (simp_all add: mem_server_laws stored_positions_def mem_content_def mget_def wf_map_def storable_def
      demo_position_def zero_fields_def del: pos_fields_select)
    (simp_all add: with_fields_def PositionFields.defs Position.defs)

lemma demo_set: "SetUsersPosition (bounded_client 1) demo_server demo_marshal 5 [(''u'', Some demo_position)] []
    = Some (None, [(''positions:users:u'', [(''u'', ''u'')])])"
  by code_simp

theorem SetUsersPosition_refines_witness:
  "stored_positions demo_marshal demo_unmarshal (mem_content [(''positions:users:u'', [(''u'', ''u'')])])
     [''u'' \<mapsto> pos_fields demo_position]"
  using SetUsersPosition_refines [OF demo_laws demo_set] by simp

lemma demo_stored: "stored_positions demo_marshal demo_unmarshal (mem_content [(''positions:users:u'', [(''u'', ''u'')])])
     [''u'' \<mapsto> zero_fields\<lparr>UserID := ''u''\<rparr>]"
proof -
  have "mem_content [(''positions:users:u'', [(''u'', ''u'')])] k =
      (if k = UserPositionKey ''u'' then [''u'' \<mapsto> ''u''] else Map.empty)" for k
    by (auto simp: mem_content_def mget_def UserPositionKey_def)
  then show ?thesis by (simp add: stored_positions_def zero_fields_def)
qed

theorem GetUsersPosition_refines_witness:
  "\<exists>positions s'. GetUsersPosition (bounded_client 1) demo_server demo_marshal demo_unmarshal 5 [''u'', ''v'']
       [(''positions:users:u'', [(''u'', ''u'')])] = Some (Inr positions, s')
     \<and> map_of positions ''u'' = Some (read_position demo_marshal (zero_fields\<lparr>UserID := ''u''\<rparr>))
     \<and> map_of positions ''v'' = Some (InitialPosition demo_marshal ''v'')"
proof -
  let ?g = "GetUsersPosition (bounded_client 1) demo_server demo_marshal demo_unmarshal 5 [''u'', ''v'']
       [(''positions:users:u'', [(''u'', ''u'')])]"
  have "map_option (is_ok \<circ> fst) ?g = Some True" by code_simp
  then obtain r s' where r: "?g = Some (r, s')" "is_ok r" by auto
  then obtain positions where g: "?g = Some (Inr positions, s')"
    by (cases r) auto
  from GetUsersPosition_refines [OF demo_laws(1-3) demo_stored this]
  show ?thesis using g by (simp add: position_of_def)
qed

end
