(* ===== verification/ModuleStore.thy ===== *)
theory ModuleStore
  imports PositionStore
begin

text \<open>
  The module in \<open>src/ledger/redis/positions.go\<close>: one field of one hash. The variable \<open>position\<close> that the
  closure of \<open>getModulePosition\<close> captures points to a module, is nil after a missing field, and
  scanning into it when it is nil panics. A panic ends the retries, so the closure then returns no
  error and leaves \<open>Panicked\<close>.
\<close>

datatype module_var = Pointer Module | NilPointer | Panicked

definition new_Module :: Module where
  "new_Module = with_mod_fields zero_module '''' 0"

definition getModulePositionCmd :: "('t, 's) Cmdable \<Rightarrow> string \<Rightarrow> 's \<Rightarrow> (error + string) \<times> 's" where
  "getModulePositionCmd tx modulePositionKey s = HGet tx modulePositionKey ''module'' s"

definition GetModulePositionCmd :: "('t, 's) Cmdable \<Rightarrow> 's \<Rightarrow> (error + string) \<times> 's" where
  "GetModulePositionCmd tx s = HGet tx ModulePositionKey ''module'' s"

definition getModulePosition_f ::
  "mod_marshal \<Rightarrow> mod_unmarshal \<Rightarrow> ('t, 's) Cmdable \<Rightarrow> string \<Rightarrow> (module_var, 's) txn" where
  "getModulePosition_f marshal unmarshal tx modulePositionKey = (\<lambda>(position, s).
     let failed = (\<lambda>err position s. if errors_Is err (Nil tx) then (None, NilPointer, s) else (Some err, position, s))
     in case getModulePositionCmd tx modulePositionKey s of
          (Inl err, s) \<Rightarrow> failed err position s
        | (Inr v, s) \<Rightarrow>
          (case position of
             Pointer m \<Rightarrow>
               (case Module_UnmarshalBinary marshal unmarshal v m of
                  (Some err, m) \<Rightarrow> failed err (Pointer m) s
                | (None, m) \<Rightarrow> (None, Pointer m, s))
           | _ \<Rightarrow> (None, Panicked, s)))"

definition getModulePosition ::
  "('b, module_var \<times> 's) Client \<Rightarrow> ('t, 's) Cmdable \<Rightarrow> mod_marshal \<Rightarrow> mod_unmarshal \<Rightarrow> int64 \<Rightarrow> string \<Rightarrow> 's
     \<Rightarrow> ((error + Module) \<times> 's) option" where
  "getModulePosition rdb tx marshal unmarshal timeout modulePositionKey s =
     (case TryTransaction rdb (getModulePosition_f marshal unmarshal tx modulePositionKey)
        (NewExponentialBackOff rdb timeout) [modulePositionKey] (Pointer new_Module, s) of
        None \<Rightarrow> None
      | Some (Some err, _, s) \<Rightarrow> Some (Inl err, s)
      | Some (None, NilPointer, s) \<Rightarrow> Some (Inr (InitialModule marshal), s)
      | Some (None, Pointer m, s) \<Rightarrow> Some (Inr m, s)
      | Some (None, Panicked, s) \<Rightarrow> None)"

definition GetModulePosition ::
  "('b, module_var \<times> 's) Client \<Rightarrow> ('t, 's) Cmdable \<Rightarrow> mod_marshal \<Rightarrow> mod_unmarshal \<Rightarrow> int64 \<Rightarrow> 's
     \<Rightarrow> ((error + Module) \<times> 's) option" where
  "GetModulePosition rdb tx marshal unmarshal timeout s =
     getModulePosition rdb tx marshal unmarshal timeout ModulePositionKey s"

definition module_values :: "mod_marshal \<Rightarrow> Module \<Rightarrow> (string \<times> 't arg) list" where
  "module_values marshal position = mput ''module'' (AMarshal (Module_MarshalBinary marshal position)) []"

definition SetModulePosition ::
  "('b, unit \<times> 's) Client \<Rightarrow> ('t, 's) Cmdable \<Rightarrow> mod_marshal \<Rightarrow> int64 \<Rightarrow> Module \<Rightarrow> 's
     \<Rightarrow> (error option \<times> 's) option" where
  "SetModulePosition rdb tx marshal timeout position s =
     (let txFunc = set_hash tx ModulePositionKey (module_values marshal position)
      in map_option (\<lambda>(err, _, s). (err, s))
           (TryTransaction rdb txFunc (NewExponentialBackOff rdb timeout) [ModulePositionKey] ((), s)))"

definition SetModulePositionCmd ::
  "('t, 's) Cmdable \<Rightarrow> mod_marshal \<Rightarrow> Module \<Rightarrow> 's \<Rightarrow> error option \<times> 's" where
  "SetModulePositionCmd tx marshal position s = HSet tx ModulePositionKey (module_values marshal position) s"

section \<open>Reading back\<close>

definition stored_module ::
  "mod_unmarshal \<Rightarrow> (string \<Rightarrow> string \<rightharpoonup> string) \<Rightarrow> ModuleFields option \<Rightarrow> bool" where
  "stored_module unmarshal h M = (case M of
      None \<Rightarrow> h ModulePositionKey ''module'' = None
    | Some f \<Rightarrow> \<exists>j. h ModulePositionKey ''module'' = Some j \<and> unmarshal j zero_module = (None, f))"

definition module_of :: "mod_marshal \<Rightarrow> ModuleFields option \<Rightarrow> Module" where
  "module_of marshal M = (case M of None \<Rightarrow> InitialModule marshal
     | Some f \<Rightarrow> Module_Init marshal (with_mod_fields f '''' 0))"

definition module_result :: "mod_marshal \<Rightarrow> ModuleFields option \<Rightarrow> module_var" where
  "module_result marshal M = (case M of None \<Rightarrow> NilPointer | Some f \<Rightarrow> Pointer (module_of marshal M))"

definition module_inv where
  "module_inv content rfc tx unmarshal M l s \<longleftrightarrow> hash_server content rfc tx
     \<and> stored_module unmarshal (content s) M \<and> l = Pointer new_Module"

lemma new_Module_simps [simp]:
  "mod_fields new_Module = zero_module" "Module_original new_Module = ''''" "Module_originalSequence new_Module = 0"
  by (simp_all add: new_Module_def with_mod_fields_def ModuleFields.defs Module.defs)

lemma module_step:
  assumes "module_inv content rfc tx unmarshal M l s"
    and "getModulePosition_f marshal unmarshal tx ModulePositionKey (l, s) = (err, l', s')"
  shows "content s' = content s \<and> (case err of None \<Rightarrow> l' = module_result marshal M | Some e \<Rightarrow> l' = l)"
proof -
  obtain r s1 where g: "HGet tx ModulePositionKey ''module'' s = (r, s1)" by (cases "HGet tx ModulePositionKey ''module'' s")
  have hs: "hash_server content rfc tx" and st: "stored_module unmarshal (content s) M" and l: "l = Pointer new_Module"
    using assms(1) by (simp_all add: module_inv_def)
  note law = hash_server_HGet [OF hs g]
  show ?thesis
  proof (cases r)
    case (Inl e)
    then show ?thesis using law st assms(2) l g
      by (cases M) (auto simp: getModulePosition_f_def getModulePositionCmd_def module_result_def
          stored_module_def split: if_splits)
  next
    case (Inr v)
    then obtain f where f: "M = Some f" "unmarshal v zero_module = (None, f)"
      using law st by (cases M) (auto simp: stored_module_def)
    then show ?thesis using Inr law assms(2) l g
      by (simp add: getModulePosition_f_def getModulePositionCmd_def Module_UnmarshalBinary_def
          module_result_def module_of_def split_def)
  qed
qed

interpretation get_module: transaction "getModulePosition_f marshal unmarshal tx ModulePositionKey"
  "module_inv content rfc tx unmarshal M"
  "\<lambda>l s. stored_module unmarshal (content s) M \<and> l = module_result marshal M"
  "\<lambda>s s'. content s' = content s"
  for tx :: "('t, 's) Cmdable" and marshal unmarshal rfc M and content :: "'s \<Rightarrow> string \<Rightarrow> string \<rightharpoonup> string"
proof unfold_locales
  fix l s s' assume "module_inv content rfc tx unmarshal M l s" "content s' = content s"
  then show "module_inv content rfc tx unmarshal M l s'" by (simp add: module_inv_def)
next
  fix l s e l' s' assume "module_inv content rfc tx unmarshal M l s"
    "getModulePosition_f marshal unmarshal tx ModulePositionKey (l, s) = (Some e, l', s')"
  with module_step [OF this] show "module_inv content rfc tx unmarshal M l' s'" by (simp add: module_inv_def)
next
  fix l s l' s' assume "module_inv content rfc tx unmarshal M l s"
    "getModulePosition_f marshal unmarshal tx ModulePositionKey (l, s) = (None, l', s')"
  with module_step [OF this] show "stored_module unmarshal (content s') M \<and> l' = module_result marshal M"
    by (simp add: module_inv_def)
qed

lemma get_module_stored:
  assumes "hash_server content rfc tx" "retries rdb" "watches (\<lambda>s s'. content s' = content s) rdb"
    and "\<And>op b w. Retry rdb op b w \<noteq> None" "stored_module unmarshal (content s) M"
  shows "\<exists>r s'. GetModulePosition rdb tx marshal unmarshal timeout s = Some (r, s')
    \<and> (case r of Inl _ \<Rightarrow> True | Inr m \<Rightarrow> m = module_of marshal M)"
proof -
  let ?t = "TryTransaction rdb (getModulePosition_f marshal unmarshal tx ModulePositionKey)
    (NewExponentialBackOff rdb timeout) [ModulePositionKey] (Pointer new_Module, s)"
  obtain err l s' where t: "?t = Some (err, l, s')"
    using assms(4) unfolding TryTransaction_def Let_def by (metis option.exhaust prod.exhaust)
  show ?thesis
  proof (cases err)
    case None
    have "module_inv content rfc tx unmarshal M (Pointer new_Module) s"
      using assms(1,5) by (simp add: module_inv_def)
    from get_module.TryTransaction_post [OF t [unfolded None] assms(2,3) this]
    have l: "l = module_result marshal M" ..
    show ?thesis using t None l
      by (cases M) (simp_all add: GetModulePosition_def getModulePosition_def module_result_def module_of_def)
  next
    case (Some e)
    then show ?thesis using t by (simp add: GetModulePosition_def getModulePosition_def)
  qed
qed

text \<open>
  C25: once \<open>SetModulePosition\<close> has returned without an error, \<open>GetModulePosition\<close> never panics, and
  unless it reports an error it returns an unmodified module with the same fields (nil balances filled
  in), for any number of failed attempts of both and for any JSON library that decodes what it has
  encoded.
\<close>

theorem GetModulePosition_after_Set:
  assumes "hash_server content rfc tx"
    and "retries rdb" "watches (\<lambda>s s'. content s' = content s) rdb"
    and "retries rdb'" "watches (\<lambda>s s'. content s' = content s) rdb'" "\<And>op b w. Retry rdb' op b w \<noteq> None"
    and "\<And>j. marshal (mod_fields m) = Some j \<Longrightarrow> unmarshal j zero_module = (None, mod_fields m)"
    and "SetModulePosition rdb tx marshal timeout m s = Some (None, s')"
  shows "\<exists>r s''. GetModulePosition rdb' tx marshal unmarshal timeout s' = Some (r, s'')
    \<and> (case r of Inl _ \<Rightarrow> True
       | Inr m' \<Rightarrow> mod_fields m' = fill_module (mod_fields m) \<and> \<not> Module_IsModified marshal m')"
proof -
  have "hash_set rfc ModulePositionKey (module_values marshal m) (content s) (content s')"
    using assms(8) set_hash_TryTransaction [OF _ assms(1-3)]
    by (auto simp: SetModulePosition_def Let_def module_values_def mput_def)
  then obtain j where j: "marshal (mod_fields m) = Some j" "content s' ModulePositionKey ''module'' = Some j"
    by (auto simp: hash_set_def encodable_def module_values_def mput_def Module_MarshalBinary_def written_def)
  then have "stored_module unmarshal (content s') (Some (mod_fields m))"
    using assms(7) by (auto simp: stored_module_def)
  from get_module_stored [OF assms(1,4,5,6) this, of marshal timeout]
  obtain r s'' where r: "GetModulePosition rdb' tx marshal unmarshal timeout s' = Some (r, s'')"
    "case r of Inl _ \<Rightarrow> True | Inr m' \<Rightarrow> m' = module_of marshal (Some (mod_fields m))" by blast
  let ?w = "with_mod_fields (mod_fields m) '''' 0"
  have "\<not> Module_IsModified marshal (Module_Init marshal ?w)"
    by (rule md.init_not_modified) (simp add: with_mod_fields_def ModuleFields.defs Module.defs)
  moreover have "mod_fields (Module_Init marshal ?w) = fill_module (mod_fields m)"
    unfolding Module_Init_fields by (simp add: with_mod_fields_def ModuleFields.defs Module.defs)
  ultimately have "case r of Inl _ \<Rightarrow> True
       | Inr m' \<Rightarrow> mod_fields m' = fill_module (mod_fields m) \<and> \<not> Module_IsModified marshal m'"
    using r(2) by (cases r) (simp_all add: module_of_def)
  with r(1) show ?thesis by blast
qed


theorem GetModulePosition_after_Set_witness:
  "\<exists>r s''. GetModulePosition (bounded_client 1) (mem_server (\<lambda>_::nat. '''')) (\<lambda>f. Some ''{}'') (\<lambda>j f. (None, f)) 5
      [(''positions'', [(''module'', ''{}'')])] = Some (Inr r, s'')
    \<and> mod_fields r = fill_module zero_module"
proof -
  let ?tx = "mem_server (\<lambda>_::nat. '''')" and ?m = "\<lambda>f. Some ''{}''" and ?u = "\<lambda>j f. (None, f)"
  let ?g = "GetModulePosition (bounded_client 1) ?tx ?m ?u 5 [(''positions'', [(''module'', ''{}'')])]"
  have set: "SetModulePosition (bounded_client 1) ?tx ?m 5 new_Module [] = Some (None, [(''positions'', [(''module'', ''{}'')])])"
    by code_simp
  have "map_option (is_ok \<circ> fst) ?g = Some True" by code_simp
  then obtain r s'' where g: "?g = Some (r, s'')" "is_ok r" by auto
  then obtain m' where r: "r = Inr m'" by (cases r) auto
  from GetModulePosition_after_Set [where rdb = "bounded_client 1" and rdb' = "bounded_client 1" and marshal = ?m
      and unmarshal = ?u and m = new_Module, OF mem_server_laws _ _ _ _ bounded_client_gives_up _ set] g r
  show ?thesis by simp
qed

end
