(* ===== verification/InterestStore.thy ===== *)
theory InterestStore
  imports PositionStore AssetData
begin

text \<open>
  \<open>src/ledger/redis/interest.go\<close> and the record \<open>Interest\<close> of \<open>src/ledger/types/balance.go\<close>: the interest
  of a user, a hash with one field per number, and the accrual of lending interest.

  A time is the number of nanoseconds since the start of 1970; \<open>rfc\<close> and \<open>parse_time\<close> are the format
  \<open>time.RFC3339Nano\<close> in both directions. \<open>now\<close> and \<open>now'\<close> are the two readings of the clock,
  \<open>format_float\<close> is \<open>strconv.FormatFloat(_, 'f', -1, 64)\<close>, and \<open>oor\<close> the conversion of a float outside
  the range of \<open>uint64\<close>. An outer \<open>None\<close> is a panic.
\<close>

type_synonym time = int

definition zero_time :: time where "zero_time = -62135596800 * 10 ^ 9"

definition Unix :: "time \<Rightarrow> int64" where
  "Unix t = of_int (t div 10 ^ 9)"

definition After :: "time \<Rightarrow> time \<Rightarrow> bool" where
  "After t u = (t > u)"

record Interest =
  Earned :: uint64
  Owed :: uint64
  Claimed :: uint64
  Paid :: uint64
  Interest_LastUpdated :: time

definition new_Interest :: Interest where
  "new_Interest = \<lparr>Earned = 0, Owed = 0, Claimed = 0, Paid = 0, Interest_LastUpdated = zero_time\<rparr>"

definition Interest_MarshalBinary :: "(Interest \<Rightarrow> error + string) \<Rightarrow> Interest \<Rightarrow> error + string" where
  "Interest_MarshalBinary marshal i = marshal i"

definition Interest_UnmarshalBinary ::
  "(string \<Rightarrow> Interest \<Rightarrow> error option \<times> Interest) \<Rightarrow> string \<Rightarrow> Interest \<Rightarrow> error option \<times> Interest" where
  "Interest_UnmarshalBinary unmarshal data i = unmarshal data i"

record TxLendingInterestAccrual =
  User :: string
  Time :: int64
  FromUnixTime :: int64
  ToUnixTime :: int64
  Tx_Earned :: string
  Tx_Owed :: string

definition UserInterestKey :: "string \<Rightarrow> string" where
  "UserInterestKey userID = ''interest:users:'' @ userID"

definition InterestEarned :: string where "InterestEarned = ''earned''"
definition InterestOwed :: string where "InterestOwed = ''owed''"
definition InterestClaimed :: string where "InterestClaimed = ''claimed''"
definition InterestPaid :: string where "InterestPaid = ''paid''"
definition InterestLastUpdated :: string where "InterestLastUpdated = ''last_updated''"
definition MODULE :: string where "MODULE = ''module''"

lemmas interest_fields = InterestEarned_def InterestOwed_def InterestClaimed_def InterestPaid_def
  InterestLastUpdated_def

definition secondsPerYear :: gofloat where "secondsPerYear = f64_of_int 31556952"

section \<open>Reading and writing\<close>

definition parse_uint :: "string \<Rightarrow> error + uint64" where
  "parse_uint s = (case ParseUint s of Inl e \<Rightarrow> Inl (NumError ''ParseUint'' s e) | Inr n \<Rightarrow> Inr n)"

text \<open>One hash as an interest; a missing hash is the zero value.\<close>

definition parse_interest :: "(string \<Rightarrow> error + time) \<Rightarrow> (string, string) gomap \<Rightarrow> error + Interest" where
  "parse_interest parse_time res =
     (if length res = 0 then Inr new_Interest
      else case parse_uint (mget '''' res InterestEarned) of Inl err \<Rightarrow> Inl err | Inr earned \<Rightarrow>
        (case parse_uint (mget '''' res InterestOwed) of Inl err \<Rightarrow> Inl err | Inr owed \<Rightarrow>
        (case parse_uint (mget '''' res InterestClaimed) of Inl err \<Rightarrow> Inl err | Inr claimed \<Rightarrow>
        (case parse_uint (mget '''' res InterestPaid) of Inl err \<Rightarrow> Inl err | Inr paid \<Rightarrow>
        (case parse_time (mget '''' res InterestLastUpdated) of Inl err \<Rightarrow> Inl err | Inr lastUpdated \<Rightarrow>
          Inr \<lparr>Earned = earned, Owed = owed, Claimed = claimed, Paid = paid,
            Interest_LastUpdated = lastUpdated\<rparr>)))))"

fun collect_interest ::
  "(string \<Rightarrow> error + time) \<Rightarrow> (error + (string, string) gomap) list \<Rightarrow> Interest list \<Rightarrow> error + Interest list" where
  "collect_interest parse_time [] interests = Inr interests"
| "collect_interest parse_time (c # cmd) interests =
     (case c of Inl err \<Rightarrow> Inl err
      | Inr res \<Rightarrow> (case parse_interest parse_time res of Inl err \<Rightarrow> Inl err
        | Inr interest \<Rightarrow> collect_interest parse_time cmd (interests @ [interest])))"

definition getInterestTx ::
  "(string \<Rightarrow> error + time) \<Rightarrow> (time, 's) Cmdable \<Rightarrow> string list \<Rightarrow> 's \<Rightarrow> (error + Interest list) \<times> 's" where
  "getInterestTx parse_time tx keys s =
     (case TxPipelined_HGetAll tx keys s of
        ((Some err, _), s) \<Rightarrow> (Inl err, s)
      | ((None, cmd), s) \<Rightarrow> (collect_interest parse_time cmd [], s))"

text \<open>The captured variables are \<open>interests\<close> and \<open>err\<close>.\<close>

definition getInterest_f ::
  "(string \<Rightarrow> error + time) \<Rightarrow> (time, 's) Cmdable \<Rightarrow> string list \<Rightarrow> (Interest list \<times> error option, 's) txn" where
  "getInterest_f parse_time tx keys = (\<lambda>((interests, err), s).
     case getInterestTx parse_time tx keys s of
       (Inl e, s) \<Rightarrow> (Some e, ([], Some e), s)
     | (Inr is, s) \<Rightarrow> (None, (is, None), s))"

definition getInterest ::
  "('b, (Interest list \<times> error option) \<times> 's) Client \<Rightarrow> (time, 's) Cmdable \<Rightarrow> (string \<Rightarrow> error + time) \<Rightarrow> int64
     \<Rightarrow> string list \<Rightarrow> 's \<Rightarrow> ((error + Interest list) \<times> 's) option" where
  "getInterest rdb tx parse_time timeout keys s =
     (case TryTransaction rdb (getInterest_f parse_time tx keys) (NewExponentialBackOff rdb timeout) keys (([], None), s) of
        None \<Rightarrow> None
      | Some (Some err, _, s) \<Rightarrow> Some (Inl err, s)
      | Some (None, (interests, _), s) \<Rightarrow> Some (Inr interests, s))"

definition GetUserInterest ::
  "('b, (Interest list \<times> error option) \<times> 's) Client \<Rightarrow> (time, 's) Cmdable \<Rightarrow> (string \<Rightarrow> error + time) \<Rightarrow> int64
     \<Rightarrow> string list \<Rightarrow> 's \<Rightarrow> ((error + Interest list) \<times> 's) option" where
  "GetUserInterest rdb tx parse_time timeout userID s =
     (let watch = map UserInterestKey userID in getInterest rdb tx parse_time timeout watch s)"

definition interest_values :: "Interest \<Rightarrow> (string \<times> time arg) list" where
  "interest_values interest =
     [(InterestEarned, AUint (Earned interest)), (InterestOwed, AUint (Owed interest)),
      (InterestClaimed, AUint (Claimed interest)), (InterestPaid, AUint (Paid interest)),
      (InterestLastUpdated, ATime (Interest_LastUpdated interest))]"

definition setUserInterestTx :: "(time, 's) Cmdable \<Rightarrow> string \<Rightarrow> Interest \<Rightarrow> 's \<Rightarrow> error option \<times> 's" where
  "setUserInterestTx tx userID interest s =
     (let key = UserInterestKey userID; values = interest_values interest
      in case HMSet tx key values s of (Some err, s) \<Rightarrow> (Some err, s) | (None, s) \<Rightarrow> (None, s))"

text \<open>
  A request is a map to pointers. The values of a nil pointer cannot be read: the closure panics. It then
  returns no error, which ends the retries, and leaves \<open>None\<close>.
\<close>

fun write_interest ::
  "(time, 's) Cmdable \<Rightarrow> (string, Interest option) gomap \<Rightarrow> 's \<Rightarrow> error option \<times> unit option \<times> 's" where
  "write_interest tx [] s = (None, Some (), s)"
| "write_interest tx ((userID, interest) # reqs) s =
     (case interest of None \<Rightarrow> (None, None, s)
      | Some interest \<Rightarrow>
        (case setUserInterestTx tx userID interest s of
           (Some err, s) \<Rightarrow> (Some err, Some (), s) | (None, s) \<Rightarrow> write_interest tx reqs s))"

definition SetUserInterest_f :: "(time, 's) Cmdable \<Rightarrow> (string, Interest option) gomap \<Rightarrow> (unit option, 's) txn" where
  "SetUserInterest_f tx reqs = (\<lambda>(_, s). write_interest tx reqs s)"

text \<open>The keys to watch follow as many empty strings.\<close>

definition SetUserInterest ::
  "('b, unit option \<times> 's) Client \<Rightarrow> (time, 's) Cmdable \<Rightarrow> int64 \<Rightarrow> (string, Interest option) gomap \<Rightarrow> 's
     \<Rightarrow> (error option \<times> 's) option" where
  "SetUserInterest rdb tx timeout reqs s =
     (let watch = replicate (length reqs) '''' @ map (UserInterestKey \<circ> fst) reqs
      in case TryTransaction rdb (SetUserInterest_f tx reqs) (NewExponentialBackOff rdb timeout) watch (Some (), s) of
           None \<Rightarrow> None
         | Some (_, None, _) \<Rightarrow> None
         | Some (err, Some _, s) \<Rightarrow> Some (err, s))"

section \<open>Accrual\<close>

text \<open>The search for the user's position among the values of the hash.\<close>

fun find_position ::
  "pos_marshal \<Rightarrow> pos_unmarshal \<Rightarrow> string \<Rightarrow> string list \<Rightarrow> Position \<Rightarrow> error + Position" where
  "find_position marshal unmarshal userID [] userPositions = Inr userPositions"
| "find_position marshal unmarshal userID (v # vs) userPositions =
     (case Position_UnmarshalBinary marshal unmarshal v new_Position of
        (Some err, p) \<Rightarrow> Inl err
      | (None, p) \<Rightarrow> if UserID p = userID then Inr p else find_position marshal unmarshal userID vs userPositions)"

fun find_positions ::
  "pos_marshal \<Rightarrow> pos_unmarshal \<Rightarrow> string \<Rightarrow> (error + (string, string) gomap) list \<Rightarrow> Position \<Rightarrow> error + Position" where
  "find_positions marshal unmarshal userID [] userPositions = Inr userPositions"
| "find_positions marshal unmarshal userID (c # cmds) userPositions =
     (case c of Inl err \<Rightarrow> Inl err
      | Inr res \<Rightarrow> (case find_position marshal unmarshal userID (map snd res) userPositions of
          Inl err \<Rightarrow> Inl err
        | Inr p \<Rightarrow> find_positions marshal unmarshal userID cmds p))"

definition first_interest :: "Interest list \<Rightarrow> Interest" where
  "first_interest interest = (if length interest > 0 then interest ! 0 else new_Interest)"

definition interest_accrued :: "time \<Rightarrow> Interest \<Rightarrow> gofloat \<Rightarrow> gofloat \<Rightarrow> gofloat" where
  "interest_accrued now userInterest flatRate borrowedValue =
     (let yearsElapsed = f64_div (f64_of_int (sint (Unix now - Unix (Interest_LastUpdated userInterest)))) secondsPerYear
      in f64_mul (f64_mul yearsElapsed flatRate) borrowedValue)"

text \<open>The computation between the reads and the writes.\<close>

definition accrue :: "(gofloat \<Rightarrow> uint64) \<Rightarrow> time \<Rightarrow> gofloat \<Rightarrow> gofloat \<Rightarrow> Interest \<times> Interest \<Rightarrow> Interest \<times> Interest" where
  "accrue oor now flatRate borrowedValue = (\<lambda>(userInterest, moduleInterest).
     if flt (FZero False) borrowedValue \<and> After now (Interest_LastUpdated userInterest)
     then let interestAccrued = f64_to_uint64 oor (interest_accrued now userInterest flatRate borrowedValue)
       in (userInterest\<lparr>Owed := Owed userInterest + interestAccrued\<rparr>,
           moduleInterest\<lparr>Owed := Owed moduleInterest + interestAccrued\<rparr>)
     else (userInterest, moduleInterest))"

text \<open>
  What \<open>accrueLendingInterestTx\<close> takes from outside: the JSON library, the time format, the clock, the
  float conversions.
\<close>

record externals =
  x_marshal :: pos_marshal
  x_unmarshal :: pos_unmarshal
  x_parse_time :: "string \<Rightarrow> error + time"
  x_now :: time
  x_now' :: time
  x_format_float :: "gofloat \<Rightarrow> string"
  x_oor :: "gofloat \<Rightarrow> uint64"

text \<open>The two writes and the record of the accrual.\<close>

definition store_accrual ::
  "externals \<Rightarrow> (time, 's) Cmdable \<Rightarrow> string \<Rightarrow> Interest \<times> Interest \<Rightarrow> 's \<Rightarrow> (error + TxLendingInterestAccrual) \<times> 's" where
  "store_accrual x tx userID = (\<lambda>(userInterest, moduleInterest) s.
     case setUserInterestTx tx userID userInterest s of
       (Some err, s) \<Rightarrow> (Inl err, s)
     | (None, s) \<Rightarrow>
       (case setUserInterestTx tx MODULE moduleInterest s of
          (Some err, s) \<Rightarrow> (Inl err, s)
        | (None, s) \<Rightarrow>
          (Inr \<lparr>User = userID, Time = Unix (x_now x),
            FromUnixTime = Unix (Interest_LastUpdated userInterest), ToUnixTime = Unix (x_now x),
            Tx_Earned = ''0'', Tx_Owed = x_format_float x (f64_of_int (uint (Owed userInterest)))\<rparr>, s)))"

definition accrueLendingInterestTx ::
  "externals \<Rightarrow> (time, 's) Cmdable \<Rightarrow> string \<Rightarrow> AssetData \<Rightarrow> gofloat \<Rightarrow> 's
     \<Rightarrow> ((error + TxLendingInterestAccrual) \<times> 's) option" where
  "accrueLendingInterestTx x tx userID assetData flatRate s =
     (case getInterestTx (x_parse_time x) tx [MODULE] s of
        (Inl err, s) \<Rightarrow> Some (Inl err, s)
      | (Inr interest, s) \<Rightarrow>
        let moduleInterest = first_interest interest
        in case GetUsersPositionCmd tx [userID] s of
        ((Some err, _), s) \<Rightarrow> Some (Inl err, s)
      | ((None, userPositionsCmd), s) \<Rightarrow>
        (case find_positions (x_marshal x) (x_unmarshal x) userID userPositionsCmd (InitialPosition (x_marshal x) userID) of
        Inl err \<Rightarrow> Some (Inl err, s)
      | Inr userPositions \<Rightarrow>
        (case ExactBorrowedValue assetData userPositions of
        None \<Rightarrow> None
      | Some (_, Some err) \<Rightarrow> Some (Inl err, s)
      | Some (borrowedValue, None) \<Rightarrow>
        (case getInterestTx (x_parse_time x) tx [userID] s of
        (Inl err, s) \<Rightarrow> Some (Inl err, s)
      | (Inr interest, s) \<Rightarrow>
        let userInterest = first_interest interest
        in if After (Interest_LastUpdated userInterest) (x_now' x)
        then Some (Inl (ErrorString ''last updated time is in the future''), s)
        else Some (store_accrual x tx userID
          (accrue (x_oor x) (x_now x) flatRate borrowedValue (userInterest, moduleInterest)) s)))))"

text \<open>
  The closures. A panic in them ends the retries: they then return no error and leave \<open>None\<close>.
\<close>

definition AccrueLendingInterest_f ::
  "externals \<Rightarrow> (time, 's) Cmdable \<Rightarrow> string \<Rightarrow> AssetData \<Rightarrow> gofloat \<Rightarrow> (TxLendingInterestAccrual option option, 's) txn" where
  "AccrueLendingInterest_f x tx userID assetData flatRate = (\<lambda>(accrualTransaction, s).
     case accrueLendingInterestTx x tx userID assetData flatRate s of
       None \<Rightarrow> (None, None, s)
     | Some (Inl err, s) \<Rightarrow> (Some err, accrualTransaction, s)
     | Some (Inr accrual, s) \<Rightarrow> (None, Some (Some accrual), s))"

definition AccrueLendingInterest ::
  "externals \<Rightarrow> ('b, TxLendingInterestAccrual option option \<times> 's) Client \<Rightarrow> (time, 's) Cmdable \<Rightarrow> int64 \<Rightarrow> string
     \<Rightarrow> AssetData \<Rightarrow> gofloat \<Rightarrow> 's \<Rightarrow> ((error + TxLendingInterestAccrual option) \<times> 's) option" where
  "AccrueLendingInterest x rdb tx timeout userID assetData flatRate s =
     (let watch = [UserInterestKey userID, UserPositionKey userID, UserInterestKey MODULE, ModulePositionKey]
      in case TryTransaction rdb (AccrueLendingInterest_f x tx userID assetData flatRate)
           (NewExponentialBackOff rdb timeout) watch (Some None, s) of
        None \<Rightarrow> None
      | Some (Some err, _, s) \<Rightarrow> Some (Inl err, s)
      | Some (None, None, s) \<Rightarrow> None
      | Some (None, Some accrualTransaction, s) \<Rightarrow> Some (Inr accrualTransaction, s))"

text \<open>The loop over the users appends to the captured slice; \<open>None\<close> is a panic.\<close>

fun accrue_users ::
  "externals \<Rightarrow> (time, 's) Cmdable \<Rightarrow> AssetData \<Rightarrow> gofloat \<Rightarrow> string list
     \<Rightarrow> (TxLendingInterestAccrual list option, 's) txn" where
  "accrue_users x tx assetData flatRate [] (accrualTransactions, s) = (None, accrualTransactions, s)"
| "accrue_users x tx assetData flatRate (userID # users) (accrualTransactions, s) =
     (case accrueLendingInterestTx x tx userID assetData flatRate s of
        None \<Rightarrow> (None, None, s)
      | Some (Inl err, s) \<Rightarrow> (Some err, accrualTransactions, s)
      | Some (Inr accrual, s) \<Rightarrow>
          accrue_users x tx assetData flatRate users (map_option (\<lambda>ts. ts @ [accrual]) accrualTransactions, s))"

definition AccrueAllLendingInterest ::
  "externals \<Rightarrow> ('b, TxLendingInterestAccrual list option \<times> 's) Client \<Rightarrow> (time, 's) Cmdable \<Rightarrow> int64
     \<Rightarrow> AssetData \<Rightarrow> gofloat \<Rightarrow> string list \<Rightarrow> string list \<Rightarrow> 's
     \<Rightarrow> ((error + TxLendingInterestAccrual list) \<times> 's) option" where
  "AccrueAllLendingInterest x rdb tx timeout assetData flatRate watch users s =
     (let watch = watch @ [UserInterestKey MODULE, ModulePositionKey]
      in case TryTransaction rdb (accrue_users x tx assetData flatRate users)
           (NewExponentialBackOff rdb timeout) watch (Some [], s) of
        None \<Rightarrow> None
      | Some (Some err, _, s) \<Rightarrow> Some (Inl err, s)
      | Some (None, None, s) \<Rightarrow> None
      | Some (None, Some accrualTransactions, s) \<Rightarrow> Some (Inr accrualTransactions, s))"

section \<open>Interest that has been written is read back\<close>

definition interest_at :: "(time \<Rightarrow> string) \<Rightarrow> (string \<Rightarrow> string \<rightharpoonup> string) \<Rightarrow> string \<Rightarrow> Interest \<Rightarrow> bool" where
  "interest_at rfc h u i = (\<forall>(f, a) \<in> set (interest_values i). h (UserInterestKey u) f = arg_text rfc a)"

lemma UserInterestKey_inject [simp]: "UserInterestKey u = UserInterestKey v \<longleftrightarrow> u = v"
  by (simp add: UserInterestKey_def)

lemma distinct_interest_values: "distinct (map fst (interest_values i))"
  by (simp add: interest_values_def interest_fields)

lemma interest_at_cong: "h (UserInterestKey u) = h' (UserInterestKey u) \<Longrightarrow> interest_at rfc h u i = interest_at rfc h' u i"
  by (simp add: interest_at_def)

lemma interest_at_written:
  "interest_at rfc (h(UserInterestKey u := written rfc (interest_values i) g)) u i"
  by (auto simp: interest_at_def written_def interest_values_def interest_fields)

lemma setUserInterestTx_law:
  assumes "hash_server content rfc tx" "setUserInterestTx tx u i s = (e, s')"
  shows "content s' = (content s)(UserInterestKey u := written rfc (interest_values i) (content s (UserInterestKey u)))
    \<or> e \<noteq> None \<and> content s' = content s"
proof -
  have "HMSet tx (UserInterestKey u) (interest_values i) s = (e, s')"
    using assms(2) by (auto simp: setUserInterestTx_def Let_def split: prod.splits option.splits)
  from hash_server_HMSet [OF assms(1) this distinct_interest_values] show ?thesis by auto
qed

lemma write_interest_at:
  assumes "hash_server content rfc tx" "write_interest tx reqs s = (None, Some l, s')" "wf_map reqs"
  shows "(\<forall>(u, p) \<in> set reqs. \<exists>i. p = Some i \<and> interest_at rfc (content s') u i)
    \<and> (\<forall>k. k \<notin> UserInterestKey ` fst ` set reqs \<longrightarrow> content s' k = content s k)"
  using assms(2,3)
proof (induction reqs arbitrary: s)
  case (Cons r reqs)
  obtain u i where r: "r = (u, Some i)" using Cons.prems(1) by (cases r; cases "snd r") auto
  obtain e s1 where set: "setUserInterestTx tx u i s = (e, s1)" by (cases "setUserInterestTx tx u i s")
  then have e: "e = None" and rest: "write_interest tx reqs s1 = (None, Some l, s')"
    using Cons.prems(1) by (auto simp: r split: option.splits)
  have wf: "wf_map reqs" and u: "u \<notin> fst ` set reqs" using Cons.prems(2) by (auto simp: r wf_map_def)
  note IH = Cons.IH [OF rest wf]
  have s1: "content s1 = (content s)(UserInterestKey u := written rfc (interest_values i) (content s (UserInterestKey u)))"
    using setUserInterestTx_law [OF assms(1) set] e by simp
  have "UserInterestKey u \<notin> UserInterestKey ` fst ` set reqs" using u by force
  with IH have "content s' (UserInterestKey u) = content s1 (UserInterestKey u)" by blast
  then have "interest_at rfc (content s') u i"
    using interest_at_written s1 interest_at_cong by metis
  then show ?case using IH s1 by (auto simp: r)
qed simp

interpretation set_interest: transaction "SetUserInterest_f tx reqs"
  "\<lambda>_ s. hash_server content rfc tx \<and> wf_map reqs"
  "\<lambda>l s. l \<noteq> None \<longrightarrow> (\<forall>(u, p) \<in> set reqs. \<exists>i. p = Some i \<and> interest_at rfc (content s) u i)" "\<lambda>_ _. True"
  for tx :: "(time, 's) Cmdable" and reqs rfc and content :: "'s \<Rightarrow> string \<Rightarrow> string \<rightharpoonup> string"
proof unfold_locales
  fix l s l' s' assume a: "hash_server content rfc tx \<and> wf_map reqs" "SetUserInterest_f tx reqs (l, s) = (None, l', s')"
  show "l' \<noteq> None \<longrightarrow> (\<forall>(u, p) \<in> set reqs. \<exists>i. p = Some i \<and> interest_at rfc (content s') u i)"
  proof
    assume "l' \<noteq> None"
    then obtain k where "write_interest tx reqs s = (None, Some k, s')"
      using a(2) by (auto simp: SetUserInterest_f_def)
    from write_interest_at [OF conjunct1 [OF a(1)] this conjunct2 [OF a(1)]]
    show "\<forall>(u, p) \<in> set reqs. \<exists>i. p = Some i \<and> interest_at rfc (content s') u i" by (rule conjunct1)
  qed
qed

lemma parse_interest_at:
  assumes "hash_of (h (UserInterestKey u)) (Inr m)" "interest_at rfc h u i" "\<And>t. parse_time (rfc t) = Inr t"
  shows "parse_interest parse_time m = Inr i"
proof -
  have m: "map_of m = h (UserInterestKey u)" using assms(1) by (simp add: hash_of_def)
  have f: "map_of m InterestEarned = Some (FormatUint (Earned i))" "map_of m InterestOwed = Some (FormatUint (Owed i))"
    "map_of m InterestClaimed = Some (FormatUint (Claimed i))" "map_of m InterestPaid = Some (FormatUint (Paid i))"
    "map_of m InterestLastUpdated = Some (rfc (Interest_LastUpdated i))"
    using assms(2) by (auto simp: m interest_at_def interest_values_def)
  then have "length m \<noteq> 0" by auto
  then show ?thesis
    by (simp add: parse_interest_def parse_uint_def mget_def f ParseUint_FormatUint assms(3))
qed

lemma collect_interest_at:
  assumes "list_all2 (\<lambda>k r. hash_of (h k) r) (map UserInterestKey us) rs"
    and "\<forall>u \<in> set us. interest_at rfc h u (g u)" "\<And>t. parse_time (rfc t) = Inr t"
    and "collect_interest parse_time rs is = Inr res"
  shows "res = is @ map g us"
  using assms(1,2,4)
proof (induction us arbitrary: rs "is")
  case (Cons u us)
  then obtain r rs' where rs: "rs = r # rs'" "hash_of (h (UserInterestKey u)) r"
    "list_all2 (\<lambda>k r. hash_of (h k) r) (map UserInterestKey us) rs'"
    by (auto simp: list_all2_Cons1)
  then obtain m where m: "r = Inr m" using Cons.prems(3) by (cases r) auto
  have "parse_interest parse_time m = Inr (g u)"
    using parse_interest_at [OF _ _ assms(3)] rs(2) m Cons.prems(2) by simp
  then have "collect_interest parse_time rs' (is @ [g u]) = Inr res" using Cons.prems(3) rs(1) m by simp
  from Cons.IH [OF rs(3) _ this] Cons.prems(2) show ?case by simp
qed simp

text \<open>Reading does not depend on the variables that failed attempts have left.\<close>

lemma get_interest_run:
  "getInterest_f parse_time tx keys (l, s) = (err, l', s') \<Longrightarrow>
   getInterestTx parse_time tx keys s = (case err of None \<Rightarrow> Inr (fst l') | Some e \<Rightarrow> Inl e, s')"
  by (cases "getInterestTx parse_time tx keys s"; cases "fst (getInterestTx parse_time tx keys s)")
    (auto simp: getInterest_f_def split_def)

lemma getInterestTx_law:
  assumes "hash_server content rfc tx" "getInterestTx parse_time tx keys s = (r, s')"
  shows "content s' = content s \<and> (\<forall>interests. r = Inr interests \<longrightarrow>
     (\<exists>rs. list_all2 (\<lambda>k r. hash_of (content s k) r) keys rs \<and> collect_interest parse_time rs [] = Inr interests))"
proof -
  obtain e rs s1 where p: "TxPipelined_HGetAll tx keys s = ((e, rs), s1)" by (metis prod.exhaust)
  from hash_server_pipeline [OF assms(1) p] assms(2) show ?thesis
    by (cases e) (auto simp: getInterestTx_def p)
qed

lemma get_interest_restartable:
  assumes "hash_server content rfc tx"
  shows "restartable (getInterest_f parse_time tx keys) (\<lambda>_. True) (\<lambda>s s'. content s' = content s)"
proof unfold_locales
  fix l s e l' s' assume "getInterest_f parse_time tx keys (l, s) = (Some e, l', s')"
  from getInterestTx_law [OF assms get_interest_run [OF this]] show "True \<and> content s' = content s" by simp
next
  fix l k s l' s' assume "getInterest_f parse_time tx keys (l, s) = (None, l', s')"
  then show "getInterest_f parse_time tx keys (k, s) = (None, l', s')"
    by (cases l; cases k) (simp add: getInterest_f_def)
qed simp_all

text \<open>
  C26: once \<open>SetUserInterest\<close> has returned without an error, \<open>GetUserInterest\<close>, when it succeeds,
  returns the interest of the requested users as it was set and in the order of the request.
\<close>

theorem GetUserInterest_after_Set:
  assumes "hash_server content rfc tx" "\<And>t. parse_time (rfc t) = Inr t" "wf_map reqs"
    and "retries rdb" "watches (\<lambda>_ _. True) rdb" "retries rdb'" "watches (\<lambda>s s'. content s' = content s) rdb'"
    and "SetUserInterest rdb tx timeout reqs s = Some (None, s')"
    and "set users \<subseteq> fst ` set reqs"
    and "GetUserInterest rdb' tx parse_time timeout users s' = Some (Inr interests, s'')"
  shows "map Some interests = map (mget None reqs) users"
proof -
  let ?g = "\<lambda>u. the (mget None reqs u)"
  have set: "\<forall>(u, p) \<in> set reqs. \<exists>i. p = Some i \<and> interest_at rfc (content s') u i"
  proof -
    obtain l b keys k where t: "TryTransaction rdb (SetUserInterest_f tx reqs) b keys (l, s) = Some (None, Some k, s')"
      using assms(8) by (auto simp: SetUserInterest_def Let_def split: option.splits)
    show ?thesis
      using set_interest.TryTransaction_post [OF t assms(4,5), where content = content and rfc = rfc] assms(1,3) by blast
  qed
  have at': "mget None reqs u = Some (?g u) \<and> interest_at rfc (content s') u (?g u)" if u: "u \<in> set users" for u
  proof -
    obtain p where p: "(u, p) \<in> set reqs" using assms(9) u by force
    with set obtain i where "p = Some i" "interest_at rfc (content s') u i" by fastforce
    with p show ?thesis using assms(3) by (simp add: mget_in)
  qed
  then have at: "\<forall>u \<in> set users. interest_at rfc (content s') u (?g u)" by blast
  let ?keys = "map UserInterestKey users"
  obtain l where t: "TryTransaction rdb' (getInterest_f parse_time tx ?keys) (NewExponentialBackOff rdb' timeout) ?keys
      (([], None), s') = Some (None, (interests, l), s'')"
    using assms(10) by (auto simp: GetUserInterest_def getInterest_def Let_def split: option.splits)
  obtain s1 where s1: "content s1 = content s'"
    "getInterest_f parse_time tx ?keys (([], None), s1) = (None, (interests, l), s'')"
    using restartable.TryTransaction_one_run [OF get_interest_restartable [OF assms(1)] t assms(6,7)] by blast
  from getInterestTx_law [OF assms(1) get_interest_run [OF s1(2)]] s1(1) obtain rs
    where "list_all2 (\<lambda>k r. hash_of (content s' k) r) ?keys rs" "collect_interest parse_time rs [] = Inr interests"
    by auto
  from collect_interest_at [OF this(1) at assms(2) this(2)] show ?thesis using at' by simp
qed

text \<open>A time format for concrete runs: a sign and as many digits as there are nanoseconds.\<close>

definition unary_time :: "time \<Rightarrow> string" where
  "unary_time t = (if 0 \<le> t then CHR ''+'' else CHR ''-'') # replicate (nat \<bar>t\<bar>) (CHR ''1'')"

definition parse_unary :: "string \<Rightarrow> error + time" where
  "parse_unary s = (case s of [] \<Rightarrow> Inl (ErrorString ''empty'')
     | c # r \<Rightarrow> Inr (if c = CHR ''-'' then - int (length r) else int (length r)))"

lemma parse_unary_time: "parse_unary (unary_time t) = Inr t"
  by (simp add: parse_unary_def unary_time_def)

definition demo_interest :: Interest where
  "demo_interest = \<lparr>Earned = 1, Owed = 2, Claimed = 0, Paid = 3, Interest_LastUpdated = 4\<rparr>"

definition demo_hash :: "(string, string) gomap" where
  "demo_hash = [(''earned'', ''1''), (''owed'', ''2''), (''claimed'', ''0''), (''paid'', ''3''), (''last_updated'', ''+1111'')]"

lemma parse_demo_hash: "parse_interest parse_unary demo_hash = Inr demo_interest"
proof -
  have "interest_at unary_time (mem_content [(UserInterestKey ''u'', demo_hash)]) ''u'' demo_interest" by code_simp
  moreover have "hash_of (mem_content [(UserInterestKey ''u'', demo_hash)] (UserInterestKey ''u'')) (Inr demo_hash)"
    by (simp add: hash_of_def wf_map_def demo_hash_def mem_content_def mget_Cons)
  ultimately show ?thesis using parse_interest_at parse_unary_time by blast
qed

theorem GetUserInterest_after_Set_witness:
  "\<exists>s'. GetUserInterest (bounded_client 1) (mem_server unary_time) parse_unary 5 [''u'', ''u''] [(UserInterestKey ''u'', demo_hash)]
       = Some (Inr [demo_interest, demo_interest], s')"
proof -
  let ?s = "[(UserInterestKey ''u'', demo_hash)]"
  let ?get = "GetUserInterest (bounded_client 1) (mem_server unary_time) parse_unary 5 [''u'', ''u'']"
  have s': "SetUserInterest (bounded_client 1) (mem_server unary_time) 5 [(''u'', Some demo_interest)] [] = Some (None, ?s)"
    by code_simp
  have "AList.clearjunk demo_hash = demo_hash" by code_simp
  then have "is_ok (fst (the (?get ?s))) \<and> ?get ?s \<noteq> None"
    by (simp add: GetUserInterest_def getInterest_def TryTransaction_def bounded_client_def getInterest_f_def
        getInterestTx_def mem_server_def mget_Cons parse_demo_hash)
  then obtain r s'' where r: "?get ?s = Some (r, s'')" "is_ok r" by auto
  then obtain interests where g: "?get ?s = Some (Inr interests, s'')" by (cases r) auto
  have "map Some interests = map (mget None [(''u'', Some demo_interest)]) [''u'', ''u'']"
    by (rule GetUserInterest_after_Set [where rfc = unary_time, OF mem_server_laws parse_unary_time _ _ _ _ _ s' _ g])
      (simp_all add: wf_map_def)
  then have "interests = [demo_interest, demo_interest]" by (auto simp: mget_Cons)
  then show ?thesis using g by simp
qed

section \<open>What the accrual stores\<close>

text \<open>
  The closure of \<open>AccrueLendingInterest\<close> can be run again: its outcome does not depend on the captured
  variable.
\<close>

interpretation accrue_run: restartable "AccrueLendingInterest_f x tx userID assetData flatRate" "\<lambda>_. True" "\<lambda>_ _. True"
  for x and tx :: "(time, 's) Cmdable" and userID assetData flatRate
  by unfold_locales (auto simp: AccrueLendingInterest_f_def split: option.splits sum.splits)

lemma getInterestTx_empty:
  assumes "hash_server content rfc tx" "getInterestTx parse_time tx [k] s = (Inr interests, s')" "content s k = Map.empty"
  shows "first_interest interests = new_Interest"
proof -
  from getInterestTx_law [OF assms(1,2)] obtain r where
    r: "hash_of (content s k) r" "collect_interest parse_time [r] [] = Inr interests"
    by (auto simp: list_all2_Cons1)
  then obtain m where "r = Inr m" by (cases r) auto
  then have "parse_interest parse_time m = Inr new_Interest" "r = Inr m"
    using r(1) assms(3) by (auto simp: hash_of_def parse_interest_def)
  then show ?thesis using r(2) by (auto simp: first_interest_def)
qed

text \<open>The raw keys under which the accrual looks for earlier interest are not keys that it writes.\<close>

definition unset_keys where
  "unset_keys content userID s \<longleftrightarrow> content s MODULE = Map.empty \<and> content s userID = Map.empty"

lemma store_accrual_law:
  assumes "hash_server content rfc tx" "store_accrual x tx u (i, m) s = (r, s')" "u \<noteq> MODULE"
  shows "(\<forall>k. k \<noteq> UserInterestKey u \<longrightarrow> k \<noteq> UserInterestKey MODULE \<longrightarrow> content s' k = content s k)
    \<and> (is_ok r \<longrightarrow> interest_at rfc (content s') u i \<and> interest_at rfc (content s') MODULE m)"
proof -
  obtain e1 s1 where 1: "setUserInterestTx tx u i s = (e1, s1)" by fastforce
  obtain e2 s2 where 2: "setUserInterestTx tx MODULE m s1 = (e2, s2)" by fastforce
  note law1 = setUserInterestTx_law [OF assms(1) 1] and law2 = setUserInterestTx_law [OF assms(1) 2]
  have res: "(e1 \<noteq> None \<and> s' = s1 \<or> e1 = None \<and> s' = s2) \<and> (is_ok r \<longrightarrow> e1 = None \<and> e2 = None)"
    using assms(2) by (auto simp: store_accrual_def 1 2 split: option.splits)
  have "interest_at rfc (content s') u i \<and> interest_at rfc (content s') MODULE m" if "is_ok r"
  proof -
    from that res have e: "e1 = None" "e2 = None" "s' = s2" by auto
    have u: "interest_at rfc (content s1) u i" using law1 e interest_at_written by simp
    have "content s2 (UserInterestKey u) = content s1 (UserInterestKey u)" using law2 e assms(3) by simp
    then have "interest_at rfc (content s2) u i" using u interest_at_cong [of "content s2" u "content s1"] by simp
    moreover have "interest_at rfc (content s2) MODULE m" using law2 e interest_at_written by simp
    ultimately show ?thesis using e by simp
  qed
  moreover have "content s' k = content s k" if "k \<noteq> UserInterestKey u" "k \<noteq> UserInterestKey MODULE" for k
    using res law1 law2 that by (elim conjE disjE) simp_all
  ultimately show ?thesis by blast
qed

lemma accrue_cases:
  assumes hs: "hash_server content rfc tx"
    and run: "accrueLendingInterestTx x tx userID assetData flatRate s = Some (r, s')"
  obtains (early) "\<not> is_ok r" "content s' = content s"
    | (stored) is1 is3 b s1 s2 s3 where "getInterestTx (x_parse_time x) tx [MODULE] s = (Inr is1, s1)"
      "getInterestTx (x_parse_time x) tx [userID] s2 = (Inr is3, s3)" "content s2 = content s" "content s3 = content s"
      "store_accrual x tx userID (accrue (x_oor x) (x_now x) flatRate b (first_interest is3, first_interest is1)) s3 = (r, s')"
proof -
  obtain r1 s1 where i1: "getInterestTx (x_parse_time x) tx [MODULE] s = (r1, s1)" by fastforce
  obtain e2 rs2 s2 where i2: "GetUsersPositionCmd tx [userID] s1 = ((e2, rs2), s2)" by (metis prod.exhaust)
  obtain r3 s3 where i3: "getInterestTx (x_parse_time x) tx [userID] s2 = (r3, s3)" by fastforce
  have c: "content s1 = content s" "content s2 = content s" "content s3 = content s"
    using getInterestTx_law [OF hs i1] hash_server_pipeline [OF hs i2 [unfolded GetUsersPositionCmd_def]]
      getInterestTx_law [OF hs i3] by auto
  have "(\<not> is_ok r \<and> (s' = s1 \<or> s' = s2 \<or> s' = s3))
    \<or> (\<exists>is1 is3 b. r1 = Inr is1 \<and> r3 = Inr is3 \<and>
        store_accrual x tx userID (accrue (x_oor x) (x_now x) flatRate b (first_interest is3, first_interest is1)) s3 = (r, s'))"
    using run by (auto simp: accrueLendingInterestTx_def i1 i2 i3 Let_def
        split: sum.splits option.splits if_splits prod.splits)
  then show ?thesis
  proof (elim disjE exE conjE)
    fix is1 is3 b assume "r1 = Inr is1" "r3 = Inr is3"
      "store_accrual x tx userID (accrue (x_oor x) (x_now x) flatRate b (first_interest is3, first_interest is1)) s3 = (r, s')"
    then show ?thesis using stored i1 i3 c by simp
  qed (use early c in auto)
qed

lemma accrue_step:
  assumes hs: "hash_server content rfc tx" and unset: "unset_keys content userID s"
    and keys: "userID \<noteq> MODULE" "userID \<noteq> UserInterestKey MODULE"
    and run: "accrueLendingInterestTx x tx userID assetData flatRate s = Some (r, s')"
  shows "unset_keys content userID s' \<and> (is_ok r \<longrightarrow> (\<exists>b.
     interest_at rfc (content s') userID (fst (accrue (x_oor x) (x_now x) flatRate b (new_Interest, new_Interest)))
   \<and> interest_at rfc (content s') MODULE (snd (accrue (x_oor x) (x_now x) flatRate b (new_Interest, new_Interest)))))"
  using hs run
proof (cases rule: accrue_cases)
  case early
  then show ?thesis using unset by (simp add: unset_keys_def)
next
  case (stored is1 is3 b s1 s2 s3)
  have K: "UserInterestKey userID \<noteq> userID" "UserInterestKey userID \<noteq> MODULE" "UserInterestKey MODULE \<noteq> MODULE"
    by (auto simp: UserInterestKey_def MODULE_def dest: arg_cong [where f = length])
  have unset3: "unset_keys content userID s2" "unset_keys content userID s3"
    using unset stored(3,4) by (simp_all add: unset_keys_def)
  have "first_interest is1 = new_Interest" "first_interest is3 = new_Interest"
    using getInterestTx_empty [OF hs stored(1)] getInterestTx_empty [OF hs stored(2)] unset unset3(1)
    unfolding unset_keys_def by blast+
  with stored(5) have "store_accrual x tx userID (fst (accrue (x_oor x) (x_now x) flatRate b (new_Interest, new_Interest)),
      snd (accrue (x_oor x) (x_now x) flatRate b (new_Interest, new_Interest))) s3 = (r, s')" by simp
  from store_accrual_law [OF hs this keys(1)] K keys unset3(2) show ?thesis
    unfolding unset_keys_def by metis
qed

definition accrued_at where
  "accrued_at rfc h x flatRate userID \<longleftrightarrow> (\<exists>b.
     interest_at rfc h userID (fst (accrue (x_oor x) (x_now x) flatRate b (new_Interest, new_Interest)))
   \<and> interest_at rfc h MODULE (snd (accrue (x_oor x) (x_now x) flatRate b (new_Interest, new_Interest))))"

definition accrue_inv where
  "accrue_inv content rfc tx userID s \<longleftrightarrow> hash_server content rfc tx \<and> unset_keys content userID s
     \<and> userID \<noteq> MODULE \<and> userID \<noteq> UserInterestKey MODULE"

lemma accrue_f_step:
  assumes "accrue_inv content rfc tx userID s"
    and "AccrueLendingInterest_f x tx userID assetData flatRate (l, s) = (err, l', s')"
  shows "(l' \<noteq> None \<or> err \<noteq> None \<longrightarrow> accrue_inv content rfc tx userID s')
    \<and> (err = None \<longrightarrow> l' \<noteq> None \<longrightarrow> accrued_at rfc (content s') x flatRate userID)"
proof (cases "accrueLendingInterestTx x tx userID assetData flatRate s")
  case None
  then show ?thesis using assms(2) by (simp add: AccrueLendingInterest_f_def)
next
  case (Some p)
  obtain r s1 where p: "p = (r, s1)" by (cases p)
  have "s1 = s'" "err = None \<longrightarrow> is_ok r"
    using assms(2) Some p by (auto simp: AccrueLendingInterest_f_def split: sum.splits)
  with accrue_step [of content rfc tx userID s x assetData flatRate r s'] assms(1) Some p show ?thesis
    unfolding accrue_inv_def accrued_at_def by blast
qed

lemma accrue_f_panic:
  "AccrueLendingInterest_f x tx userID assetData flatRate (l, s) = (Some e, l', s') \<Longrightarrow> l' = l"
  by (auto simp: AccrueLendingInterest_f_def split: option.splits sum.splits)

interpretation accrue_set: transaction "AccrueLendingInterest_f x tx userID assetData flatRate"
  "\<lambda>_. accrue_inv content rfc tx userID"
  "\<lambda>l s. l \<noteq> None \<longrightarrow> accrued_at rfc (content s) x flatRate userID" "\<lambda>s s'. content s' = content s"
  for x and tx :: "(time, 's) Cmdable" and userID assetData flatRate rfc and content :: "'s \<Rightarrow> string \<Rightarrow> string \<rightharpoonup> string"
proof unfold_locales
  fix s s' assume "accrue_inv content rfc tx userID s" "content s' = content s"
  then show "accrue_inv content rfc tx userID s'" by (simp add: accrue_inv_def unset_keys_def)
next
  fix l s e l' s' assume "accrue_inv content rfc tx userID s"
    "AccrueLendingInterest_f x tx userID assetData flatRate (l, s) = (Some e, l', s')"
  from accrue_f_step [OF this] show "accrue_inv content rfc tx userID s'" by simp
next
  fix l s l' s' assume "accrue_inv content rfc tx userID s"
    "AccrueLendingInterest_f x tx userID assetData flatRate (l, s) = (None, l', s')"
  from accrue_f_step [OF this] show "l' \<noteq> None \<longrightarrow> accrued_at rfc (content s') x flatRate userID" by simp
qed

text \<open>
  C27: \<open>AccrueLendingInterest\<close> looks for the earlier interest under the bare user ID and under
  \<open>module\<close>, while it stores interest under \<open>interest:users:...\<close>. As nothing is stored under the bare
  names, a successful call overwrites whatever interest the user had: earned, claimed and paid
  amounts become 0, the time of the last update becomes the zero time, and the interest owed is
  none or the one accrued since the year 1.
\<close>

theorem AccrueLendingInterest_resets:
  assumes "hash_server content rfc tx" "retries rdb" "watches (\<lambda>s s'. content s' = content s) rdb"
    and "content s MODULE = Map.empty" "content s userID = Map.empty"
    and "userID \<noteq> MODULE" "userID \<noteq> UserInterestKey MODULE"
    and "AccrueLendingInterest x rdb tx timeout userID assetData flatRate s = Some (Inr t, s')"
  shows "\<exists>i. interest_at rfc (content s') userID i \<and> Earned i = 0 \<and> Claimed i = 0 \<and> Paid i = 0
     \<and> Interest_LastUpdated i = zero_time
     \<and> (Owed i = 0 \<or> (\<exists>b. Owed i = f64_to_uint64 (x_oor x) (interest_accrued (x_now x) new_Interest flatRate b)))"
proof -
  obtain l where t: "TryTransaction rdb (AccrueLendingInterest_f x tx userID assetData flatRate) (NewExponentialBackOff rdb timeout)
      [UserInterestKey userID, UserPositionKey userID, UserInterestKey MODULE, ModulePositionKey] (Some None, s)
      = Some (None, l, s')" "l \<noteq> None"
    using assms(8) by (auto simp: AccrueLendingInterest_def Let_def split: option.splits)
  have "accrue_inv content rfc tx userID s" using assms(1,4-7) by (simp add: accrue_inv_def unset_keys_def)
  from accrue_set.TryTransaction_post [OF t(1) assms(2,3) this] t(2) obtain b
    where b: "interest_at rfc (content s') userID (fst (accrue (x_oor x) (x_now x) flatRate b (new_Interest, new_Interest)))"
    by (auto simp: accrued_at_def)
  let ?i = "fst (accrue (x_oor x) (x_now x) flatRate b (new_Interest, new_Interest))"
  have "Earned ?i = 0 \<and> Claimed ?i = 0 \<and> Paid ?i = 0 \<and> Interest_LastUpdated ?i = zero_time
     \<and> (Owed ?i = 0 \<or> Owed ?i = f64_to_uint64 (x_oor x) (interest_accrued (x_now x) new_Interest flatRate b))"
    by (simp add: accrue_def new_Interest_def Let_def)
  with b show ?thesis by blast
qed

definition demo_externals :: externals where
  "demo_externals = \<lparr>x_marshal = \<lambda>f. Some (UserID f), x_unmarshal = \<lambda>j f. (None, f\<lparr>UserID := j\<rparr>),
     x_parse_time = \<lambda>_. Inr 0, x_now = 5, x_now' = 5, x_format_float = \<lambda>_. ''0'', x_oor = \<lambda>_. 0\<rparr>"

theorem AccrueLendingInterest_resets_witness:
  "\<exists>t s' i. AccrueLendingInterest demo_externals (bounded_client 1) (mem_server (\<lambda>_. ''t'')) 5 ''u'' zeroAssetData (FFin 1)
       [(UserInterestKey ''u'', demo_hash)] = Some (Inr t, s')
     \<and> interest_at (\<lambda>_. ''t'') (mem_content s') ''u'' i \<and> Paid i = 0"
proof -
  let ?s = "[(UserInterestKey ''u'', demo_hash)]"
  let ?a = "AccrueLendingInterest demo_externals (bounded_client 1) (mem_server (\<lambda>_. ''t'')) 5 ''u'' zeroAssetData (FFin 1) ?s"
  have "map_option (is_ok \<circ> fst) ?a = Some True" by code_simp
  then obtain r s' where r: "?a = Some (r, s')" "is_ok r" by auto
  then obtain t where t: "?a = Some (Inr t, s')" by (cases r) auto
  have unset: "mem_content ?s MODULE = Map.empty" "mem_content ?s ''u'' = Map.empty"
    by (auto simp: mem_content_def mget_def UserInterestKey_def MODULE_def)
  have names: "''u'' \<noteq> MODULE" "''u'' \<noteq> UserInterestKey MODULE" by (simp_all add: MODULE_def UserInterestKey_def)
  have "\<exists>i. interest_at (\<lambda>_. ''t'') (mem_content s') ''u'' i \<and> Earned i = 0 \<and> Claimed i = 0 \<and> Paid i = 0
     \<and> Interest_LastUpdated i = zero_time
     \<and> (Owed i = 0 \<or> (\<exists>b. Owed i = f64_to_uint64 (x_oor demo_externals) (interest_accrued (x_now demo_externals) new_Interest (FFin 1) b)))"
    by (rule AccrueLendingInterest_resets [OF mem_server_laws _ _ unset names t]) simp_all
  with t show ?thesis by blast
qed

section \<open>The accruals of all users\<close>

text \<open>
  A server whose second pipeline fails once: its state counts the pipelines that have run. Only the
  reading of the module's interest of the second user fails.
\<close>

definition flaky_server :: "(time, nat) Cmdable" where
  "flaky_server =
     \<lparr>HGetAll = \<lambda>k s. (Inr [], s), HGet = \<lambda>k f s. (Inr '''', s), HMGet = \<lambda>k fs s. (Inr (map (\<lambda>_. None) fs), s),
      HSet = \<lambda>k vs s. (None, s), HMSet = \<lambda>k vs s. (None, s), Keys = \<lambda>p s. (Inr [], s),
      TxPipelined_HGetAll = \<lambda>ks s. (if s = 3 then (Some (ErrorString ''timeout''), []) else (None, map (\<lambda>_. Inr []) ks), Suc s),
      Nil = ErrorString ''redis: nil''\<rparr>"

lemma accrueLendingInterestTx_User:
  "accrueLendingInterestTx x tx userID assetData flatRate s = Some (Inr t, s') \<Longrightarrow> User t = userID"
  by (auto simp: accrueLendingInterestTx_def store_accrual_def Let_def
      split: sum.splits option.splits prod.splits if_splits)

lemma accrue_users_result:
  assumes "accrue_users x tx assetData flatRate users (Some ts, s) = (err, l, s')"
  shows "l = None \<and> err = None
    \<or> (\<exists>us rest ts'. l = Some ts' \<and> map User ts' = map User ts @ us \<and> users = us @ rest \<and> (err = None \<longleftrightarrow> rest = []))"
  using assms
proof (induction users arbitrary: ts s)
  case (Cons u users)
  show ?case
  proof (cases "accrueLendingInterestTx x tx u assetData flatRate s")
    case (Some p)
    obtain r s1 where p: "p = (r, s1)" by (cases p)
    show ?thesis
    proof (cases r)
      case (Inr t)
      then have t: "User t = u" using accrueLendingInterestTx_User [of x tx u assetData flatRate s t s1] Some p by simp
      have "accrue_users x tx assetData flatRate users (Some (ts @ [t]), s1) = (err, l, s')"
        using Cons.prems by (simp add: Some p Inr)
      from Cons.IH [OF this] show ?thesis
      proof (elim disjE exE conjE)
        fix us rest ts'
        assume "l = Some ts'" "map User ts' = map User (ts @ [t]) @ us" "users = us @ rest" "(err = None) = (rest = [])"
        then show ?thesis
          by (intro disjI2 exI [of _ "u # us"] exI [of _ rest] exI [of _ ts']) (simp add: t)
      qed simp
    next
      case (Inl e)
      then have "l = Some ts" "err = Some e" using Cons.prems by (simp_all add: Some p)
      then show ?thesis by (intro disjI2 exI [of _ "[]"] exI [of _ "u # users"] exI [of _ ts]) simp
    qed
  next
    case None
    then show ?thesis using Cons.prems by simp
  qed
qed auto

text \<open>An attempt appends to the slice what it would have put into an empty one.\<close>

lemma accrue_users_append:
  "accrue_users x tx assetData flatRate users (Some ts, s) =
     (case accrue_users x tx assetData flatRate users (Some [], s) of (err, l, s') \<Rightarrow> (err, map_option ((@) ts) l, s'))"
proof (induction users arbitrary: ts s)
  case (Cons u users)
  show ?case
    using Cons.IH [of "ts @ [t]" s1 for t s1] Cons.IH [of "[t]" s1 for t s1]
    by (auto simp: option.map_comp comp_def split: option.splits sum.splits prod.splits)
qed simp

lemma accrue_users_alone:
  assumes "accrue_users x tx assetData flatRate users (Some ts, s) = (err, Some ts', s')"
  obtains acc where "accrue_users x tx assetData flatRate users (Some [], s) = (err, Some acc, s')" "ts' = ts @ acc"
    "\<exists>rest. users = map User acc @ rest \<and> (err = None \<longleftrightarrow> rest = [])"
proof -
  from assms obtain acc where acc: "accrue_users x tx assetData flatRate users (Some [], s) = (err, Some acc, s')" "ts' = ts @ acc"
    unfolding accrue_users_append [of _ _ _ _ users ts] by (auto split: prod.splits)
  from accrue_users_result [OF acc(1)] that [OF acc] show ?thesis by auto
qed

lemma accrue_users_error: "accrue_users x tx assetData flatRate users (Some ts, s) = (Some e, l, s') \<Longrightarrow> l \<noteq> None"
  using accrue_users_result [of x tx assetData flatRate users ts s "Some e" l s'] by auto

text \<open>
  The attempts \<open>op\<close> of a client to run the transaction \<open>txn\<close>, up to the first that succeeds, with what each
  attempt that ran it would have put into an empty slice; \<open>s\<^sub>1\<close> is the state that the attempt found. An
  attempt may also fail without running it.
\<close>

inductive accrual_attempts ::
  "('l list option \<times> 's \<Rightarrow> error option \<times> 'l list option \<times> 's) \<Rightarrow> ('l list option, 's) txn
    \<Rightarrow> 'l list option \<times> 's \<Rightarrow> 'l list list \<Rightarrow> 'l list option \<times> 's \<Rightarrow> bool" for op txn where
  succeeded: "op (l, s) = (None, l', s') \<Longrightarrow> txn (l, s\<^sub>1) = (None, l', s') \<Longrightarrow> txn (Some [], s\<^sub>1) = (None, Some acc, s')
    \<Longrightarrow> accrual_attempts op txn (l, s) [acc] (l', s')"
| failed: "op (l, s) = (Some e, l', s') \<Longrightarrow> txn (l, s\<^sub>1) = (Some e, l', s') \<Longrightarrow> txn (Some [], s\<^sub>1) = (Some e, Some acc, s')
    \<Longrightarrow> accrual_attempts op txn (l', s') accs w \<Longrightarrow> accrual_attempts op txn (l, s) (acc # accs) w"
| not_run: "op (l, s) = (Some e, l, s') \<Longrightarrow> accrual_attempts op txn (l, s') accs w \<Longrightarrow> accrual_attempts op txn (l, s) accs w"

definition kept_accruals :: "string list \<Rightarrow> TxLendingInterestAccrual list list \<Rightarrow> bool" where
  "kept_accruals users failed = list_all (\<lambda>acc. strict_prefix (map User acc) users) failed"

lemma attempts_accruals:
  assumes alone: "\<And>ts s err ts' s'. txn (Some ts, s) = (err, Some ts', s') \<Longrightarrow>
      \<exists>acc. txn (Some [], s) = (err, Some acc, s') \<and> ts' = ts @ acc \<and> P err acc"
    and some: "\<And>ts s e l s'. txn (Some ts, s) = (Some e, l, s') \<Longrightarrow> l \<noteq> None"
    and watched: "\<And>l s. \<exists>s\<^sub>1. op (l, s) = txn (l, s\<^sub>1) \<or> (\<exists>e. op (l, s) = (Some e, l, s\<^sub>1))"
    and run: "attempts op w r" "r = (None, Some ts', s')" "w = (Some ts, s)"
  shows "\<exists>failed acc. accrual_attempts op txn w (failed @ [acc]) (Some ts', s')
    \<and> ts' = ts @ concat failed @ acc \<and> P None acc \<and> (\<forall>a \<in> set failed. \<exists>e. P (Some e) a)"
  using run
proof (induction arbitrary: ts s rule: attempts.induct)
  case (last w r)
  then have op: "op (Some ts, s) = (None, Some ts', s')" by simp
  obtain s1 where t: "txn (Some ts, s1) = (None, Some ts', s')" using watched [of "Some ts" s] op by auto
  from alone [OF t] obtain acc where acc: "txn (Some [], s1) = (None, Some acc, s')" "ts' = ts @ acc" "P None acc" by blast
  have "accrual_attempts op txn w ([] @ [acc]) (Some ts', s')"
    unfolding last(3) append_Nil by (rule succeeded [where s\<^sub>1 = s1]) (fact op t acc(1))+
  then show ?case using acc(2,3) by (intro exI [of _ "[]"] exI [of _ acc]) simp
next
  case (again w e w' r)
  obtain l1 s2 where w': "w' = (l1, s2)" by (cases w')
  then have op: "op (Some ts, s) = (Some e, l1, s2)" using again.hyps(1) again.prems(2) by simp
  show ?case
  proof (cases "\<exists>s1. txn (Some ts, s1) = (Some e, l1, s2)")
    case False
    then have n: "w' = (Some ts, s2)" using watched [of "Some ts" s] op w' by auto
    from again.IH [OF again.prems(1) n] obtain failed acc where
      f: "accrual_attempts op txn w' (failed @ [acc]) (Some ts', s')
        \<and> ts' = ts @ concat failed @ acc \<and> P None acc \<and> (\<forall>a \<in> set failed. \<exists>e. P (Some e) a)" by (elim exE) (rule that)
    have op': "op (Some ts, s) = (Some e, Some ts, s2)" using op n w' by simp
    have "accrual_attempts op txn w (failed @ [acc]) (Some ts', s')"
      unfolding again.prems(2) by (rule not_run [where s' = s2 and e = e]) (fact op' conjunct1 [OF f, unfolded n])+
    with f show ?thesis by blast
  next
    case True
    then obtain s1 where t: "txn (Some ts, s1) = (Some e, l1, s2)" by blast
    then obtain ts1 where l1: "l1 = Some ts1" using some by blast
    from alone [OF t [unfolded l1]] obtain acc where acc: "txn (Some [], s1) = (Some e, Some acc, s2)"
      "ts1 = ts @ acc" "P (Some e) acc" by blast
    have n: "w' = (Some ts1, s2)" using w' l1 by simp
    from again.IH [OF again.prems(1) n] obtain failed acc' where
      f: "accrual_attempts op txn w' (failed @ [acc']) (Some ts', s')
        \<and> ts' = ts1 @ concat failed @ acc' \<and> P None acc' \<and> (\<forall>a \<in> set failed. \<exists>e. P (Some e) a)" by (elim exE) (rule that)
    have "accrual_attempts op txn w ((acc # failed) @ [acc']) (Some ts', s')"
      unfolding again.prems(2) append_Cons
      by (rule accrual_attempts.failed [where s\<^sub>1 = s1 and e = e and l' = "Some ts1" and s' = s2])
        (fact op [unfolded l1] t [unfolded l1] acc(1) conjunct1 [OF f, unfolded n])+
    then show ?thesis
      using f acc(2,3) by (intro exI [of _ "acc # failed"] exI [of _ acc']) auto
  qed
qed

text \<open>
  C28: \<open>AccrueAllLendingInterest\<close> keeps the accruals of failed attempts: a successful result lists, for
  every attempt of the client whose transaction failed, the accruals that this attempt made before the
  error (those of the users before the one that failed), and then those of all users; so it has exactly
  one accrual for each user only if no attempt failed after its first user.
\<close>

theorem AccrueAllLendingInterest_accumulates:
  fixes rdb :: "('b, TxLendingInterestAccrual list option \<times> 's) Client"
  assumes "retries rdb" "watches env rdb"
    and "AccrueAllLendingInterest x rdb tx timeout assetData flatRate watch users s = Some (Inr ts, s')"
  shows "\<exists>failed acc. accrual_attempts
      (Watch rdb (accrue_users x tx assetData flatRate users) (watch @ [UserInterestKey MODULE, ModulePositionKey]))
      (accrue_users x tx assetData flatRate users) (Some [], s) (failed @ [acc]) (Some ts, s')
    \<and> ts = concat failed @ acc \<and> map User acc = users \<and> kept_accruals users failed"
proof -
  let ?txn = "accrue_users x tx assetData flatRate users" and ?keys = "watch @ [UserInterestKey MODULE, ModulePositionKey]"
  let ?P = "\<lambda>(err :: error option) acc. \<exists>rest. users = map User acc @ rest \<and> (err = None \<longleftrightarrow> rest = [])"
  have "TryTransaction rdb ?txn (NewExponentialBackOff rdb timeout) ?keys (Some [], s) = Some (None, Some ts, s')"
    using assms(3) by (auto simp: AccrueAllLendingInterest_def Let_def split: option.splits)
  then have run: "attempts (Watch rdb ?txn ?keys) (Some [], s) (None, Some ts, s')"
    using assms(1) by (auto simp: TryTransaction_def retries_def Let_def)
  have watched: "\<exists>s1. Watch rdb ?txn ?keys (l, s) = ?txn (l, s1) \<or> (\<exists>e. Watch rdb ?txn ?keys (l, s) = (Some e, l, s1))" for l s
    using assms(2) unfolding watches_def by blast
  have alone: "\<exists>acc. ?txn (Some [], s) = (err, Some acc, s') \<and> ts' = ts @ acc \<and> ?P err acc"
    if "?txn (Some ts, s) = (err, Some ts', s')" for ts s err ts' s'
    using that by (rule accrue_users_alone) blast
  have some: "l \<noteq> None" if "?txn (Some ts, s) = (Some e, l, s')" for ts s e l s'
    using that by (rule accrue_users_error)
  have "\<exists>failed acc. accrual_attempts (Watch rdb ?txn ?keys) ?txn (Some [], s) (failed @ [acc]) (Some ts, s')
      \<and> ts = [] @ concat failed @ acc \<and> ?P None acc \<and> (\<forall>a \<in> set failed. \<exists>e. ?P (Some e) a)"
    by (rule attempts_accruals [where txn = ?txn and op = "Watch rdb ?txn ?keys" and P = ?P])
      (fact alone some watched run refl)+
  then obtain failed acc where
    f: "accrual_attempts (Watch rdb ?txn ?keys) ?txn (Some [], s) (failed @ [acc]) (Some ts, s')
      \<and> ts = [] @ concat failed @ acc \<and> ?P None acc \<and> (\<forall>a \<in> set failed. \<exists>e. ?P (Some e) a)" by (elim exE) (rule that)
  note rest = conjunct2 [OF conjunct2 [OF f]]
  have "map User acc = users" using conjunct1 [OF rest] by (elim exE) simp
  moreover have "kept_accruals users failed"
    unfolding kept_accruals_def list_all_iff
  proof
    fix a assume a: "a \<in> set failed"
    from bspec [OF conjunct2 [OF rest] a]
    obtain e rest where "users = map User a @ rest \<and> (Some e = (None :: error option)) = (rest = [])"
      by (elim exE) (rule that)
    then show "strict_prefix (map User a) users" by (simp add: strict_prefix_def)
  qed
  moreover have "ts = concat failed @ acc" using conjunct1 [OF conjunct2 [OF f]] by simp
  ultimately show ?thesis by (intro exI [of _ failed] exI [of _ acc] conjI conjunct1 [OF f])
qed

text \<open>When the second of two users fails once, the result lists the first user twice.\<close>

theorem AccrueAllLendingInterest_accumulates_witness:
  "\<exists>ts s' failed acc. AccrueAllLendingInterest demo_externals (bounded_client 1) flaky_server 5 zeroAssetData (FFin 1) []
        [''u'', ''v''] 0 = Some (Inr ts, s')
     \<and> map User ts = [''u'', ''u'', ''v''] \<and> ts = concat failed @ acc \<and> map User (concat failed) = [''u'']"
proof -
  let ?a = "AccrueAllLendingInterest demo_externals (bounded_client 1) flaky_server 5 zeroAssetData (FFin 1) [] [''u'', ''v''] 0"
  have "map_option (\<lambda>(r, _). case r of Inl _ \<Rightarrow> [] | Inr ts \<Rightarrow> map User ts) ?a = Some [''u'', ''u'', ''v'']"
    by code_simp
  then obtain r s' where r: "?a = Some (r, s')" "(case r of Inl _ \<Rightarrow> [] | Inr ts \<Rightarrow> map User ts) = [''u'', ''u'', ''v'']"
    by auto
  then obtain ts where t: "?a = Some (Inr ts, s')" "map User ts = [''u'', ''u'', ''v'']"
    by (cases r) auto
  from AccrueAllLendingInterest_accumulates [OF _ _ t(1), of "\<lambda>_ _. True"]
  obtain failed acc where f: "ts = concat failed @ acc" "map User acc = [''u'', ''v'']" by auto
  then have "map User (concat failed) @ [''u'', ''v''] = [''u''] @ [''u'', ''v'']"
    using t(2) by (simp del: map_concat)
  then have "map User (concat failed) = [''u'']" by (rule append_same_eq [THEN iffD1])
  with t f(1) show ?thesis by (metis (no_types))
qed

end
