(* ===== verification/PoolStore.thy ===== *)
theory PoolStore
  imports RedisTx Pools
begin

text \<open>
  \<open>src/pools/redis/pools.go\<close>: pools stored as hashes with one field per member of the struct, written
  field by field and read back by the \<open>Scan\<close> of go-redis, which is the parameter \<open>scan\<close>: it sets the
  members whose tags are in the map. \<open>dec_text\<close> is \<open>decimal.Decimal.String\<close>.
\<close>

definition poolKeys :: "string list" where
  "poolKeys = [''pool_id'', ''base_asset'', ''quote_asset'', ''is_product_pool'', ''amount_shares'',
     ''amount_base'', ''amount_quote'', ''fee_factor'', ''created_at'', ''maturity_at'',
     ''fees_collected_base'', ''fees_collected_quote'', ''initial_assets_ratio'', ''display_name'',
     ''sequence'']"

definition PoolKey :: "string \<Rightarrow> string" where
  "PoolKey poolID = ''pools:'' @ poolID"

text \<open>\<open>new(types.Pool)\<close>; \<open>dzero\<close> is the zero value of the decimal type.\<close>

definition new_Pool :: "'d \<Rightarrow> 'd Pool" where
  "new_Pool dzero = \<lparr>PoolID = '''', BaseAsset = '''', QuoteAsset = '''', IsProductPool = False,
     AmountShares = 0, AmountBase = 0, AmountQuote = 0, FeesCollectedBase = 0, FeesCollectedQuote = 0,
     FeeFactor = dzero, CreatedAt = 0, MaturityAt = 0, InitialAssetsRatio = dzero, DisplayName = '''',
     Pool_Sequence = 0\<rparr>"

type_synonym 'd scanner = "(string, string) gomap \<Rightarrow> 'd Pool \<Rightarrow> error option \<times> 'd Pool"

section \<open>Reading\<close>

text \<open>The loop over the results of the pipeline; the captured variables are \<open>pools\<close> and \<open>watch\<close>.\<close>

fun scan_pools ::
  "'d scanner \<Rightarrow> 'd \<Rightarrow> (error + (string, string) gomap) list \<Rightarrow> 'd Pool list \<Rightarrow> error option \<times> 'd Pool list" where
  "scan_pools scan dzero [] pools = (None, pools)"
| "scan_pools scan dzero (c # cmd) pools =
     (case c of Inl err \<Rightarrow> (Some err, pools)
      | Inr m \<Rightarrow>
        (case scan m (new_Pool dzero) of
           (Some err, p) \<Rightarrow> (Some err, pools)
         | (None, p) \<Rightarrow> scan_pools scan dzero cmd (pools @ [p])))"

definition GetPools_f ::
  "'d scanner \<Rightarrow> 'd \<Rightarrow> ('t, 's) Cmdable \<Rightarrow> string list \<Rightarrow> ('d Pool list \<times> string list, 's) txn" where
  "GetPools_f scan dzero tx poolIDs = (\<lambda>((pools, watch), s).
     let keys = map PoolKey poolIDs; watch = watch @ keys
     in case TxPipelined_HGetAll tx keys s of
          ((Some err, _), s) \<Rightarrow> (Some err, (pools, watch), s)
        | ((None, cmd), s) \<Rightarrow>
            (case scan_pools scan dzero cmd pools of (err, pools) \<Rightarrow> (err, (pools, watch), s)))"

text \<open>\<open>watch\<close> is still empty when it is passed to \<open>TryTransaction\<close>.\<close>

definition GetPools ::
  "('b, ('d Pool list \<times> string list) \<times> 's) Client \<Rightarrow> ('t, 's) Cmdable \<Rightarrow> 'd scanner \<Rightarrow> 'd \<Rightarrow> int64
     \<Rightarrow> string list \<Rightarrow> 's \<Rightarrow> ((error + 'd Pool list) \<times> 's) option" where
  "GetPools rdb tx scan dzero timeout poolIDs s =
     (let pools = []; watch = []
      in case TryTransaction rdb (GetPools_f scan dzero tx poolIDs) (NewExponentialBackOff rdb timeout) watch
           ((pools, watch), s) of
        None \<Rightarrow> None
      | Some (Some err, _, s) \<Rightarrow> Some (Inl err, s)
      | Some (None, (pools, _), s) \<Rightarrow> Some (Inr pools, s))"

text \<open>The values of \<open>HMGET\<close> in the order of the fields; missing ones are skipped by \<open>Scan\<close>.\<close>

definition present :: "string list \<Rightarrow> string option list \<Rightarrow> (string, string) gomap" where
  "present fs vs = map (\<lambda>(f, v). (f, the v)) (filter (\<lambda>(f, v). v \<noteq> None) (zip fs vs))"

definition GetPoolCmd :: "('t, 's) Cmdable \<Rightarrow> string \<Rightarrow> 's \<Rightarrow> (error + string option list) \<times> 's" where
  "GetPoolCmd tx poolID s = (let watch = PoolKey poolID in HMGet tx watch poolKeys s)"

definition GetPool_f :: "'d scanner \<Rightarrow> ('t, 's) Cmdable \<Rightarrow> string \<Rightarrow> ('d Pool, 's) txn" where
  "GetPool_f scan tx watch = (\<lambda>(pool, s).
     let scanned = (case HMGet tx watch poolKeys s of
           (Inl err, s) \<Rightarrow> (Some err, pool, s)
         | (Inr vs, s) \<Rightarrow> (case scan (present poolKeys vs) pool of (err, pool) \<Rightarrow> (err, pool, s)))
     in case scanned of
          (Some err, pool, s) \<Rightarrow> if errors_Is err (Nil tx) then (None, pool, s) else (Some err, pool, s)
        | (None, pool, s) \<Rightarrow> (None, pool, s))"

definition GetPool ::
  "('b, 'd Pool \<times> 's) Client \<Rightarrow> ('t, 's) Cmdable \<Rightarrow> 'd scanner \<Rightarrow> 'd \<Rightarrow> int64 \<Rightarrow> string \<Rightarrow> 's
     \<Rightarrow> ((error + 'd Pool) \<times> 's) option" where
  "GetPool rdb tx scan dzero timeout poolID s =
     (let watch = PoolKey poolID; pool = new_Pool dzero
      in case TryTransaction rdb (GetPool_f scan tx watch) (NewExponentialBackOff rdb timeout) [watch] (pool, s) of
        None \<Rightarrow> None
      | Some (Some err, _, s) \<Rightarrow> Some (Inl err, s)
      | Some (None, pool, s) \<Rightarrow> Some (Inr pool, s))"

definition GetPoolsCmd ::
  "('t, 's) Cmdable \<Rightarrow> string list \<Rightarrow> 's \<Rightarrow> (error + (error + (string, string) gomap) list) \<times> 's" where
  "GetPoolsCmd tx poolIDs s =
     (case TxPipelined_HGetAll tx (map PoolKey poolIDs) s of
        ((Some err, _), s) \<Rightarrow> (Inl err, s) | ((None, cmds), s) \<Rightarrow> (Inr cmds, s))"

section \<open>Writing\<close>

definition pool_values :: "('d \<Rightarrow> string) \<Rightarrow> 'd Pool \<Rightarrow> (string \<times> 't arg) list" where
  "pool_values dec_text pool =
     [(''pool_id'', AString (PoolID pool)),
      (''base_asset'', AString (BaseAsset pool)),
      (''quote_asset'', AString (QuoteAsset pool)),
      (''is_product_pool'', ABool (IsProductPool pool)),
      (''amount_shares'', AUint (AmountShares pool)),
      (''amount_base'', AUint (AmountBase pool)),
      (''amount_quote'', AUint (AmountQuote pool)),
      (''fee_factor'', AString (dec_text (FeeFactor pool))),
      (''created_at'', AInt (CreatedAt pool)),
      (''maturity_at'', AInt (MaturityAt pool)),
      (''fees_collected_base'', AUint (FeesCollectedBase pool)),
      (''fees_collected_quote'', AUint (FeesCollectedQuote pool)),
      (''initial_assets_ratio'', AString (dec_text (InitialAssetsRatio pool))),
      (''display_name'', AString (DisplayName pool)),
      (''sequence'', AUint (Pool_Sequence pool))]"

definition UpdatePool ::
  "('b, unit \<times> 's) Client \<Rightarrow> ('t, 's) Cmdable \<Rightarrow> ('d \<Rightarrow> string) \<Rightarrow> 'd Pool \<Rightarrow> int64 \<Rightarrow> string \<Rightarrow> 's
     \<Rightarrow> (error option \<times> 's) option" where
  "UpdatePool rdb tx dec_text pool timeout poolID s =
     (let txFunc = set_hash tx (PoolKey poolID) (pool_values dec_text pool)
      in map_option (\<lambda>(err, _, s). (err, s))
           (TryTransaction rdb txFunc (NewExponentialBackOff rdb timeout) [PoolKey poolID] ((), s)))"

definition UpdatePoolCmd :: "('t, 's) Cmdable \<Rightarrow> ('d \<Rightarrow> string) \<Rightarrow> 'd Pool \<Rightarrow> 's \<Rightarrow> error option \<times> 's" where
  "UpdatePoolCmd tx dec_text pool s = HSet tx (PoolKey (PoolID pool)) (pool_values dec_text pool) s"

definition balance_values :: "uint64 \<Rightarrow> uint64 \<Rightarrow> uint64 \<Rightarrow> uint64 \<Rightarrow> uint64 \<Rightarrow> uint64 \<Rightarrow> (string \<times> 't arg) list" where
  "balance_values amountShares amountBase amountQuote feesCollectedBase feesCollectedQuote sequence =
     [(''amount_shares'', AUint amountShares),
      (''amount_base'', AUint amountBase),
      (''amount_quote'', AUint amountQuote),
      (''fees_collected_base'', AUint feesCollectedBase),
      (''fees_collected_quote'', AUint feesCollectedQuote),
      (''sequence'', AUint sequence)]"

definition UpdatePoolBalance ::
  "('b, unit \<times> 's) Client \<Rightarrow> ('t, 's) Cmdable \<Rightarrow> string \<Rightarrow> uint64 \<Rightarrow> uint64 \<Rightarrow> uint64 \<Rightarrow> uint64 \<Rightarrow> uint64 \<Rightarrow> uint64
     \<Rightarrow> int64 \<Rightarrow> 's \<Rightarrow> (error option \<times> 's) option" where
  "UpdatePoolBalance rdb tx poolID amountShares amountBase amountQuote feesCollectedBase feesCollectedQuote sequence timeout s =
     (let txFunc = set_hash tx (PoolKey poolID)
            (balance_values amountShares amountBase amountQuote feesCollectedBase feesCollectedQuote sequence)
      in map_option (\<lambda>(err, _, s). (err, s))
           (TryTransaction rdb txFunc (NewExponentialBackOff rdb timeout) [PoolKey poolID] ((), s)))"

definition UpdatePoolBalanceCmd ::
  "('t, 's) Cmdable \<Rightarrow> string \<Rightarrow> uint64 \<Rightarrow> uint64 \<Rightarrow> uint64 \<Rightarrow> uint64 \<Rightarrow> uint64 \<Rightarrow> uint64 \<Rightarrow> 's \<Rightarrow> error option \<times> 's" where
  "UpdatePoolBalanceCmd tx poolID amountShares amountBase amountQuote feesCollectedBase feesCollectedQuote sequence s =
     HSet tx (PoolKey poolID)
       (balance_values amountShares amountBase amountQuote feesCollectedBase feesCollectedQuote sequence) s"

text \<open>\<open>CreatePool\<close> sets the ID in the caller's pool, which is returned beside the result.\<close>

definition CreatePool ::
  "('b, unit \<times> 's) Client \<Rightarrow> ('t, 's) Cmdable \<Rightarrow> ('d \<Rightarrow> string) \<Rightarrow> 'd Pool \<Rightarrow> int64 \<Rightarrow> 's
     \<Rightarrow> (error option \<times> 's) option \<times> 'd Pool" where
  "CreatePool rdb tx dec_text pool timeout s =
     (let poolID = ID (BaseAsset pool) (QuoteAsset pool);
          pool = pool\<lparr>PoolID := poolID\<rparr>
      in (UpdatePool rdb tx dec_text pool timeout poolID s, pool))"

section \<open>The scanner\<close>

text \<open>
  What \<open>Scan\<close> documents, for the tags of the struct \<open>Pool\<close>: a member with its tag in the map is parsed
  according to its type, the others stay as they are.
\<close>

definition scan_field :: "(string, string) gomap \<Rightarrow> string \<Rightarrow> (string \<Rightarrow> 'a option) \<Rightarrow> 'a \<Rightarrow> 'a option" where
  "scan_field m tag parse old = (case map_of m tag of None \<Rightarrow> Some old | Some v \<Rightarrow> parse v)"

definition right :: "'e + 'a \<Rightarrow> 'a option" where
  "right r = (case r of Inl _ \<Rightarrow> None | Inr x \<Rightarrow> Some x)"

definition parse_bool :: "string \<Rightarrow> bool option" where
  "parse_bool v = (if v = ''1'' then Some True else if v = ''0'' then Some False else None)"

definition scans_pool :: "(string \<Rightarrow> 'd option) \<Rightarrow> (string, string) gomap \<Rightarrow> 'd Pool \<Rightarrow> 'd Pool \<Rightarrow> bool" where
  "scans_pool dec_parse m old p \<longleftrightarrow>
     scan_field m ''pool_id'' Some (PoolID old) = Some (PoolID p)
   \<and> scan_field m ''base_asset'' Some (BaseAsset old) = Some (BaseAsset p)
   \<and> scan_field m ''quote_asset'' Some (QuoteAsset old) = Some (QuoteAsset p)
   \<and> scan_field m ''is_product_pool'' parse_bool (IsProductPool old) = Some (IsProductPool p)
   \<and> scan_field m ''amount_shares'' (right \<circ> ParseUint) (AmountShares old) = Some (AmountShares p)
   \<and> scan_field m ''amount_base'' (right \<circ> ParseUint) (AmountBase old) = Some (AmountBase p)
   \<and> scan_field m ''amount_quote'' (right \<circ> ParseUint) (AmountQuote old) = Some (AmountQuote p)
   \<and> scan_field m ''fees_collected_base'' (right \<circ> ParseUint) (FeesCollectedBase old) = Some (FeesCollectedBase p)
   \<and> scan_field m ''fees_collected_quote'' (right \<circ> ParseUint) (FeesCollectedQuote old) = Some (FeesCollectedQuote p)
   \<and> scan_field m ''fee_factor'' dec_parse (FeeFactor old) = Some (FeeFactor p)
   \<and> scan_field m ''created_at'' (right \<circ> ParseInt) (CreatedAt old) = Some (CreatedAt p)
   \<and> scan_field m ''maturity_at'' (right \<circ> ParseInt) (MaturityAt old) = Some (MaturityAt p)
   \<and> scan_field m ''initial_assets_ratio'' dec_parse (InitialAssetsRatio old) = Some (InitialAssetsRatio p)
   \<and> scan_field m ''display_name'' Some (DisplayName old) = Some (DisplayName p)
   \<and> scan_field m ''sequence'' (right \<circ> ParseUint) (Pool_Sequence old) = Some (Pool_Sequence p)"

definition scanner_law :: "(string \<Rightarrow> 'd option) \<Rightarrow> 'd scanner \<Rightarrow> bool" where
  "scanner_law dec_parse scan \<longleftrightarrow> (\<forall>m old p. scans_pool dec_parse m old p \<longrightarrow> scan m old = (None, p))"

section \<open>Pools that have been written are read back\<close>

definition fields_at :: "('t \<Rightarrow> string) \<Rightarrow> (string \<rightharpoonup> string) \<Rightarrow> (string \<times> 't arg) list \<Rightarrow> bool" where
  "fields_at rfc g vs = (\<forall>(f, a) \<in> set vs. g f = arg_text rfc a)"

lemma fields_at_written: "distinct (map fst vs) \<Longrightarrow> fields_at rfc (written rfc vs g) vs"
  by (auto simp: fields_at_def written_def)

lemma distinct_values: "distinct (map fst (pool_values dec_text p))" "distinct (map fst (balance_values a b c d e f))"
  by (simp_all add: pool_values_def balance_values_def)

lemma UpdatePool_at:
  assumes "hash_server content rfc tx" "retries rdb" "watches (\<lambda>s s'. content s' = content s) rdb"
    and "UpdatePool rdb tx dec_text p timeout poolID s = Some (None, s')"
  shows "fields_at rfc (content s' (PoolKey poolID)) (pool_values dec_text p)"
proof -
  have "hash_set rfc (PoolKey poolID) (pool_values dec_text p) (content s) (content s')"
    using assms(4) set_hash_TryTransaction [OF _ assms(1-3) distinct_values(1)]
    by (auto simp: UpdatePool_def Let_def)
  then show ?thesis by (simp add: hash_set_def fields_at_written distinct_values)
qed

definition with_amounts :: "'d Pool \<Rightarrow> uint64 \<Rightarrow> uint64 \<Rightarrow> uint64 \<Rightarrow> uint64 \<Rightarrow> uint64 \<Rightarrow> uint64 \<Rightarrow> 'd Pool" where
  "with_amounts p shares base quote feesBase feesQuote seqn =
     p\<lparr>AmountShares := shares, AmountBase := base, AmountQuote := quote, FeesCollectedBase := feesBase,
       FeesCollectedQuote := feesQuote, Pool_Sequence := seqn\<rparr>"

lemma written_amounts:
  assumes "fields_at rfc g (pool_values dec_text p)"
  shows "fields_at rfc (written rfc (balance_values a b c d e n) g) (pool_values dec_text (with_amounts p a b c d e n))"
  using assms by (simp add: fields_at_def written_def balance_values_def pool_values_def with_amounts_def)

lemma UpdatePoolBalance_at:
  assumes "hash_server content rfc tx" "retries rdb" "watches (\<lambda>s s'. content s' = content s) rdb"
    and "fields_at rfc (content s (PoolKey poolID)) (pool_values dec_text p)"
    and "UpdatePoolBalance rdb tx poolID a b c d e n timeout s = Some (None, s')"
  shows "fields_at rfc (content s' (PoolKey poolID)) (pool_values dec_text (with_amounts p a b c d e n))"
proof -
  have "hash_set rfc (PoolKey poolID) (balance_values a b c d e n) (content s) (content s')"
    using assms(5) set_hash_TryTransaction [OF _ assms(1-3) distinct_values(2)]
    by (auto simp: UpdatePoolBalance_def Let_def)
  then show ?thesis by (simp add: hash_set_def written_amounts [OF assms(4)])
qed

lemma map_of_present: "map_of (present fs (map g fs)) f = (if f \<in> set fs then g f else None)"
  by (induction fs) (auto simp: present_def)

lemma scans_pool_at:
  assumes "fields_at rfc g (pool_values dec_text p)" "\<And>d. dec_parse (dec_text d) = Some d"
  shows "scans_pool dec_parse (present poolKeys (map g poolKeys)) old p"
proof -
  have g: "g ''pool_id'' = Some (PoolID p)" "g ''base_asset'' = Some (BaseAsset p)"
    "g ''quote_asset'' = Some (QuoteAsset p)" "g ''is_product_pool'' = Some (if IsProductPool p then ''1'' else ''0'')"
    "g ''amount_shares'' = Some (FormatUint (AmountShares p))" "g ''amount_base'' = Some (FormatUint (AmountBase p))"
    "g ''amount_quote'' = Some (FormatUint (AmountQuote p))" "g ''fee_factor'' = Some (dec_text (FeeFactor p))"
    "g ''created_at'' = Some (FormatInt (CreatedAt p))" "g ''maturity_at'' = Some (FormatInt (MaturityAt p))"
    "g ''fees_collected_base'' = Some (FormatUint (FeesCollectedBase p))"
    "g ''fees_collected_quote'' = Some (FormatUint (FeesCollectedQuote p))"
    "g ''initial_assets_ratio'' = Some (dec_text (InitialAssetsRatio p))"
    "g ''display_name'' = Some (DisplayName p)" "g ''sequence'' = Some (FormatUint (Pool_Sequence p))"
    using assms(1) by (simp_all add: fields_at_def pool_values_def)
  have field: "scan_field (present poolKeys (map g poolKeys)) tag parse old' = parse v"
    if "g tag = Some v" "tag \<in> set poolKeys" for tag v old' and parse :: "string \<Rightarrow> 'x option"
    using that by (simp add: scan_field_def map_of_present)
  have tags: "set poolKeys = {''pool_id'', ''base_asset'', ''quote_asset'', ''is_product_pool'', ''amount_shares'',
     ''amount_base'', ''amount_quote'', ''fee_factor'', ''created_at'', ''maturity_at'',
     ''fees_collected_base'', ''fees_collected_quote'', ''initial_assets_ratio'', ''display_name'', ''sequence''}"
    by (simp add: poolKeys_def)
  show ?thesis
    unfolding scans_pool_def
    by (intro conjI; (subst field, rule g, simp add: tags, simp add: parse_bool_def right_def ParseUint_FormatUint ParseInt_FormatInt assms(2))+)
qed

definition get_pool_inv where
  "get_pool_inv content rfc tx dec_text dec_parse scan p k s \<longleftrightarrow> hash_server content rfc tx \<and> scanner_law dec_parse scan
     \<and> (\<forall>d. dec_parse (dec_text d) = Some d) \<and> fields_at rfc (content s k) (pool_values dec_text p)"

lemma GetPool_step:
  assumes "get_pool_inv content rfc tx dec_text dec_parse scan p k s"
    and "GetPool_f scan tx k (l, s) = (err, l', s')"
  shows "content s' = content s \<and> (err = None \<longrightarrow> l' = p)"
proof -
  have hs: "hash_server content rfc tx" using assms(1) by (simp add: get_pool_inv_def)
  obtain r s1 where r: "HMGet tx k poolKeys s = (r, s1)" by fastforce
  note law = hash_server_HMGet [OF hs r]
  show ?thesis
  proof (cases r)
    case (Inl e)
    then show ?thesis using law assms(2) by (auto simp: GetPool_f_def r)
  next
    case (Inr vs)
    then have "vs = map (content s k) poolKeys" using law by simp
    then have "scan (present poolKeys vs) l = (None, p)"
      using assms(1) scans_pool_at unfolding get_pool_inv_def scanner_law_def by blast
    then show ?thesis using law assms(2) Inr by (auto simp: GetPool_f_def r)
  qed
qed

interpretation get_pool: transaction "GetPool_f scan tx k"
  "\<lambda>_. get_pool_inv content rfc tx dec_text dec_parse scan p k" "\<lambda>l s. l = p" "\<lambda>s s'. content s' = content s"
  for scan and tx :: "('t, 's) Cmdable" and k rfc dec_text dec_parse p and content :: "'s \<Rightarrow> string \<Rightarrow> string \<rightharpoonup> string"
proof unfold_locales
  fix s s' assume "get_pool_inv content rfc tx dec_text dec_parse scan p k s" "content s' = content s"
  then show "get_pool_inv content rfc tx dec_text dec_parse scan p k s'" by (simp add: get_pool_inv_def)
next
  fix l s e l' s' assume inv: "get_pool_inv content rfc tx dec_text dec_parse scan p k s"
    and "GetPool_f scan tx k (l, s) = (Some e, l', s')"
  from inv GetPool_step [OF this] show "get_pool_inv content rfc tx dec_text dec_parse scan p k s'"
    by (simp add: get_pool_inv_def)
next
  fix l s l' s' assume "get_pool_inv content rfc tx dec_text dec_parse scan p k s"
    "GetPool_f scan tx k (l, s) = (None, l', s')"
  from GetPool_step [OF this] show "l' = p" by simp
qed

text \<open>
  C24: a pool that has been stored and whose balances have then been updated is read back exactly, with
  the six updated members and all the others as they were stored, for any earlier content of the hash
  and any number of failed attempts.
\<close>

theorem GetPool_after_updates:
  assumes "hash_server content rfc tx" "scanner_law dec_parse scan" "\<And>d. dec_parse (dec_text d) = Some d"
    and "retries rdb" "watches (\<lambda>s s'. content s' = content s) rdb"
    and "retries rdb'" "watches (\<lambda>s s'. content s' = content s) rdb'"
    and "UpdatePool rdb tx dec_text p timeout poolID s = Some (None, s1)"
    and "UpdatePoolBalance rdb tx poolID shares base quote feesBase feesQuote seqn timeout s1 = Some (None, s2)"
    and "GetPool rdb' tx scan dzero timeout poolID s2 = Some (Inr q, s3)"
  shows "q = with_amounts p shares base quote feesBase feesQuote seqn"
proof -
  let ?q = "with_amounts p shares base quote feesBase feesQuote seqn"
  have "fields_at rfc (content s1 (PoolKey poolID)) (pool_values dec_text p)"
    by (rule UpdatePool_at [OF assms(1,4,5,8)])
  then have "fields_at rfc (content s2 (PoolKey poolID)) (pool_values dec_text ?q)"
    by (rule UpdatePoolBalance_at [OF assms(1,4,5) _ assms(9)])
  then have inv: "get_pool_inv content rfc tx dec_text dec_parse scan ?q (PoolKey poolID) s2"
    using assms(1-3) by (simp add: get_pool_inv_def)
  have "TryTransaction rdb' (GetPool_f scan tx (PoolKey poolID)) (NewExponentialBackOff rdb' timeout) [PoolKey poolID]
      (new_Pool dzero, s2) = Some (None, q, s3)"
    using assms(10) by (auto simp: GetPool_def Let_def split: option.splits)
  from get_pool.TryTransaction_post [OF this assms(6,7) inv] show ?thesis .
qed

text \<open>A scanner for concrete runs: it decides the documented behaviour member by member.\<close>

definition scan_all :: "(string \<Rightarrow> 'd option) \<Rightarrow> (string, string) gomap \<Rightarrow> 'd Pool \<Rightarrow> 'd Pool" where
  "scan_all dec_parse m old = \<lparr>PoolID = the (scan_field m ''pool_id'' Some (PoolID old)),
     BaseAsset = the (scan_field m ''base_asset'' Some (BaseAsset old)),
     QuoteAsset = the (scan_field m ''quote_asset'' Some (QuoteAsset old)),
     IsProductPool = the (scan_field m ''is_product_pool'' parse_bool (IsProductPool old)),
     AmountShares = the (scan_field m ''amount_shares'' (right \<circ> ParseUint) (AmountShares old)),
     AmountBase = the (scan_field m ''amount_base'' (right \<circ> ParseUint) (AmountBase old)),
     AmountQuote = the (scan_field m ''amount_quote'' (right \<circ> ParseUint) (AmountQuote old)),
     FeesCollectedBase = the (scan_field m ''fees_collected_base'' (right \<circ> ParseUint) (FeesCollectedBase old)),
     FeesCollectedQuote = the (scan_field m ''fees_collected_quote'' (right \<circ> ParseUint) (FeesCollectedQuote old)),
     FeeFactor = the (scan_field m ''fee_factor'' dec_parse (FeeFactor old)),
     CreatedAt = the (scan_field m ''created_at'' (right \<circ> ParseInt) (CreatedAt old)),
     MaturityAt = the (scan_field m ''maturity_at'' (right \<circ> ParseInt) (MaturityAt old)),
     InitialAssetsRatio = the (scan_field m ''initial_assets_ratio'' dec_parse (InitialAssetsRatio old)),
     DisplayName = the (scan_field m ''display_name'' Some (DisplayName old)),
     Pool_Sequence = the (scan_field m ''sequence'' (right \<circ> ParseUint) (Pool_Sequence old))\<rparr>"

lemma scan_all_law: "scanner_law dec_parse (\<lambda>m old. (None, scan_all dec_parse m old))"
  by (auto simp: scanner_law_def scans_pool_def scan_all_def)

theorem GetPool_after_updates_witness:
  "\<exists>s1 s2 q s3. UpdatePool (bounded_client 1) (mem_server (\<lambda>_::nat. '''')) (\<lambda>d. d) (new_Pool ''1.5'') 5 ''A-B'' [] = Some (None, s1)
    \<and> UpdatePoolBalance (bounded_client 1) (mem_server (\<lambda>_::nat. '''')) ''A-B'' 1 2 3 4 5 6 5 s1 = Some (None, s2)
    \<and> GetPool (bounded_client 1) (mem_server (\<lambda>_::nat. '''')) (\<lambda>m old. (None, scan_all Some m old)) '''' 5 ''A-B'' s2
        = Some (Inr (with_amounts (new_Pool ''1.5'') 1 2 3 4 5 6), s3)"
proof -
  let ?tx = "mem_server (\<lambda>_::nat. '''')"
  let ?up = "UpdatePool (bounded_client 1) ?tx (\<lambda>d. d) (new_Pool ''1.5'') 5 ''A-B'' []"
  let ?ub = "UpdatePoolBalance (bounded_client 1) ?tx ''A-B'' 1 2 3 4 5 6 5"
  let ?get = "GetPool (bounded_client 1) ?tx (\<lambda>m old. (None, scan_all Some m old)) '''' 5 ''A-B''"
  have 1: "?up = Some (None, snd (the ?up))"
    by (simp add: UpdatePool_def TryTransaction_def bounded_client_def set_hash_def mem_server_def mem_hset_def pool_values_def)
  have 2: "?ub s = Some (None, snd (the (?ub s)))" for s
    by (simp add: UpdatePoolBalance_def TryTransaction_def bounded_client_def set_hash_def mem_server_def mem_hset_def balance_values_def)
  have "\<exists>q. ?get s = Some (Inr q, snd (the (?get s)))" for s
    by (simp add: GetPool_def TryTransaction_def bounded_client_def GetPool_f_def mem_server_def)
  then obtain q where 3: "?get (snd (the (?ub (snd (the ?up))))) = Some (Inr q, snd (the (?get (snd (the (?ub (snd (the ?up))))))))"
    by blast
  have "q = with_amounts (new_Pool ''1.5'') 1 2 3 4 5 6"
    by (rule GetPool_after_updates [OF mem_server_laws scan_all_law _ _ _ _ _ 1 2 3]) simp_all
  then show ?thesis using 1 2 3 by blast
qed

section \<open>Retries and identifiers\<close>

text \<open>
  \<open>GetPools\<close> keeps the pools that a failed attempt has read: when the second of two pools cannot
  be decoded at first, the result lists the first pool twice.
\<close>

theorem GetPools_duplicates:
  "map_option (\<lambda>(r, _). case r of Inl _ \<Rightarrow> [] | Inr ps \<Rightarrow> map PoolID ps)
     (GetPools (bounded_client 1)
       \<lparr>HGetAll = \<lambda>k s. (Inr [], s), HGet = \<lambda>k f s. (Inr '''', s), HMGet = \<lambda>k fs s. (Inr (map (\<lambda>_. None) fs), s),
        HSet = \<lambda>k vs s. (None, s), HMSet = \<lambda>k vs s. (None, s), Keys = \<lambda>p s. (Inr [], s),
        TxPipelined_HGetAll = \<lambda>ks n. ((None, [Inr [(''pool_id'', ''A-B'')],
          Inr [(''pool_id'', if n = 0 then ''?'' else ''C-D'')]]), Suc n),
        Nil = ErrorString ''redis: nil''\<rparr>
       (\<lambda>m p. (if mget '''' m ''pool_id'' = ''?'' then Some (ErrorString ''scan'') else None, p\<lparr>PoolID := mget '''' m ''pool_id''\<rparr>))
       () 5 [''A-B'', ''C-D''] (0 :: nat)) = Some [''A-B'', ''A-B'', ''C-D'']"
  by code_simp

text \<open>
  The identifier under which \<open>CreatePool\<close> stores a pool gives back the two assets exactly when
  neither contains a hyphen; otherwise both are lost.
\<close>

theorem OrderBookID_roundtrip:
  "(GetBaseFromOrderBookID (ID b q), GetQuoteFromOrderBookID (ID b q)) =
     (if CHR ''-'' \<in> set b \<or> CHR ''-'' \<in> set q then ('''', '''') else (b, q))"
proof -
  have "length (Split (CHR ''-'') (ID b q)) = 2 + count_list b (CHR ''-'') + count_list q (CHR ''-'')"
    by (simp add: length_Split ID_def)
  moreover have "count_list x (CHR ''-'') = 0 \<longleftrightarrow> CHR ''-'' \<notin> set x" for x
    by (induction x) auto
  moreover have "Split (CHR ''-'') (ID b q) = [b, q]" if "CHR ''-'' \<notin> set b" "CHR ''-'' \<notin> set q"
    using that by (simp add: ID_def Split_append_sep Split_notin)
  ultimately show ?thesis
    by (auto simp: GetBaseFromOrderBookID_def GetQuoteFromOrderBookID_def Let_def)
qed

end
