(* ===== verification/PriceStore.thy ===== *)
theory PriceStore
  imports RedisTx FloatOps
begin

text \<open>
  \<open>src/prices/redis/prices.go\<close> and \<open>src/prices/types/price.go\<close>: all prices in one hash, with a field
  per asset that holds the JSON text of the price.
\<close>

record Price =
  AssetID :: string
  Price_Price :: gofloat

type_synonym price_marshal = "Price \<Rightarrow> string option"
type_synonym price_unmarshal = "string \<Rightarrow> Price \<Rightarrow> error option \<times> Price"

definition new_Price :: Price where
  "new_Price = \<lparr>AssetID = '''', Price_Price = FZero False\<rparr>"

definition Price_MarshalBinary :: "price_marshal \<Rightarrow> Price \<Rightarrow> string option" where
  "Price_MarshalBinary marshal p = marshal p"

definition Price_UnmarshalBinary :: "price_unmarshal \<Rightarrow> string \<Rightarrow> Price \<Rightarrow> error option \<times> Price" where
  "Price_UnmarshalBinary unmarshal data p = unmarshal data p"

definition PricesKey :: string where
  "PricesKey = ''prices''"

text \<open>The loop over the values; the captured variable is \<open>prices\<close>.\<close>

fun read_prices :: "price_unmarshal \<Rightarrow> string option list \<Rightarrow> Price list \<Rightarrow> error option \<times> Price list" where
  "read_prices unmarshal [] prices = (None, prices)"
| "read_prices unmarshal (v # res) prices =
     (case v of None \<Rightarrow> read_prices unmarshal res (prices @ [new_Price])
      | Some j \<Rightarrow>
        (case Price_UnmarshalBinary unmarshal j new_Price of
           (Some err, b) \<Rightarrow> (Some err, prices)
         | (None, b) \<Rightarrow> read_prices unmarshal res (prices @ [b])))"

definition getPrices_f :: "price_unmarshal \<Rightarrow> ('t, 's) Cmdable \<Rightarrow> string \<Rightarrow> string list \<Rightarrow> (Price list, 's) txn" where
  "getPrices_f unmarshal tx keys ids = (\<lambda>(prices, s).
     case HMGet tx keys ids s of
       (Inl err, s) \<Rightarrow> if errors_Is err (Nil tx) then (None, prices, s) else (Some err, prices, s)
     | (Inr res, s) \<Rightarrow> (case read_prices unmarshal res prices of (err, prices) \<Rightarrow> (err, prices, s)))"

definition getPrices ::
  "('b, Price list \<times> 's) Client \<Rightarrow> ('t, 's) Cmdable \<Rightarrow> price_unmarshal \<Rightarrow> int64 \<Rightarrow> string \<Rightarrow> string list \<Rightarrow> 's
     \<Rightarrow> ((error + Price list) \<times> 's) option" where
  "getPrices rdb tx unmarshal timeout keys ids s =
     (case TryTransaction rdb (getPrices_f unmarshal tx keys ids) (NewExponentialBackOff rdb timeout) [keys] ([], s) of
        None \<Rightarrow> None
      | Some (Some err, _, s) \<Rightarrow> Some (Inl err, s)
      | Some (None, prices, s) \<Rightarrow> Some (Inr prices, s))"

definition GetPrices ::
  "('b, Price list \<times> 's) Client \<Rightarrow> ('t, 's) Cmdable \<Rightarrow> price_unmarshal \<Rightarrow> int64 \<Rightarrow> string list \<Rightarrow> 's
     \<Rightarrow> ((error + Price list) \<times> 's) option" where
  "GetPrices rdb tx unmarshal timeout assetIDs s = getPrices rdb tx unmarshal timeout PricesKey assetIDs s"

definition GetPricesCmd :: "('t, 's) Cmdable \<Rightarrow> string list \<Rightarrow> 's \<Rightarrow> (error + string option list) \<times> 's" where
  "GetPricesCmd tx assetIDs s = (let watch = PricesKey in HMGet tx watch assetIDs s)"

definition price_values :: "price_marshal \<Rightarrow> (string, gofloat) gomap \<Rightarrow> (string \<times> 't arg) list" where
  "price_values marshal reqs =
     fold (\<lambda>(assetID, price) values.
       mput assetID (AMarshal (Price_MarshalBinary marshal \<lparr>AssetID = assetID, Price_Price = price\<rparr>)) values) reqs []"

definition SetPrices ::
  "('b, unit \<times> 's) Client \<Rightarrow> ('t, 's) Cmdable \<Rightarrow> price_marshal \<Rightarrow> int64 \<Rightarrow> (string, gofloat) gomap \<Rightarrow> 's
     \<Rightarrow> (error option \<times> 's) option" where
  "SetPrices rdb tx marshal timeout reqs s =
     (let watch = [PricesKey]; txFunc = set_hash tx PricesKey (price_values marshal reqs)
      in map_option (\<lambda>(err, _, s). (err, s))
           (TryTransaction rdb txFunc (NewExponentialBackOff rdb timeout) watch ((), s)))"

definition SetPricesCmd ::
  "('t, 's) Cmdable \<Rightarrow> price_marshal \<Rightarrow> (string, gofloat) gomap \<Rightarrow> 's \<Rightarrow> error option list \<times> 's" where
  "SetPricesCmd tx marshal reqs s =
     (case HSet tx PricesKey (price_values marshal reqs) s of (cmd, s) \<Rightarrow> ([cmd], s))"

section \<open>The abstract store\<close>

text \<open>The prices that the hash holds: a field whose text decodes, to a price of the same asset.\<close>

definition stored_prices ::
  "price_unmarshal \<Rightarrow> (string \<Rightarrow> string \<rightharpoonup> string) \<Rightarrow> (string \<rightharpoonup> gofloat) \<Rightarrow> bool" where
  "stored_prices unmarshal h A \<longleftrightarrow> (\<forall>i. case A i of
      None \<Rightarrow> h PricesKey i = None
    | Some x \<Rightarrow> \<exists>j. h PricesKey i = Some j \<and> unmarshal j new_Price = (None, \<lparr>AssetID = i, Price_Price = x\<rparr>))"

definition price_of :: "(string \<rightharpoonup> gofloat) \<Rightarrow> string \<Rightarrow> Price" where
  "price_of A i = (case A i of None \<Rightarrow> new_Price | Some x \<Rightarrow> \<lparr>AssetID = i, Price_Price = x\<rparr>)"

lemma price_values_fold:
  "distinct (map fst vs) \<Longrightarrow> wf_map reqs \<Longrightarrow>
   (let r = fold (\<lambda>(i, x) values. mput i (g i x) values) reqs vs
    in distinct (map fst r) \<and> (\<forall>i. map_of r i = (case map_of reqs i of None \<Rightarrow> map_of vs i | Some x \<Rightarrow> Some (g i x))))"
proof (induction reqs arbitrary: vs)
  case (Cons r reqs)
  obtain i x where r: "r = (i, x)" by (cases r)
  have "map_of reqs i = None" "wf_map reqs" using Cons.prems(2) by (auto simp: r wf_map_def map_of_eq_None_iff)
  moreover have "distinct (map fst (mput i (g i x) vs))" using Cons.prems(1) wf_mput [of vs] by (simp add: wf_map_def)
  ultimately show ?case using Cons.IH [of "mput i (g i x) vs"]
    by (auto simp: r Let_def gomap_simps split: option.splits)
qed simp

lemma price_values_lookup:
  fixes marshal reqs
  defines "vs \<equiv> price_values marshal reqs :: (string \<times> 't arg) list"
  assumes "wf_map reqs"
  shows "distinct (map fst vs) \<and>
    map_of vs i = map_option (\<lambda>x. AMarshal (marshal \<lparr>AssetID = i, Price_Price = x\<rparr>)) (map_of reqs i)"
proof -
  let ?g = "(\<lambda>i x. AMarshal (marshal \<lparr>AssetID = i, Price_Price = x\<rparr>)) :: string \<Rightarrow> gofloat \<Rightarrow> 't arg"
  from price_values_fold [of "[]" reqs ?g] assms(2) show ?thesis
    by (cases "map_of reqs i") (simp_all add: vs_def price_values_def Price_MarshalBinary_def Let_def)
qed

lemma set_stored_prices:
  fixes rfc :: "'t \<Rightarrow> string"
  assumes "hash_set rfc PricesKey (price_values marshal reqs) h h'" "wf_map reqs" "stored_prices unmarshal h A"
    and "\<And>p j. marshal p = Some j \<Longrightarrow> unmarshal j new_Price = (None, p)"
  shows "stored_prices unmarshal h' (A ++ map_of reqs)"
  unfolding stored_prices_def
proof
  fix i
  let ?vs = "price_values marshal reqs :: (string \<times> 't arg) list"
  have look: "map_of ?vs i = map_option (\<lambda>x. AMarshal (marshal \<lparr>AssetID = i, Price_Price = x\<rparr>)) (map_of reqs i)"
    using price_values_lookup [OF assms(2)] by blast
  have h': "h' PricesKey i = (case map_of reqs i of None \<Rightarrow> h PricesKey i
      | Some x \<Rightarrow> marshal \<lparr>AssetID = i, Price_Price = x\<rparr>)"
    using assms(1) look by (cases "map_of reqs i") (simp_all add: hash_set_def written_def)
  show "case (A ++ map_of reqs) i of None \<Rightarrow> h' PricesKey i = None
    | Some x \<Rightarrow> \<exists>j. h' PricesKey i = Some j \<and> unmarshal j new_Price = (None, \<lparr>AssetID = i, Price_Price = x\<rparr>)"
  proof (cases "map_of reqs i")
    case None
    then show ?thesis using assms(3) [unfolded stored_prices_def, THEN spec, of i] h'
      by (cases "A i") (simp_all add: map_add_def)
  next
    case (Some x)
    then have "map_of ?vs i = Some (AMarshal (marshal \<lparr>AssetID = i, Price_Price = x\<rparr>))"
      using look by simp
    then have "(i, AMarshal (marshal \<lparr>AssetID = i, Price_Price = x\<rparr>)) \<in> set ?vs"
      by (rule map_of_SomeD)
    then obtain j where "marshal \<lparr>AssetID = i, Price_Price = x\<rparr> = Some j"
      using assms(1) unfolding hash_set_def encodable_def by fastforce
    then show ?thesis using Some h' assms(4) by (simp add: map_add_def)
  qed
qed

lemma read_stored_prices:
  assumes "stored_prices unmarshal h A"
  shows "read_prices unmarshal (map (h PricesKey) ids) prices = (None, prices @ map (price_of A) ids)"
proof (induction ids arbitrary: prices)
  case (Cons i ids)
  have "read_prices unmarshal (map (h PricesKey) (i # ids)) prices =
      read_prices unmarshal (map (h PricesKey) ids) (prices @ [price_of A i])"
    using assms [unfolded stored_prices_def, THEN spec, of i]
    by (cases "A i") (auto simp: price_of_def Price_UnmarshalBinary_def)
  then show ?case using Cons.IH by simp
qed simp

definition get_prices_inv where
  "get_prices_inv content rfc tx unmarshal A l s \<longleftrightarrow>
     hash_server content rfc tx \<and> stored_prices unmarshal (content s) A \<and> l = []"

lemma getPrices_step:
  assumes "get_prices_inv content rfc tx unmarshal A l s"
    and "getPrices_f unmarshal tx PricesKey ids (l, s) = (err, l', s')"
  shows "content s' = content s \<and> l' = (if err = None then map (price_of A) ids else [])"
proof -
  have hs: "hash_server content rfc tx" and st: "stored_prices unmarshal (content s) A" and l: "l = []"
    using assms(1) by (simp_all add: get_prices_inv_def)
  obtain r s1 where r: "HMGet tx PricesKey ids s = (r, s1)" by fastforce
  note law = hash_server_HMGet [OF hs r]
  show ?thesis
  proof (cases r)
    case (Inl e)
    then show ?thesis using law assms(2) l by (auto simp: getPrices_f_def r)
  next
    case (Inr vs)
    then have "read_prices unmarshal vs [] = (None, map (price_of A) ids)"
      using law read_stored_prices [OF st, of ids "[]"] by simp
    then show ?thesis using law assms(2) Inr l by (auto simp: getPrices_f_def r)
  qed
qed

interpretation get_prices: transaction "getPrices_f unmarshal tx PricesKey ids"
  "get_prices_inv content rfc tx unmarshal A"
  "\<lambda>l s. l = map (price_of A) ids" "\<lambda>s s'. content s' = content s"
  for unmarshal and tx :: "('t, 's) Cmdable" and ids rfc A and content :: "'s \<Rightarrow> string \<Rightarrow> string \<rightharpoonup> string"
proof unfold_locales
  fix l s s' assume "get_prices_inv content rfc tx unmarshal A l s" "content s' = content s"
  then show "get_prices_inv content rfc tx unmarshal A l s'" by (simp add: get_prices_inv_def)
next
  fix l s e l' s' assume inv: "get_prices_inv content rfc tx unmarshal A l s"
    and "getPrices_f unmarshal tx PricesKey ids (l, s) = (Some e, l', s')"
  from inv getPrices_step [OF this] show "get_prices_inv content rfc tx unmarshal A l' s'"
    by (simp add: get_prices_inv_def)
next
  fix l s l' s' assume "get_prices_inv content rfc tx unmarshal A l s"
    "getPrices_f unmarshal tx PricesKey ids (l, s) = (None, l', s')"
  from getPrices_step [OF this] show "l' = map (price_of A) ids" by simp
qed

text \<open>
  C23: the price store is a map: after \<open>SetPrices\<close>, \<open>GetPrices\<close> returns for every requested asset, in
  the order of the request, the price that was just set, or else the one that was stored before, or
  the zero value; for any number of failed attempts of both.
\<close>

theorem GetPrices_after_SetPrices:
  assumes "hash_server content rfc tx" "\<And>p j. marshal p = Some j \<Longrightarrow> unmarshal j new_Price = (None, p)"
    and "retries rdb" "watches (\<lambda>s s'. content s' = content s) rdb"
    and "retries rdb'" "watches (\<lambda>s s'. content s' = content s) rdb'"
    and "stored_prices unmarshal (content s) A" "wf_map reqs"
    and "SetPrices rdb tx marshal timeout reqs s = Some (None, s')"
    and "GetPrices rdb' tx unmarshal timeout ids s' = Some (Inr prices, s'')"
  shows "prices = map (price_of (A ++ map_of reqs)) ids"
proof -
  have "hash_set rfc PricesKey (price_values marshal reqs) (content s) (content s')"
    using assms(9) set_hash_TryTransaction [OF _ assms(1,3,4) price_values_lookup [OF assms(8), THEN conjunct1]]
    by (auto simp: SetPrices_def Let_def)
  from set_stored_prices [OF this assms(8,7,2)]
  have "get_prices_inv content rfc tx unmarshal (A ++ map_of reqs) [] s'"
    using assms(1) by (simp add: get_prices_inv_def)
  moreover have "TryTransaction rdb' (getPrices_f unmarshal tx PricesKey ids) (NewExponentialBackOff rdb' timeout) [PricesKey]
      ([], s') = Some (None, prices, s'')"
    using assms(10) by (auto simp: GetPrices_def getPrices_def split: option.splits)
  ultimately show ?thesis using get_prices.TryTransaction_post [OF _ assms(5,6)] by blast
qed

theorem GetPrices_after_SetPrices_witness:
  "\<exists>s' s''. GetPrices (bounded_client 1) (mem_server (\<lambda>_::nat. '''')) (\<lambda>j p. (None, \<lparr>AssetID = j, Price_Price = FFin 2\<rparr>)) 5
      [''B'', ''A''] s' = Some (Inr [new_Price, \<lparr>AssetID = ''A'', Price_Price = FFin 2\<rparr>], s'')"
proof -
  let ?tx = "mem_server (\<lambda>_::nat. '''')"
  let ?m = "\<lambda>p. if Price_Price p = FFin 2 then Some (AssetID p) else None"
  let ?u = "\<lambda>j p. (None, \<lparr>AssetID = j, Price_Price = FFin 2\<rparr>)"
  let ?set = "SetPrices (bounded_client 1) ?tx ?m 5 [(''A'', FFin 2)] []"
  let ?get = "GetPrices (bounded_client 1) ?tx ?u 5 [''B'', ''A''] [(''prices'', [(''A'', ''A'')])]"
  have 1: "?set = Some (None, [(''prices'', [(''A'', ''A'')])])" by code_simp
  have "map_option (is_ok \<circ> fst) ?get = Some True" by code_simp
  then obtain r s'' where r: "?get = Some (r, s'')" "is_ok r" by auto
  then obtain prices where 2: "?get = Some (Inr prices, s'')" by (cases r) auto
  have "prices = map (price_of (Map.empty ++ map_of [(''A'', FFin 2)])) [''B'', ''A'']"
    by (rule GetPrices_after_SetPrices [OF mem_server_laws _ _ _ _ _ _ _ 1 2])
      (auto simp: stored_prices_def mem_content_def mget_def wf_map_def split: if_splits)
  with 2 show ?thesis by (auto simp: price_of_def)
qed

end
