(* ===== verification/StoreKeys.thy ===== *)
theory StoreKeys
  imports ModuleStore InterestStore PoolStore PriceStore
begin

text \<open>
  The keys of all stores together: \<open>src/redis/utils.go\<close>, \<open>src/ledger/redis\<close>, \<open>src/pools/redis\<close> and
  \<open>src/prices/redis\<close> share one database.
\<close>

datatype store_key =
    KSequence string
  | KOrders string
  | KPrices string Side
  | KAtPrice string Side string
  | KOrder string
  | KBalances string
  | KOffset string string
  | KPosition string
  | KModule
  | KInterest string
  | KPool string
  | KAllPrices

fun key_text :: "store_key \<Rightarrow> string" where
  "key_text (KSequence u) = SequenceNumberKey u"
| "key_text (KOrders b) = OrderBookOrdersKey b"
| "key_text (KPrices b side) = OrderBookPricesKey b side"
| "key_text (KAtPrice b side price) = OrdersAtPriceKey b side price"
| "key_text (KOrder i) = OrderKey i"
| "key_text (KBalances i) = BalancesKey i"
| "key_text (KOffset u topic) = SeqNumOffsetKey u topic"
| "key_text (KPosition u) = UserPositionKey u"
| "key_text KModule = ModulePositionKey"
| "key_text (KInterest u) = UserInterestKey u"
| "key_text (KPool i) = PoolKey i"
| "key_text KAllPrices = PricesKey"

fun key_parts :: "store_key \<Rightarrow> string list" where
  "key_parts (KSequence u) = [SequenceNumberPrefix, u]"
| "key_parts (KOrders b) = [OrderBookPrefix, b]"
| "key_parts (KPrices b side) = [OrderBookPrefix, b, ''prices'', side]"
| "key_parts (KAtPrice b side price) = [OrderBookPrefix, b, price, side]"
| "key_parts (KOrder i) = [OrderPrefix, i]"
| "key_parts (KBalances i) = [BalancesPrefix, i]"
| "key_parts (KOffset u topic) = [SequenceNumberOffsetPrefix, u, topic]"
| "key_parts (KPosition u) = [''positions'', ''users'', u]"
| "key_parts KModule = [''positions'']"
| "key_parts (KInterest u) = [''interest'', ''users'', u]"
| "key_parts (KPool i) = [''pools'', i]"
| "key_parts KAllPrices = [''prices'']"

text \<open>No part contains the separator, and no price is written \<open>prices\<close>.\<close>

definition plain_key :: "store_key \<Rightarrow> bool" where
  "plain_key k = ((\<forall>p \<in> set (key_parts k). CHR '':'' \<notin> set p)
     \<and> (case k of KAtPrice b side price \<Rightarrow> price \<noteq> ''prices'' | _ \<Rightarrow> True))"

lemmas key_defs = SequenceNumberKey_def OrderBookOrdersKey_def OrderBookPricesKey_def OrdersAtPriceKey_def
  OrderKey_def BalancesKey_def SeqNumOffsetKey_def

lemma key_text_parts: "key_text k = Key (key_parts k)"
  by (cases k) (simp_all add: key_defs Key_def UserPositionKey_def ModulePositionKey_def UserInterestKey_def
      PoolKey_def PricesKey_def)

lemma key_parts_nonempty [simp]: "key_parts k \<noteq> []"
  by (cases k) simp_all

lemma key_parts_inject: "plain_key k \<Longrightarrow> plain_key k' \<Longrightarrow> key_parts k = key_parts k' \<Longrightarrow> k = k'"
  by (cases k; cases k') (simp_all add: plain_key_def prefix_defs)

lemma key_text_inject:
  assumes "plain_key k" "plain_key k'" "key_text k = key_text k'"
  shows "k = k'"
proof -
  have "Split (CHR '':'') (Key (key_parts k)) = Split (CHR '':'') (Key (key_parts k'))"
    using assms(3) by (simp add: key_text_parts)
  then have "key_parts k = key_parts k'" using assms by (simp add: Split_Key plain_key_def)
  then show ?thesis by (rule key_parts_inject [OF assms(1,2)])
qed

text \<open>
  The stores share one database without overwriting one another: as long as users, assets, topics
  and prices contain no colon (and no price is the word \<open>prices\<close>), two keys are equal only if they are
  the same kind of key for the same entity.
\<close>

theorem store_keys_disjoint:
  assumes "plain_key k" "plain_key k'"
  shows "key_text k = key_text k' \<longleftrightarrow> k = k'"
  using key_text_inject [OF assms] by blast

theorem store_keys_disjoint_witness:
  "UserPositionKey ''u'' \<noteq> UserInterestKey ''u'' \<and> OrderBookPricesKey ''A-B'' Buy \<noteq> OrdersAtPriceKey ''A-B'' Buy ''12''"
  using store_keys_disjoint [of "KPosition ''u''" "KInterest ''u''"]
    store_keys_disjoint [of "KPrices ''A-B'' Buy" "KAtPrice ''A-B'' Buy ''12''"]
  by (simp add: plain_key_def prefix_defs Buy_def)

end
