(* ===== verification/RetryLiveness.thy ===== *)
theory RetryLiveness
  imports PositionStore
begin

text \<open>
  When the retries of \<open>src/redis\<close> come to an end with success: the total-correctness rule for
  \<open>TryTransaction\<close> and its use for the user positions of \<open>src/ledger/redis/positions.go\<close>. Faults are
  transient: a \<open>budget\<close> of the server state bounds how many more operations and watches can fail, and
  a strategy that allows that many retries gets through.
\<close>

section \<open>Retries that get through\<close>

text \<open>\<open>k\<close> runs of an operation in a row that all fail.\<close>

fun fails :: "('w \<Rightarrow> error option \<times> 'w) \<Rightarrow> nat \<Rightarrow> 'w \<Rightarrow> bool" where
  "fails op 0 w = True"
| "fails op (Suc k) w = (case op w of (None, w') \<Rightarrow> False | (Some e, w') \<Rightarrow> fails op k w')"

text \<open>
  A strategy that allows \<open>n\<close> retries: \<open>Retry\<close> returns, and it gives up only after the first run and \<open>n\<close>
  more have failed.
\<close>

definition persistent :: "nat \<Rightarrow> ('b, 'w) Client \<Rightarrow> 'b \<Rightarrow> bool" where
  "persistent n rdb b \<longleftrightarrow> (\<forall>op w. \<exists>r. Retry rdb op b w = Some r \<and> (fst r = None \<or> fails op (Suc n) w))"

text \<open>As \<open>watches\<close>, and a watch that fails without calling the function uses up one of the faults.\<close>

definition watches_live :: "('s \<Rightarrow> 's \<Rightarrow> bool) \<Rightarrow> ('s \<Rightarrow> nat) \<Rightarrow> ('b, 'l \<times> 's) Client \<Rightarrow> bool" where
  "watches_live env budget rdb \<longleftrightarrow> (\<forall>f keys l s. \<exists>s'. env s s' \<and>
     (Watch rdb f keys (l, s) = f (l, s')
      \<or> (\<exists>e. Watch rdb f keys (l, s) = (Some e, l, s') \<and> budget s' < budget s)))"

lemma watches_live_watches: "watches_live env budget rdb \<Longrightarrow> watches env rdb"
  unfolding watches_live_def watches_def by meson

lemma retry_n_persistent: "\<exists>r. retry_n op n w = Some r \<and> (fst r = None \<or> fails op (Suc n) w)"
  by (induction op n w rule: retry_n.induct) (auto split: option.splits prod.splits)

lemma bounded_client_strategy [simp]: "NewExponentialBackOff (bounded_client m) d = m"
  by (simp add: bounded_client_def)

lemma bounded_client_live [simp]:
  "persistent n (bounded_client m) n" "(\<And>s. env s s) \<Longrightarrow> watches_live env budget (bounded_client m)"
  using retry_n_persistent by (auto simp: persistent_def watches_live_def bounded_client_def)

locale live_transaction = transaction txn inv post env
  for txn :: "('l, 's) txn" and inv post env +
  fixes budget :: "'s \<Rightarrow> nat"
  assumes others_spend: "env s s' \<Longrightarrow> budget s' \<le> budget s"
    and fault_spends: "inv l s \<Longrightarrow> txn (l, s) = (Some e, l', s') \<Longrightarrow> budget s' < budget s"
begin

lemma fails_budget:
  assumes "fails (Watch rdb txn keys) k (l, s)" "watches_live env budget rdb" "inv l s"
  shows "k \<le> budget s"
  using assms(1,3)
proof (induction k arbitrary: l s)
  case (Suc k)
  obtain s1 where s1: "env s s1" "Watch rdb txn keys (l, s) = txn (l, s1)
      \<or> (\<exists>e. Watch rdb txn keys (l, s) = (Some e, l, s1) \<and> budget s1 < budget s)"
    using assms(2) unfolding watches_live_def by blast
  obtain e l' s' where w: "Watch rdb txn keys (l, s) = (Some e, l', s')" "fails (Watch rdb txn keys) k (l', s')"
    using Suc.prems(1) by (auto split: prod.splits option.splits)
  have inv: "inv l s1" "budget s1 \<le> budget s"
    using other_clients [OF Suc.prems(2) s1(1)] others_spend [OF s1(1)] by auto
  have "inv l' s' \<and> budget s' < budget s"
    using s1(2) w(1) inv failed [OF inv(1), of e l' s'] fault_spends [OF inv(1), of e l' s'] by auto
  with Suc.IH [OF w(2)] show ?case by simp
qed simp

lemma TryTransaction_succeeds:
  assumes "retries rdb" "persistent n rdb b" "watches_live env budget rdb" "inv l s" "budget s \<le> n"
  shows "\<exists>l' s'. TryTransaction rdb txn b keys (l, s) = Some (None, l', s') \<and> post l' s'"
proof -
  obtain r where r: "TryTransaction rdb txn b keys (l, s) = Some r"
    "fst r = None \<or> fails (Watch rdb txn keys) (Suc n) (l, s)"
    using assms(2) unfolding persistent_def TryTransaction_def Let_def by blast
  then obtain l' s' where "TryTransaction rdb txn b keys (l, s) = Some (None, l', s')"
    using fails_budget [OF _ assms(3,4), of keys "Suc n"] assms(5) by (cases r) auto
  with TryTransaction_post [OF this assms(1) watches_live_watches [OF assms(3)] assms(4)] show ?thesis by blast
qed

end

section \<open>Transient faults of the server\<close>

definition transient :: "('s \<Rightarrow> nat) \<Rightarrow> ('t \<Rightarrow> string) \<Rightarrow> ('t, 's) Cmdable \<Rightarrow> bool" where
  "transient budget rfc tx \<longleftrightarrow>
     (\<forall>k vs s e s'. HSet tx k vs s = (e, s') \<longrightarrow> encodable rfc vs \<longrightarrow>
        budget s' \<le> budget s \<and> (e \<noteq> None \<longrightarrow> budget s' < budget s))
   \<and> (\<forall>ks s e rs s'. TxPipelined_HGetAll tx ks s = ((e, rs), s') \<longrightarrow>
        budget s' \<le> budget s \<and> (e \<noteq> None \<longrightarrow> budget s' < budget s))"

lemma transient_HSet:
  assumes "transient budget rfc tx" "HSet tx k vs s = (e, s')" "encodable rfc vs"
  shows "budget s' \<le> budget s \<and> (e \<noteq> None \<longrightarrow> budget s' < budget s)"
  using assms unfolding transient_def by blast

lemma transient_pipeline:
  assumes "transient budget rfc tx" "TxPipelined_HGetAll tx ks s = ((e, rs), s')"
  shows "budget s' \<le> budget s \<and> (e \<noteq> None \<longrightarrow> budget s' < budget s)"
  using assms unfolding transient_def by blast

text \<open>What other clients may do: they neither change the hashes nor bring new faults.\<close>

abbreviation quiet :: "('s \<Rightarrow> string \<Rightarrow> string \<rightharpoonup> string) \<Rightarrow> ('s \<Rightarrow> nat) \<Rightarrow> 's \<Rightarrow> 's \<Rightarrow> bool" where
  "quiet content budget s s' \<equiv> content s' = content s \<and> budget s' \<le> budget s"

text \<open>A server in memory whose next operations fail, as many as the number beside it says.\<close>

definition flaky_hset ::
  "('t \<Rightarrow> string) \<Rightarrow> string \<Rightarrow> (string \<times> 't arg) list \<Rightarrow> nat \<times> mem \<Rightarrow> error option \<times> nat \<times> mem" where
  "flaky_hset rfc k vs = (\<lambda>(n, m). if n = 0 then (case mem_hset rfc k vs m of (e, m) \<Rightarrow> (e, 0, m))
     else (Some (ErrorString ''connection reset''), n - 1, m))"

definition on_snd :: "('m \<Rightarrow> 'r \<times> 'm) \<Rightarrow> nat \<times> 'm \<Rightarrow> 'r \<times> nat \<times> 'm" where
  "on_snd f = (\<lambda>(n, m). case f m of (r, m) \<Rightarrow> (r, n, m))"

definition flaky_pipeline ::
  "('t \<Rightarrow> string) \<Rightarrow> string list \<Rightarrow> nat \<times> mem \<Rightarrow> (error option \<times> (error + (string, string) gomap) list) \<times> nat \<times> mem" where
  "flaky_pipeline rfc ks = (\<lambda>(n, m). if n = 0 then on_snd (TxPipelined_HGetAll (mem_server rfc) ks) (n, m)
     else let e = ErrorString ''connection reset'' in ((Some e, map (\<lambda>_. Inl e) ks), n - 1, m))"

definition flaky_server :: "('t \<Rightarrow> string) \<Rightarrow> ('t, nat \<times> mem) Cmdable" where
  "flaky_server rfc =
     \<lparr>HGetAll = \<lambda>k. on_snd (HGetAll (mem_server rfc) k), HGet = \<lambda>k f. on_snd (HGet (mem_server rfc) k f),
      HMGet = \<lambda>k fs. on_snd (HMGet (mem_server rfc) k fs), HSet = flaky_hset rfc, HMSet = flaky_hset rfc,
      Keys = \<lambda>p. on_snd (Keys (mem_server rfc) p), TxPipelined_HGetAll = flaky_pipeline rfc,
      Nil = Nil (mem_server rfc)\<rparr>"

abbreviation flaky_content :: "nat \<times> mem \<Rightarrow> string \<Rightarrow> string \<rightharpoonup> string" where
  "flaky_content s \<equiv> mem_content (snd s)"

lemma mem_hset_HSet: "mem_hset rfc = HSet (mem_server rfc)"
  by (simp add: mem_server_def)

lemma flaky_hset_law: "write_law flaky_content rfc (flaky_hset rfc)"
  unfolding write_law_def
proof (intro allI impI)
  fix k vs e s' and s :: "nat \<times> mem"
  assume h: "flaky_hset rfc k vs s = (e, s')" "distinct (map fst vs)"
  obtain n m where s: "s = (n, m)" by (cases s)
  show "(\<forall>(f, a) \<in> set vs. arg_text rfc a \<noteq> None)
      \<and> flaky_content s' = (flaky_content s)(k := written rfc vs (flaky_content s k))
    \<or> e \<noteq> None \<and> flaky_content s' = flaky_content s"
  proof (cases n)
    case 0
    then obtain m' where m': "HSet (mem_server rfc) k vs m = (e, m')" "s' = (0, m')"
      using h(1) by (auto simp: flaky_hset_def s mem_hset_HSet split: prod.splits)
    from hash_server_HSet [OF mem_server_laws m'(1) h(2)] show ?thesis by (simp add: s m'(2))
  next
    case (Suc k)
    then show ?thesis using h(1) by (auto simp: flaky_hset_def s)
  qed
qed

lemma flaky_pipeline_law:
  assumes "flaky_pipeline rfc ks s = ((e, rs), s')"
  shows "flaky_content s' = flaky_content s
    \<and> list_all2 (\<lambda>k r. hash_of (flaky_content s k) r) ks rs \<and> (e = None \<longrightarrow> list_all is_ok rs)"
proof (cases "fst s")
  case 0
  then obtain m' where "TxPipelined_HGetAll (mem_server rfc) ks (snd s) = ((e, rs), m')" "s' = (0, m')"
    using assms by (cases s) (auto simp: flaky_pipeline_def on_snd_def split: prod.splits)
  with hash_server_pipeline [OF mem_server_laws this(1)] show ?thesis by simp
next
  case (Suc n)
  then show ?thesis using assms
    by (cases s) (auto simp: flaky_pipeline_def Let_def hash_of_def list_all2_map2 list_all2_same)
qed

lemma on_snd_iff: "on_snd f s = (r, s') \<longleftrightarrow> f (snd s) = (r, snd s') \<and> fst s' = fst s"
  by (cases s; cases s') (auto simp: on_snd_def split: prod.splits)

lemma flaky_server_simps:
  "HGetAll (flaky_server rfc) k = on_snd (HGetAll (mem_server rfc) k)"
  "HGet (flaky_server rfc) k f = on_snd (HGet (mem_server rfc) k f)"
  "HMGet (flaky_server rfc) k fs = on_snd (HMGet (mem_server rfc) k fs)"
  "HSet (flaky_server rfc) = flaky_hset rfc" "HMSet (flaky_server rfc) = flaky_hset rfc"
  "TxPipelined_HGetAll (flaky_server rfc) = flaky_pipeline rfc" "Nil (flaky_server rfc) = Nil (mem_server rfc)"
  by (simp_all add: flaky_server_def)

lemma flaky_server_laws: "hash_server flaky_content rfc (flaky_server rfc)"
  unfolding hash_server_def flaky_server_simps
proof (intro conjI allI impI flaky_hset_law)
  fix ks s e rs s' assume "flaky_pipeline rfc ks s = ((e, rs), s')"
  note flaky_pipeline_law [OF this]
  then show "flaky_content s' = flaky_content s" "list_all2 (\<lambda>k r. hash_of (flaky_content s k) r) ks rs"
    "e = None \<Longrightarrow> list_all is_ok rs" by simp_all
qed (insert mem_server_laws [of rfc], unfold hash_server_def on_snd_iff, blast+)

lemma mem_hset_encodable: "encodable rfc vs \<Longrightarrow> mem_hset rfc k vs m = (e, m') \<Longrightarrow> e = None"
  by (auto simp: mem_hset_def encodable_def list_all_iff split: if_splits)

lemma flaky_server_transient: "transient fst rfc (flaky_server rfc)"
  unfolding transient_def flaky_server_simps
proof (intro conjI allI impI)
  fix k vs s e s' assume "flaky_hset rfc k vs s = (e, s')" "encodable rfc vs"
  then show "fst s' \<le> fst s" "e \<noteq> None \<Longrightarrow> fst s' < fst s"
    by (auto simp: flaky_hset_def dest: mem_hset_encodable split: prod.splits if_splits)
next
  fix ks s e rs s' assume "flaky_pipeline rfc ks s = ((e, rs), s')"
  then show "fst s' \<le> fst s" "e \<noteq> None \<Longrightarrow> fst s' < fst s"
    by (auto simp: flaky_pipeline_def on_snd_iff mem_server_def Let_def split: prod.splits if_splits)
qed

section \<open>User positions\<close>

lemma storable_encodable: "storable marshal unmarshal (u, Some p) \<Longrightarrow> encodable rfc (position_values marshal p)"
  by (auto simp: storable_def encodable_def position_values_def mput_def Position_MarshalBinary_def)

lemma write_positions_budget:
  assumes "transient budget rfc tx" "write_positions tx marshal reqs (l, s) = (e, l', s')"
    and "\<forall>r \<in> set reqs. storable marshal unmarshal r"
  shows "budget s' \<le> budget s \<and> (e \<noteq> None \<longrightarrow> budget s' < budget s)"
  using assms(2,3)
proof (induction reqs arbitrary: l s)
  case (Cons r reqs)
  obtain u p where r: "r = (u, Some p)" using storable_Some [of marshal unmarshal r] Cons.prems(2) by (cases r) auto
  obtain e1 s1 where h: "HSet tx (UserPositionKey u) (position_values marshal p) s = (e1, s1)"
    by (cases "HSet tx (UserPositionKey u) (position_values marshal p) s")
  have s1: "budget s1 \<le> budget s" "e1 \<noteq> None \<longrightarrow> budget s1 < budget s"
    using transient_HSet [OF assms(1) h storable_encodable] Cons.prems(2) r by auto
  show ?case
  proof (cases e1)
    case None
    then have "write_positions tx marshal reqs (map_option (\<lambda>w. w @ [UserPositionKey u]) l, s1) = (e, l', s')"
      using Cons.prems(1) by (simp add: r h)
    from Cons.IH [OF this] Cons.prems(2) s1 show ?thesis by auto
  next
    case (Some e2)
    then show ?thesis using Cons.prems(1) s1 by (simp add: r h Let_def)
  qed
qed simp

lemma collect_positions_ok:
  assumes "stored_positions marshal unmarshal h A" "list_all is_ok rs"
    and "list_all2 (\<lambda>k r. hash_of (h k) r) (map UserPositionKey us) rs"
  shows "fst (collect_positions marshal unmarshal rs l) = None"
  using assms(2,3)
proof (induction us arbitrary: rs l)
  case (Cons u us)
  then obtain r rs' where r: "rs = r # rs'" "hash_of (h (UserPositionKey u)) r" "is_ok r" "list_all is_ok rs'"
    "list_all2 (\<lambda>k r. hash_of (h k) r) (map UserPositionKey us) rs'"
    by (auto simp: list_all2_Cons1)
  then obtain m where m: "r = Inr m" by (cases r) auto
  show ?case using Cons.IH [OF r(4,5)] read_one_hash [OF assms(1) r(2) [unfolded m]] by (simp add: r(1) m)
qed simp

lemma getUsersPosition_budget:
  assumes "transient budget rfc tx" "get_inv content rfc tx marshal unmarshal users A l s"
    and "getUsersPosition_f marshal unmarshal tx (map UserPositionKey users) (l, s) = (e, l', s')"
  shows "budget s' \<le> budget s \<and> (e \<noteq> None \<longrightarrow> budget s' < budget s)"
proof -
  obtain err rs s1 where p: "TxPipelined_HGetAll tx (map UserPositionKey users) s = ((err, rs), s1)"
    by (metis prod.exhaust)
  have hs: "hash_server content rfc tx" "stored_positions marshal unmarshal (content s) A"
    using assms(2) by (auto simp: get_inv_def)
  have "e = None" if "err = None"
    using collect_positions_ok [OF hs(2), of rs users l] hash_server_pipeline [OF hs(1) p] assms(3) that
    by (auto simp: getUsersPosition_f_def p split: prod.splits option.splits)
  moreover have "s' = s1"
    using assms(3) by (auto simp: getUsersPosition_f_def p split: prod.splits option.splits)
  ultimately show ?thesis using transient_pipeline [OF assms(1) p] by auto
qed


interpretation set_live: live_transaction "write_positions tx marshal reqs"
  "\<lambda>l s. (l \<noteq> None \<and> set_inv content rfc tx marshal unmarshal reqs A s) \<and> transient budget rfc tx \<and> budget s \<le> n"
  "\<lambda>l s. (l \<noteq> None \<and> stored_positions marshal unmarshal (content s) (A ++ requested reqs)) \<and> budget s \<le> n"
  "quiet content budget" budget
  for tx :: "('t, 's) Cmdable" and marshal unmarshal reqs rfc A n budget
    and content :: "'s \<Rightarrow> string \<Rightarrow> string \<rightharpoonup> string"
proof unfold_locales
  fix l :: "string list option" and s s'
  assume "(l \<noteq> None \<and> set_inv content rfc tx marshal unmarshal reqs A s) \<and> transient budget rfc tx \<and> budget s \<le> n"
    "quiet content budget s s'"
  then show "(l \<noteq> None \<and> set_inv content rfc tx marshal unmarshal reqs A s') \<and> transient budget rfc tx \<and> budget s' \<le> n"
    using set_pos.other_clients by fastforce
next
  fix l s e l' s'
  assume inv: "(l \<noteq> None \<and> set_inv content rfc tx marshal unmarshal reqs A s) \<and> transient budget rfc tx \<and> budget s \<le> n"
    and run: "write_positions tx marshal reqs (l, s) = (Some e, l', s')"
  have "budget s' \<le> budget s \<and> budget s' < budget s"
    using write_positions_budget [OF _ run] inv by (auto simp: set_inv_def)
  then show "budget s' < budget s"
    and "(l' \<noteq> None \<and> set_inv content rfc tx marshal unmarshal reqs A s') \<and> transient budget rfc tx \<and> budget s' \<le> n"
    using inv set_pos.failed [OF _ run] by auto
next
  fix l s l' s'
  assume inv: "(l \<noteq> None \<and> set_inv content rfc tx marshal unmarshal reqs A s) \<and> transient budget rfc tx \<and> budget s \<le> n"
    and run: "write_positions tx marshal reqs (l, s) = (None, l', s')"
  have "budget s' \<le> budget s"
    using write_positions_budget [OF _ run] inv by (auto simp: set_inv_def)
  then show "(l' \<noteq> None \<and> stored_positions marshal unmarshal (content s') (A ++ requested reqs)) \<and> budget s' \<le> n"
    using inv set_pos.succeeded [OF _ run] by auto
qed simp

interpretation get_live: live_transaction "getUsersPosition_f marshal unmarshal tx (map UserPositionKey users)"
  "\<lambda>l s. get_inv content rfc tx marshal unmarshal users A l s \<and> transient budget rfc tx"
  "\<lambda>l s. stored_positions marshal unmarshal (content s) A
     \<and> (\<forall>u \<in> set users. map_of l u = Some (position_of marshal A u))"
  "quiet content budget" budget
  for tx :: "('t, 's) Cmdable" and marshal unmarshal users rfc A budget
    and content :: "'s \<Rightarrow> string \<Rightarrow> string \<rightharpoonup> string"
proof unfold_locales
  fix l s s' assume "get_inv content rfc tx marshal unmarshal users A l s \<and> transient budget rfc tx"
    "quiet content budget s s'"
  then show "get_inv content rfc tx marshal unmarshal users A l s' \<and> transient budget rfc tx"
    using get_pos.other_clients by fastforce
next
  fix l s e l' s' assume inv: "get_inv content rfc tx marshal unmarshal users A l s \<and> transient budget rfc tx"
    and run: "getUsersPosition_f marshal unmarshal tx (map UserPositionKey users) (l, s) = (Some e, l', s')"
  show "budget s' < budget s" using getUsersPosition_budget [OF _ _ run] inv by auto
  show "get_inv content rfc tx marshal unmarshal users A l' s' \<and> transient budget rfc tx"
    using inv get_pos.failed [OF _ run] by auto
next
  fix l s l' s' assume inv: "get_inv content rfc tx marshal unmarshal users A l s \<and> transient budget rfc tx"
    and run: "getUsersPosition_f marshal unmarshal tx (map UserPositionKey users) (l, s) = (None, l', s')"
  then show "stored_positions marshal unmarshal (content s') A
     \<and> (\<forall>u \<in> set users. map_of l' u = Some (position_of marshal A u))"
    using get_pos.succeeded [OF _ run] by blast
qed simp

lemma SetUsersPosition_succeeds:
  assumes "hash_server content rfc tx" "transient budget rfc tx" "retries rdb"
    and "persistent n rdb (NewExponentialBackOff rdb timeout)" "watches_live (quiet content budget) budget rdb"
    and "stored_positions marshal unmarshal (content s) A" "wf_map reqs"
    and "\<forall>r \<in> set reqs. storable marshal unmarshal r" "budget s \<le> n"
  shows "\<exists>s'. SetUsersPosition rdb tx marshal timeout reqs s = Some (None, s')
    \<and> stored_positions marshal unmarshal (content s') (A ++ requested reqs) \<and> budget s' \<le> n"
proof -
  have "(Some (replicate (length reqs) '''') \<noteq> None \<and> set_inv content rfc tx marshal unmarshal reqs A s)
      \<and> transient budget rfc tx \<and> budget s \<le> n"
    using assms(1,2,6-9) by (auto simp: set_inv_def intro: partly_refl)
  from set_live.TryTransaction_succeeds [OF assms(3-5) this assms(9)]
  obtain l' s' where "TryTransaction rdb (write_positions tx marshal reqs) (NewExponentialBackOff rdb timeout)
      (replicate (length reqs) '''') (Some (replicate (length reqs) ''''), s) = Some (None, l', s')"
    "(l' \<noteq> None \<and> stored_positions marshal unmarshal (content s') (A ++ requested reqs)) \<and> budget s' \<le> n"
    by blast
  then show ?thesis by (auto simp: SetUsersPosition_def Let_def)
qed

lemma GetUsersPosition_succeeds:
  assumes "hash_server content rfc tx" "transient budget rfc tx" "retries rdb"
    and "persistent n rdb (NewExponentialBackOff rdb timeout)" "watches_live (quiet content budget) budget rdb"
    and "stored_positions marshal unmarshal (content s) A" "budget s \<le> n"
  shows "\<exists>positions s'. GetUsersPosition rdb tx marshal unmarshal timeout users s = Some (Inr positions, s')
    \<and> (\<forall>u \<in> set users. map_of positions u = Some (position_of marshal A u))"
proof -
  have "get_inv content rfc tx marshal unmarshal users A (initial_positions marshal users) s \<and> transient budget rfc tx"
    using assms(1,2,6) by (simp add: get_inv_def map_of_initial)
  from get_live.TryTransaction_succeeds [OF assms(3-5) this assms(7)]
  obtain l' s' where "TryTransaction rdb (getUsersPosition_f marshal unmarshal tx (map UserPositionKey users))
      (NewExponentialBackOff rdb timeout) (map UserPositionKey users) (initial_positions marshal users, s)
      = Some (None, l', s')"
    "\<forall>u \<in> set users. map_of l' u = Some (position_of marshal A u)"
    by blast
  then show ?thesis by (auto simp: GetUsersPosition_def getUsersPosition_def Let_def)
qed

text \<open>
  C5: positions that are written are read back, with total correctness: when the server and the
  watches can fail at most \<open>n\<close> more times and the strategy allows \<open>n\<close> retries, \<open>SetUsersPosition\<close>
  returns without an error, and the \<open>GetUsersPosition\<close> after it returns, for every user asked for, the
  position that was just written, the one stored before, or an initial one.
\<close>

theorem positions_read_your_writes:
  assumes "hash_server content rfc tx" "transient budget rfc tx"
    and "retries rdb" "persistent n rdb (NewExponentialBackOff rdb timeout)"
    and "watches_live (quiet content budget) budget rdb"
    and "retries rdb'" "persistent n rdb' (NewExponentialBackOff rdb' timeout')"
    and "watches_live (quiet content budget) budget rdb'"
    and "stored_positions marshal unmarshal (content s) A" "wf_map reqs"
    and "\<forall>r \<in> set reqs. storable marshal unmarshal r" "budget s \<le> n"
  shows "\<exists>s' positions s''. SetUsersPosition rdb tx marshal timeout reqs s = Some (None, s')
    \<and> GetUsersPosition rdb' tx marshal unmarshal timeout' users s' = Some (Inr positions, s'')
    \<and> (\<forall>u \<in> set users. map_of positions u = Some (position_of marshal (A ++ requested reqs) u))"
proof -
  obtain s' where "SetUsersPosition rdb tx marshal timeout reqs s = Some (None, s')"
    "stored_positions marshal unmarshal (content s') (A ++ requested reqs)" "budget s' \<le> n"
    using SetUsersPosition_succeeds [OF assms(1-5,9-12)] by blast
  with GetUsersPosition_succeeds [OF assms(1,2,6-8) this(2,3)] show ?thesis by blast
qed

text \<open>A concrete run: two faults, and a strategy of two retries.\<close>

theorem positions_read_your_writes_witness:
  "\<exists>s' positions s''. SetUsersPosition (bounded_client 2) (flaky_server (\<lambda>_ :: nat. '''')) demo_marshal 5
       [(''u'', Some demo_position)] (2, []) = Some (None, s')
     \<and> GetUsersPosition (bounded_client 2) (flaky_server (\<lambda>_ :: nat. '''')) demo_marshal demo_unmarshal 5
       [''u''] s' = Some (Inr positions, s'')
     \<and> map_of positions ''u'' = Some (read_position demo_marshal (pos_fields demo_position))"
proof -
  have s: "stored_positions demo_marshal demo_unmarshal (flaky_content (2, [])) Map.empty" "fst (2 :: nat, [] :: mem) \<le> 2"
    using demo_laws(4) by simp_all
  have "\<exists>s' positions s''. SetUsersPosition (bounded_client 2) (flaky_server (\<lambda>_ :: nat. '''')) demo_marshal 5
       [(''u'', Some demo_position)] (2, []) = Some (None, s')
     \<and> GetUsersPosition (bounded_client 2) (flaky_server (\<lambda>_ :: nat. '''')) demo_marshal demo_unmarshal 5
       [''u''] s' = Some (Inr positions, s'')
     \<and> (\<forall>u \<in> set [''u'']. map_of positions u = Some (position_of demo_marshal
          (Map.empty ++ requested [(''u'', Some demo_position)]) u))"
    by (rule positions_read_your_writes [OF flaky_server_laws flaky_server_transient _ _ _ _ _ _ s(1) demo_laws(5,6) s(2)])
      simp_all
  then show ?thesis by (simp add: position_of_def)
qed

end
