(* ===== verification/StoreFrames.thy ===== *)
theory StoreFrames
  imports StoreKeys RetryLiveness Runs
begin

text \<open>
  What the operations of the stores do not touch. Positions, the module, interest, pools and prices
  share one Redis database (\<open>src/ledger/redis\<close>, \<open>src/pools/redis\<close>, \<open>src/prices/redis\<close>); every write
  changes only the hashes at its own keys, whether it succeeds or fails, and reads change none. So a
  run of operations of all stores leaves alone what none of them is about.
\<close>

section \<open>Transactions that write certain keys only\<close>

locale confined =
  fixes txn :: "('l, 's) txn"
    and content :: "'s \<Rightarrow> string \<Rightarrow> string \<rightharpoonup> string"
    and footprint :: "string set"
    and lawful :: bool
  assumes confines: "lawful \<Longrightarrow> txn (l, s) = (e, l', s') \<Longrightarrow> k \<notin> footprint \<Longrightarrow> content s' k = content s k"
begin

lemma attempts_frame:
  assumes "attempts (Watch rdb txn keys) w r" "watches (\<lambda>s s'. content s' = content s) rdb" lawful "k \<notin> footprint"
  shows "content (snd (snd r)) k = content (snd w) k"
proof -
  have one: "content (snd w') k = content (snd w) k" if op: "Watch rdb txn keys w = (e, w')" for e w w'
  proof -
    obtain l s where w: "w = (l, s)" by (cases w)
    obtain l' s'' where w': "w' = (l', s'')" by (cases w')
    obtain s' where s': "content s' = content s"
      "Watch rdb txn keys (l, s) = txn (l, s') \<or> (\<exists>e. Watch rdb txn keys (l, s) = (Some e, l, s'))"
      using assms(2) unfolding watches_def by blast
    then have "txn (l, s') = (e, l', s'') \<or> s'' = s'" using op w w' by auto
    then show ?thesis using confines [OF assms(3) _ assms(4)] s'(1) w w' by auto
  qed
  show ?thesis using assms(1)
  proof (induction rule: attempts.induct)
    case (last w r)
    then show ?case using one [of w "fst r" "snd r"] by simp
  next
    case (again w e w' r)
    then show ?case using one [OF again.hyps(1)] by simp
  qed
qed

lemma TryTransaction_frame:
  assumes "TryTransaction rdb txn b keys (l, s) = Some (e, l', s')"
    and "retries rdb" "watches (\<lambda>s s'. content s' = content s) rdb" lawful "k \<notin> footprint"
  shows "content s' k = content s k"
  using attempts_frame [of rdb keys "(l, s)" "(e, l', s')"] assms by (simp add: TryTransaction_def retries_def)

end

section \<open>The footprints of the operations\<close>

interpretation fr_set_hash: confined "set_hash tx key vs" content "{key}"
  "hash_server content rfc tx \<and> distinct (map fst vs)"
  for tx :: "('t, 's) Cmdable" and key vs rfc and content :: "'s \<Rightarrow> string \<Rightarrow> string \<rightharpoonup> string"
proof unfold_locales
  fix l s e l' s' k assume "hash_server content rfc tx \<and> distinct (map fst vs)" "set_hash tx key vs (l, s) = (e, l', s')" "k \<notin> {key}"
  then show "content s' k = content s k" using set_hash_run [of tx key vs l s e l' s' content rfc] by (auto simp: hash_set_def)
qed

lemma distinct_position_values [simp]: "distinct (map fst (position_values marshal p))"
  by (simp add: position_values_def mput_def)

lemma HSet_frame:
  assumes "hash_server content rfc tx" "HSet tx key vs s = (e, s')" "distinct (map fst vs)" "k \<noteq> key"
  shows "content s' k = content s k"
  using hash_server_HSet [OF assms(1-3)] assms(4) by auto

lemma write_position_frame:
  assumes "hash_server content rfc tx" "write_position tx marshal (u, q) s = Some (e, s')" "k \<noteq> UserPositionKey u"
  shows "content s' k = content s k"
proof -
  obtain p where "HSet tx (UserPositionKey u) (position_values marshal p) s = (e, s')" using assms(2) by (cases q) auto
  from HSet_frame [OF assms(1) this _ assms(3)] show ?thesis by simp
qed

lemma write_positions_frame:
  assumes "hash_server content rfc tx" "write_positions tx marshal reqs (l, s) = (e, l', s')"
    and "k \<notin> UserPositionKey ` fst ` set reqs"
  shows "content s' k = content s k"
  using assms(2,3)
proof (induction reqs arbitrary: l s)
  case (Cons r reqs)
  obtain u q where r: "r = (u, q)" by (cases r)
  show ?case
  proof (cases "write_position tx marshal (u, q) s")
    case None
    then show ?thesis using Cons.prems(1) by (simp add: r)
  next
    case (Some x)
    then obtain e1 s1 where w: "write_position tx marshal (u, q) s = Some (e1, s1)" by (cases x) auto
    have s1: "content s1 k = content s k"
      using write_position_frame [OF assms(1) w] Cons.prems(2) r by simp
    show ?thesis
    proof (cases e1)
      case None
      then have "write_positions tx marshal reqs (map_option (\<lambda>w. w @ [UserPositionKey u]) l, s1) = (e, l', s')"
        using Cons.prems(1) by (simp add: r w)
      from Cons.IH [OF this] Cons.prems(2) s1 show ?thesis by simp
    qed (use Cons.prems(1) s1 in \<open>simp add: r w Let_def\<close>)
  qed
qed simp

interpretation fr_positions: confined "write_positions tx marshal reqs" content "UserPositionKey ` fst ` set reqs"
  "hash_server content rfc tx"
  for tx :: "('t, 's) Cmdable" and marshal reqs rfc and content :: "'s \<Rightarrow> string \<Rightarrow> string \<rightharpoonup> string"
  by unfold_locales (rule write_positions_frame)

lemma setUserInterestTx_frame:
  assumes "hash_server content rfc tx" "setUserInterestTx tx u i s = (e, s')" "k \<noteq> UserInterestKey u"
  shows "content s' k = content s k"
  using setUserInterestTx_law [OF assms(1,2)] assms(3) by auto

lemma write_interest_frame:
  assumes "hash_server content rfc tx" "write_interest tx reqs s = (e, l, s')" "k \<notin> UserInterestKey ` fst ` set reqs"
  shows "content s' k = content s k"
  using assms(2,3)
proof (induction reqs arbitrary: s)
  case (Cons r reqs)
  show ?case
  proof (cases "snd r")
    case None
    then show ?thesis using Cons.prems(1) by (cases r) simp
  next
    case (Some i)
    then obtain u where r: "r = (u, Some i)" by (cases r) simp
    obtain e1 s1 where h: "setUserInterestTx tx u i s = (e1, s1)" by fastforce
    have s1: "content s1 k = content s k" using setUserInterestTx_frame [OF assms(1) h] Cons.prems(2) r by simp
    show ?thesis using Cons.IH [of s1] Cons.prems s1 by (cases e1) (auto simp: r h)
  qed
qed simp

interpretation fr_interest: confined "SetUserInterest_f tx reqs" content "UserInterestKey ` fst ` set reqs"
  "hash_server content rfc tx"
  for tx :: "(time, 's) Cmdable" and reqs rfc and content :: "'s \<Rightarrow> string \<Rightarrow> string \<rightharpoonup> string"
proof unfold_locales
  fix l s e l' s' k assume "hash_server content rfc tx" "SetUserInterest_f tx reqs (l, s) = (e, l', s')"
    "k \<notin> UserInterestKey ` fst ` set reqs"
  then show "content s' k = content s k"
    using write_interest_frame [of content rfc tx reqs s e l' s' k] by (simp add: SetUserInterest_f_def)
qed

lemma store_accrual_frame:
  assumes "hash_server content rfc tx" "store_accrual x tx u ui s = (r, s')"
    and "k \<noteq> UserInterestKey u" "k \<noteq> UserInterestKey MODULE"
  shows "content s' k = content s k"
proof -
  obtain i m where ui: "ui = (i, m)" by (cases ui)
  obtain e1 s1 where 1: "setUserInterestTx tx u i s = (e1, s1)" by fastforce
  obtain e2 s2 where 2: "setUserInterestTx tx MODULE m s1 = (e2, s2)" by fastforce
  have "s' = s1 \<or> s' = s2" using assms(2) by (auto simp: store_accrual_def ui 1 2 split: option.splits)
  then show ?thesis
    using setUserInterestTx_frame [OF assms(1) 1 assms(3)] setUserInterestTx_frame [OF assms(1) 2 assms(4)] by auto
qed

lemma accrue_frame:
  assumes "hash_server content rfc tx" "accrueLendingInterestTx x tx u assetData flatRate s = Some (r, s')"
    and "k \<noteq> UserInterestKey u" "k \<noteq> UserInterestKey MODULE"
  shows "content s' k = content s k"
  using assms(1,2)
proof (cases rule: accrue_cases)
  case (stored is1 is3 b s1 s2 s3)
  then show ?thesis using store_accrual_frame [OF assms(1) stored(5) assms(3,4)] by simp
qed simp

interpretation fr_accrue: confined "AccrueLendingInterest_f x tx userID assetData flatRate" content
  "{UserInterestKey userID, UserInterestKey MODULE}" "hash_server content rfc tx"
  for x and tx :: "(time, 's) Cmdable" and userID assetData flatRate rfc and content :: "'s \<Rightarrow> string \<Rightarrow> string \<rightharpoonup> string"
proof unfold_locales
  fix l s e l' s' k assume a: "hash_server content rfc tx" "k \<notin> {UserInterestKey userID, UserInterestKey MODULE}"
    "AccrueLendingInterest_f x tx userID assetData flatRate (l, s) = (e, l', s')"
  then show "content s' k = content s k"
    using accrue_frame [of content rfc tx x userID assetData flatRate s _ s' k]
    by (cases "accrueLendingInterestTx x tx userID assetData flatRate s")
      (auto simp: AccrueLendingInterest_f_def split: sum.splits)
qed

lemma accrue_users_frame:
  assumes "hash_server content rfc tx" "accrue_users x tx assetData flatRate users (l, s) = (e, l', s')"
    and "k \<notin> UserInterestKey ` insert MODULE (set users)"
  shows "content s' k = content s k"
  using assms(2,3)
proof (induction users arbitrary: l s)
  case (Cons u users)
  show ?case
  proof (cases "accrueLendingInterestTx x tx u assetData flatRate s")
    case (Some p)
    obtain r s1 where p: "p = (r, s1)" by (cases p)
    have s1: "content s1 k = content s k" using accrue_frame [OF assms(1)] Some p Cons.prems(2) by simp
    show ?thesis
    proof (cases r)
      case (Inl err)
      then show ?thesis using Cons.prems(1) s1 by (simp add: Some p)
    next
      case (Inr t)
      then have "accrue_users x tx assetData flatRate users (map_option (\<lambda>ts. ts @ [t]) l, s1) = (e, l', s')"
        using Cons.prems(1) by (simp add: Some p)
      from Cons.IH [OF this] Cons.prems(2) s1 show ?thesis by simp
    qed
  next
    case None
    then show ?thesis using Cons.prems(1) by simp
  qed
qed simp

interpretation fr_accrue_all: confined "accrue_users x tx assetData flatRate users" content
  "UserInterestKey ` insert MODULE (set users)" "hash_server content rfc tx"
  for x and tx :: "(time, 's) Cmdable" and assetData flatRate users rfc and content :: "'s \<Rightarrow> string \<Rightarrow> string \<rightharpoonup> string"
  by unfold_locales (rule accrue_users_frame)


section \<open>Runs of writes\<close>

text \<open>
  The clients that the operations are run with, one for each type of captured variables, and what they
  document.
\<close>

record ('b, 's) clients =
  c_unit :: "('b, unit \<times> 's) Client"
  c_interest :: "('b, unit option \<times> 's) Client"
  c_watch :: "('b, string list option \<times> 's) Client"
  c_accrual :: "('b, TxLendingInterestAccrual option option \<times> 's) Client"
  c_accruals :: "('b, TxLendingInterestAccrual list option \<times> 's) Client"

definition lawful_clients :: "('s \<Rightarrow> string \<Rightarrow> string \<rightharpoonup> string) \<Rightarrow> ('b, 's) clients \<Rightarrow> bool" where
  "lawful_clients content c \<longleftrightarrow>
     retries (c_unit c) \<and> watches (\<lambda>s s'. content s' = content s) (c_unit c)
   \<and> retries (c_interest c) \<and> watches (\<lambda>s s'. content s' = content s) (c_interest c)
   \<and> retries (c_watch c) \<and> watches (\<lambda>s s'. content s' = content s) (c_watch c)
   \<and> retries (c_accrual c) \<and> watches (\<lambda>s s'. content s' = content s) (c_accrual c)
   \<and> retries (c_accruals c) \<and> watches (\<lambda>s s'. content s' = content s) (c_accruals c)"

text \<open>
  The operations that write, with any arguments and any outcome, those of a pipeline (\<open>Cmd\<close>) included;
  the label is the set of the keys that the operation is about. \<open>dec_text\<close> prints a decimal of a pool.
\<close>

inductive store_write ::
  "('b, 's) clients \<Rightarrow> (time, 's) Cmdable \<Rightarrow> ('d \<Rightarrow> string) \<Rightarrow> store_key set \<Rightarrow> 's \<Rightarrow> 's \<Rightarrow> bool"
  for c tx dec_text where
  w_positions: "SetUsersPosition (c_watch c) tx marshal timeout reqs s = Some (e, s') \<Longrightarrow>
    store_write c tx dec_text (KPosition ` fst ` set reqs) s s'"
| w_positions_cmd: "SetUsersPositionCmd tx marshal reqs s = Some (es, s') \<Longrightarrow>
    store_write c tx dec_text (KPosition ` fst ` set reqs) s s'"
| w_module: "SetModulePosition (c_unit c) tx mmarshal timeout m s = Some (e, s') \<Longrightarrow>
    store_write c tx dec_text {KModule} s s'"
| w_module_cmd: "SetModulePositionCmd tx mmarshal m s = (e, s') \<Longrightarrow> store_write c tx dec_text {KModule} s s'"
| w_interest: "SetUserInterest (c_interest c) tx timeout interests s = Some (e, s') \<Longrightarrow>
    store_write c tx dec_text (KInterest ` fst ` set interests) s s'"
| w_accrue: "AccrueLendingInterest x (c_accrual c) tx timeout u assetData flatRate s = Some (a, s') \<Longrightarrow>
    store_write c tx dec_text {KInterest u, KInterest MODULE} s s'"
| w_accrue_all: "AccrueAllLendingInterest x (c_accruals c) tx timeout assetData flatRate watch users s = Some (as, s') \<Longrightarrow>
    store_write c tx dec_text (KInterest ` insert MODULE (set users)) s s'"
| w_create_pool: "CreatePool (c_unit c) tx dec_text pool timeout s = (Some (e, s'), pool') \<Longrightarrow>
    store_write c tx dec_text {KPool (PoolID pool')} s s'"
| w_pool: "UpdatePool (c_unit c) tx dec_text pool timeout i s = Some (e, s') \<Longrightarrow> store_write c tx dec_text {KPool i} s s'"
| w_pool_cmd: "UpdatePoolCmd tx dec_text pool s = (e, s') \<Longrightarrow> store_write c tx dec_text {KPool (PoolID pool)} s s'"
| w_balance: "UpdatePoolBalance (c_unit c) tx i sh b q fb fq n timeout s = Some (e, s') \<Longrightarrow>
    store_write c tx dec_text {KPool i} s s'"
| w_balance_cmd: "UpdatePoolBalanceCmd tx i sh b q fb fq n s = (e, s') \<Longrightarrow> store_write c tx dec_text {KPool i} s s'"
| w_prices: "SetPrices (c_unit c) tx pmarshal timeout prices s = Some (e, s') \<Longrightarrow> wf_map prices \<Longrightarrow>
    store_write c tx dec_text {KAllPrices} s s'"
| w_prices_cmd: "SetPricesCmd tx pmarshal prices s = (es, s') \<Longrightarrow> wf_map prices \<Longrightarrow>
    store_write c tx dec_text {KAllPrices} s s'"

lemma set_hash_frame:
  assumes "TryTransaction rdb (set_hash tx key vs) b keys ((), s) = Some (e, (), s')"
    and "hash_server content rfc tx" "retries rdb" "watches (\<lambda>s s'. content s' = content s) rdb"
    and "distinct (map fst vs)" "k \<noteq> key"
  shows "content s' k = content s k"
  using fr_set_hash.TryTransaction_frame [OF assms(1,3,4)] assms(2,5,6) by blast

lemma SetUsersPositionCmd_frame:
  assumes "hash_server content rfc tx" "SetUsersPositionCmd tx marshal reqs s = Some (es, s')"
    and "k \<notin> UserPositionKey ` fst ` set reqs"
  shows "content s' k = content s k"
  using assms(2,3)
proof (induction reqs arbitrary: s es)
  case (Cons r reqs)
  obtain u q where r: "r = (u, q)" by (cases r)
  obtain e1 s1 es' where h: "write_position tx marshal (u, q) s = Some (e1, s1)"
    "SetUsersPositionCmd tx marshal reqs s1 = Some (es', s')"
    using Cons.prems(1) by (auto simp: r split: option.splits)
  have s1: "content s1 k = content s k"
    using write_position_frame [OF assms(1) h(1)] Cons.prems(2) r by simp
  note h(2)
  from Cons.IH [OF this] Cons.prems(2) s1 show ?case by simp
qed simp

lemma distinct_module_values: "distinct (map fst (module_values marshal m))"
  by (simp add: module_values_def mput_def)

lemma SetUsersPosition_frame:
  assumes "SetUsersPosition rdb tx marshal timeout reqs s = Some (e, s')"
    and "hash_server content rfc tx" "retries rdb" "watches (\<lambda>s s'. content s' = content s) rdb"
    and "k \<notin> UserPositionKey ` fst ` set reqs"
  shows "content s' k = content s k"
  using assms fr_positions.TryTransaction_frame [of rdb tx marshal reqs _ _ _ s e _ s' content rfc k]
  by (auto simp: SetUsersPosition_def Let_def split: option.splits)

lemma SetUserInterest_frame:
  assumes "SetUserInterest rdb tx timeout reqs s = Some (e, s')"
    and "hash_server content rfc tx" "retries rdb" "watches (\<lambda>s s'. content s' = content s) rdb"
    and "k \<notin> UserInterestKey ` fst ` set reqs"
  shows "content s' k = content s k"
  using assms fr_interest.TryTransaction_frame [of rdb tx reqs _ _ _ s e _ s' content rfc k]
  by (auto simp: SetUserInterest_def Let_def split: option.splits)

lemma AccrueLendingInterest_frame:
  assumes "AccrueLendingInterest x rdb tx timeout u assetData flatRate s = Some (a, s')"
    and "hash_server content rfc tx" "retries rdb" "watches (\<lambda>s s'. content s' = content s) rdb"
    and "k \<noteq> UserInterestKey u" "k \<noteq> UserInterestKey MODULE"
  shows "content s' k = content s k"
proof -
  obtain e l where "TryTransaction rdb (AccrueLendingInterest_f x tx u assetData flatRate) (NewExponentialBackOff rdb timeout)
      [UserInterestKey u, UserPositionKey u, UserInterestKey MODULE, ModulePositionKey] (Some None, s) = Some (e, l, s')"
    using assms(1) by (auto simp: AccrueLendingInterest_def Let_def split: option.splits)
  from fr_accrue.TryTransaction_frame [OF this assms(3,4,2)] assms(5,6) show ?thesis by simp
qed

lemma AccrueAllLendingInterest_frame:
  assumes "AccrueAllLendingInterest x rdb tx timeout assetData flatRate watch users s = Some (a, s')"
    and "hash_server content rfc tx" "retries rdb" "watches (\<lambda>s s'. content s' = content s) rdb"
    and "k \<notin> UserInterestKey ` insert MODULE (set users)"
  shows "content s' k = content s k"
proof -
  obtain e l where "TryTransaction rdb (accrue_users x tx assetData flatRate users) (NewExponentialBackOff rdb timeout)
      (watch @ [UserInterestKey MODULE, ModulePositionKey]) (Some [], s) = Some (e, l, s')"
    using assms(1) by (auto simp: AccrueAllLendingInterest_def Let_def split: option.splits)
  from fr_accrue_all.TryTransaction_frame [OF this assms(3,4,2,5)] show ?thesis .
qed

lemma UpdatePool_frame:
  assumes "UpdatePool rdb tx dec_text pool timeout i s = Some (e, s')"
    and "hash_server content rfc tx" "retries rdb" "watches (\<lambda>s s'. content s' = content s) rdb" "k \<noteq> PoolKey i"
  shows "content s' k = content s k"
  using set_hash_frame [OF _ assms(2-4) distinct_values(1) assms(5)] assms(1) by (auto simp: UpdatePool_def Let_def)

lemma store_write_frame:
  assumes "store_write c tx dec_text K s s'" "hash_server content rfc tx" "lawful_clients content c"
    and "k \<notin> key_text ` K"
  shows "content s' k = content s k"
proof -
  note cl = assms(3) [unfolded lawful_clients_def]
  note frames = SetUsersPosition_frame [OF _ assms(2)] SetUserInterest_frame [OF _ assms(2)]
    AccrueLendingInterest_frame [OF _ assms(2)] AccrueAllLendingInterest_frame [OF _ assms(2)]
    UpdatePool_frame [OF _ assms(2)] SetUsersPositionCmd_frame [OF assms(2)] HSet_frame [OF assms(2)]
  note hash = set_hash_frame [OF _ assms(2)]
  show ?thesis
    using assms(1)
  proof cases
    case (w_module mmarshal timeout m e)
    then show ?thesis using hash [OF _ _ _ distinct_module_values] cl assms(4) by (auto simp: SetModulePosition_def Let_def)
  next
    case (w_balance i sh b q fb fq n timeout e)
    then show ?thesis using hash [OF _ _ _ distinct_values(2)] cl assms(4) by (auto simp: UpdatePoolBalance_def Let_def)
  next
    case (w_prices pmarshal timeout prices e)
    then show ?thesis using hash [OF _ _ _ conjunct1 [OF price_values_lookup]] cl assms(4) by (auto simp: SetPrices_def Let_def)
  next
    case (w_prices_cmd pmarshal prices es)
    obtain e where "HSet tx PricesKey (price_values pmarshal prices) s = (e, s')"
      using w_prices_cmd(2) by (auto simp: SetPricesCmd_def split: prod.splits)
    with frames(7) [OF this conjunct1 [OF price_values_lookup]] show ?thesis using w_prices_cmd assms(4) by simp
  next
    case (w_create_pool pool timeout e pool')
    then show ?thesis using frames(5) cl assms(4) by (auto simp: CreatePool_def Let_def)
  next
    case (w_module_cmd mmarshal m e)
    then show ?thesis using frames(7) [OF _ distinct_module_values] assms(4) by (simp add: SetModulePositionCmd_def)
  next
    case (w_pool_cmd pool e)
    then show ?thesis using frames(7) [OF _ distinct_values(1)] assms(4) by (simp add: UpdatePoolCmd_def)
  next
    case (w_balance_cmd i sh b q fb fq n e)
    then show ?thesis using frames(7) [OF _ distinct_values(2)] assms(4) by (simp add: UpdatePoolBalanceCmd_def)
  next
    case (w_positions marshal timeout reqs e)
    then show ?thesis using frames(1) [OF w_positions(2)] cl assms(4) by (simp add: image_image)
  next
    case (w_positions_cmd marshal reqs es)
    then show ?thesis using frames(6) [OF w_positions_cmd(2)] assms(4) by (simp add: image_image)
  next
    case (w_interest timeout interests e)
    then show ?thesis using frames(2) [OF w_interest(2)] cl assms(4) by (simp add: image_image)
  next
    case (w_accrue x timeout u assetData flatRate a)
    then show ?thesis using frames(3) [OF w_accrue(2)] cl assms(4) by simp
  next
    case (w_accrue_all x timeout assetData flatRate watch users as)
    then show ?thesis using frames(4) [OF w_accrue_all(2)] cl assms(4) by (simp add: image_image)
  next
    case (w_pool pool timeout i e)
    then show ?thesis using frames(5) [OF w_pool(2)] cl assms(4) by simp
  qed
qed

interpretation store: progress "\<lambda>K s s'. k \<notin> key_text ` K \<and> store_write c tx dec_text K s s'"
  "\<lambda>_. hash_server content rfc tx \<and> lawful_clients content c" "\<lambda>s s'. content s' k = content s k"
  for k c tx dec_text rfc and content :: "'s \<Rightarrow> string \<Rightarrow> string \<rightharpoonup> string"
  by unfold_locales (use store_write_frame in \<open>auto\<close>)

lemma store_run_frame:
  assumes "runs (store_write c tx dec_text) s Ks s'" "hash_server content rfc tx" "lawful_clients content c"
    and "\<forall>K \<in> set Ks. k \<notin> key_text ` K"
  shows "content s' k = content s k"
  using store.runs_rel [OF runs_restrict [OF assms(1,4)]] assms(2,3) by blast

text \<open>
  C12: the stores are isolated from one another: over any sequence of writes to positions, the module,
  interest, pools and prices, whether they succeed or fail and however often they are retried, an
  entity that none of them is about keeps its hash (when no identifier contains a colon).
\<close>

theorem stores_isolated:
  assumes "runs (store_write c tx dec_text) s Ks s'" "hash_server content rfc tx" "lawful_clients content c"
    and "plain_key key" "\<forall>K \<in> set Ks. key \<notin> K \<and> (\<forall>k \<in> K. plain_key k)"
  shows "content s' (key_text key) = content s (key_text key)"
proof -
  have "key_text key \<notin> key_text ` K" if "K \<in> set Ks" for K
    using assms(4,5) that key_text_inject by blast
  then show ?thesis using store_run_frame [OF assms(1-3)] by blast
qed

lemma position_keys_apart: "(\<And>u. k \<noteq> KPosition u) \<Longrightarrow> key_text k \<noteq> UserPositionKey u"
  by (cases k) (simp_all add: key_defs prefix_defs Key_def UserPositionKey_def ModulePositionKey_def UserInterestKey_def
      PoolKey_def PricesKey_def)

lemma stored_positions_cong:
  assumes "\<And>u. h' (UserPositionKey u) = h (UserPositionKey u)" "stored_positions marshal unmarshal h A"
  shows "stored_positions marshal unmarshal h' A"
  using assms(2) unfolding stored_positions_def assms(1) .

text \<open>
  C21: positions survive what the other stores do: positions that \<open>SetUsersPosition\<close> has written are what
  \<open>GetUsersPosition\<close> returns after any sequence of writes to the module, interest, pools and prices.
\<close>

theorem positions_survive:
  assumes "hash_server content rfc tx" "lawful_clients content c"
    and "retries rdb" "watches (\<lambda>s s'. content s' = content s) rdb"
    and "stored_positions marshal unmarshal (content s) A" "wf_map reqs"
    and "\<forall>r \<in> set reqs. storable marshal unmarshal r"
    and "SetUsersPosition (c_watch c) tx marshal timeout reqs s = Some (None, s1)"
    and "runs (store_write c tx dec_text) s1 Ks s2" "\<forall>K \<in> set Ks. \<forall>u. KPosition u \<notin> K"
    and "GetUsersPosition rdb tx marshal unmarshal timeout' users s2 = Some (Inr positions, s3)"
  shows "\<forall>u \<in> set users. map_of positions u = Some (position_of marshal (A ++ requested reqs) u)"
proof -
  have c: "retries (c_watch c)" "watches (\<lambda>s s'. content s' = content s) (c_watch c)"
    using assms(2) by (simp_all add: lawful_clients_def)
  note set = SetUsersPosition_stores [OF assms(1) c assms(5-8)]
  have "content s2 (UserPositionKey u) = content s1 (UserPositionKey u)" for u
  proof (rule store_run_frame [OF assms(9,1,2)], intro ballI notI)
    fix K assume K: "K \<in> set Ks" "UserPositionKey u \<in> key_text ` K"
    then obtain k where "k \<in> K" "key_text k = UserPositionKey u" by auto
    then show False using assms(10) K(1) position_keys_apart by metis
  qed
  then have "stored_positions marshal unmarshal (content s2) (A ++ requested reqs)"
    using stored_positions_cong set by blast
  from GetUsersPosition_reads [OF assms(1,3,4) this assms(11)] show ?thesis by blast
qed

section \<open>Concrete runs\<close>

definition demo_clients :: "(nat, mem) clients" where
  "demo_clients = \<lparr>c_unit = bounded_client 1, c_interest = bounded_client 1, c_watch = bounded_client 1, c_accrual = bounded_client 1,
     c_accruals = bounded_client 1\<rparr>"

abbreviation demo_tx :: "(time, mem) Cmdable" where
  "demo_tx \<equiv> mem_server (\<lambda>_. ''t'')"

abbreviation demo_owed :: mem where
  "demo_owed \<equiv> [(''interest:users:u'', [(''owed'', ''5'')])]"

abbreviation demo_held :: mem where
  "demo_held \<equiv> [(''interest:users:u'', [(''owed'', ''5'')]), (''positions:users:u'', [(''u'', ''u'')])]"

abbreviation demo_priced :: mem where
  "demo_priced \<equiv> [(''interest:users:u'', [(''owed'', ''5'')]), (''positions:users:u'', [(''u'', ''u'')]),
     (''prices'', [(''A'', ''2'')])]"

lemma demo_clients_lawful: "lawful_clients mem_content demo_clients"
  by (simp add: lawful_clients_def demo_clients_def)

lemma demo_hold: "SetUsersPosition (c_watch demo_clients) demo_tx demo_marshal 5 [(''u'', Some demo_position)] demo_owed
    = Some (None, demo_held)"
  by code_simp

abbreviation demo_write :: "store_key set \<Rightarrow> mem \<Rightarrow> mem \<Rightarrow> bool" where
  "demo_write \<equiv> store_write demo_clients demo_tx (\<lambda>_ :: nat. '''')"

lemma demo_price: "demo_write {KAllPrices} demo_held demo_priced"
proof (rule w_prices_cmd)
  show "SetPricesCmd demo_tx (\<lambda>_. Some ''2'') [(''A'', FFin 2)] demo_held = ([None], demo_priced)" by code_simp
qed (simp add: wf_map_def)

lemma demo_writes:
  "runs demo_write demo_owed [{KPosition ''u''}, {KAllPrices}] demo_priced"
proof -
  have "demo_write (KPosition ` fst ` set [(''u'', Some demo_position)]) demo_owed demo_held"
    by (rule w_positions [OF demo_hold])
  from run_step [where step = demo_write, OF run_step [where step = demo_write, OF run_none this] demo_price]
  show ?thesis by simp
qed

theorem stores_isolated_witness:
  "mem_content demo_priced (UserInterestKey ''u'') = mem_content demo_owed (UserInterestKey ''u'')
    \<and> mem_content demo_priced (UserInterestKey ''u'') ''owed'' = Some ''5''"
proof -
  have "plain_key (KInterest ''u'')" "plain_key (KPosition ''u'')" "plain_key KAllPrices" by (simp_all add: plain_key_def)
  then have "mem_content demo_priced (key_text (KInterest ''u'')) = mem_content demo_owed (key_text (KInterest ''u''))"
    by (intro stores_isolated [OF demo_writes mem_server_laws demo_clients_lawful]) simp_all
  then show ?thesis by (simp add: mem_content_def mget_def UserInterestKey_def)
qed

theorem positions_survive_witness:
  "\<exists>positions s'. GetUsersPosition (bounded_client 1) demo_tx demo_marshal demo_unmarshal 5 [''u''] demo_priced
       = Some (Inr positions, s')
     \<and> map_of positions ''u'' = Some (read_position demo_marshal (pos_fields demo_position))"
proof -
  let ?g = "GetUsersPosition (bounded_client 1) demo_tx demo_marshal demo_unmarshal 5 [''u''] demo_priced"
  have "map_option (is_ok \<circ> fst) ?g = Some True" by code_simp
  then obtain r s' where r: "?g = Some (r, s')" "is_ok r" by auto
  then obtain positions where g: "?g = Some (Inr positions, s')" by (cases r) auto
  have none: "stored_positions demo_marshal demo_unmarshal (mem_content demo_owed) Map.empty"
    by (simp add: stored_positions_def mem_content_def mget_def UserPositionKey_def fun_eq_iff)
  have "\<forall>u \<in> set [''u'']. map_of positions u
      = Some (position_of demo_marshal (Map.empty ++ requested [(''u'', Some demo_position)]) u)"
    by (rule positions_survive [OF mem_server_laws demo_clients_lawful _ _ none demo_laws(5,6) demo_hold
          run_step [where step = demo_write, OF run_none demo_price] _ g]) simp_all
  then show ?thesis using g by (simp add: position_of_def)
qed

end
