(* ===== verification/ConcurrentWrites.thy ===== *)
theory ConcurrentWrites
  imports PositionStore Runs
begin

text \<open>
  Services that write positions at the same time (\<open>SetUsersPosition\<close> of
  \<open>src/ledger/redis/positions.go\<close>). The closure sends its commands one by one: \<open>tx.HSet\<close> on a
  watching client is executed at once and not queued, so that the commands of several services
  interleave on the server, which executes each of them atomically. A failed attempt is run again from
  the start, in whatever order Go then iterates over the request.
\<close>

section \<open>Interleaved attempts\<close>

text \<open>
  What is left to do of an attempt; the call that has returned without an error; the error with
  which its retries gave up; or a panic. \<open>R c\<close> is the request of the call \<open>c\<close>.
\<close>

datatype writer = Writing "(string \<times> Position option) list" | Returned | GaveUp error | Panicked

datatype 'c write_action = Write 'c | Return 'c | Elsewhere

inductive writer_step ::
  "('s \<Rightarrow> string \<Rightarrow> string \<rightharpoonup> string) \<Rightarrow> ('t, 's) Cmdable \<Rightarrow> pos_marshal \<Rightarrow> ('c \<Rightarrow> (string, Position option) gomap)
     \<Rightarrow> 'c write_action \<Rightarrow> ('c \<Rightarrow> writer) \<times> 's \<Rightarrow> ('c \<Rightarrow> writer) \<times> 's \<Rightarrow> bool"
  for content tx marshal R where
  write_ok: "cl c = Writing (r # rs) \<Longrightarrow> write_position tx marshal r s = Some (None, s') \<Longrightarrow>
    writer_step content tx marshal R (Write c) (cl, s) (cl(c := Writing rs), s')"
| write_again: "cl c = Writing (r # rs) \<Longrightarrow> write_position tx marshal r s = Some (Some e, s') \<Longrightarrow> mset rs' = mset (R c) \<Longrightarrow>
    writer_step content tx marshal R (Write c) (cl, s) (cl(c := Writing rs'), s')"
| give_up: "cl c = Writing (r # rs) \<Longrightarrow> write_position tx marshal r s = Some (Some e, s') \<Longrightarrow>
    writer_step content tx marshal R (Write c) (cl, s) (cl(c := GaveUp e), s')"
| panic: "cl c = Writing (r # rs) \<Longrightarrow> write_position tx marshal r s = None \<Longrightarrow>
    writer_step content tx marshal R (Write c) (cl, s) (cl(c := Panicked), s)"
| return: "cl c = Writing [] \<Longrightarrow>
    writer_step content tx marshal R (Return c) (cl, s) (cl(c := Returned), s)"
| elsewhere: "\<forall>u. content s' (UserPositionKey u) = content s (UserPositionKey u) \<Longrightarrow>
    writer_step content tx marshal R Elsewhere (cl, s) (cl, s')"

inductive_cases writer_step_cases: "writer_step content tx marshal R a (cl, s) (cl', s')"

fun pending :: "writer \<Rightarrow> string set" where
  "pending (Writing rs) = fst ` set rs"
| "pending Returned = {}"
| "pending (GaveUp e) = UNIV"
| "pending Panicked = UNIV"

text \<open>The stored position of \<open>u\<close> is one that a call asked for.\<close>

definition asked :: "('c \<Rightarrow> (string, Position option) gomap) \<Rightarrow> (string \<rightharpoonup> PositionFields) \<Rightarrow> string \<Rightarrow> bool" where
  "asked R B u = (\<exists>c. requested (R c) u \<noteq> None \<and> B u = requested (R c) u)"

definition writers_store where
  "writers_store marshal unmarshal R A cl h \<longleftrightarrow>
     (\<exists>B. stored_positions marshal unmarshal h B \<and> (\<forall>u. B u = A u \<or> asked R B u)
       \<and> (\<forall>c u. requested (R c) u \<noteq> None \<longrightarrow> u \<notin> pending (cl c) \<longrightarrow> asked R B u))"

definition writers_inv where
  "writers_inv content rfc tx marshal unmarshal R A = (\<lambda>(cl, s). hash_server content rfc tx
     \<and> (\<forall>c. wf_map (R c) \<and> (\<forall>r \<in> set (R c). storable marshal unmarshal r))
     \<and> (\<forall>c rs. cl c = Writing rs \<longrightarrow> set rs \<subseteq> set (R c))
     \<and> writers_store marshal unmarshal R A cl (content s))"

lemma stored_positions_frame:
  "\<forall>u. h' (UserPositionKey u) = h (UserPositionKey u) \<Longrightarrow>
   stored_positions marshal unmarshal h' B = stored_positions marshal unmarshal h B"
  by (simp add: stored_positions_def cong: option.case_cong)

lemma requested_member: "wf_map reqs \<Longrightarrow> (u, Some p) \<in> set reqs \<Longrightarrow> requested reqs u = Some (pos_fields p)"
  by (simp add: requested_def wf_map_def)

lemma requested_user: "requested reqs u \<noteq> None \<Longrightarrow> u \<in> fst ` set reqs"
  by (metis requested_None)

lemma writers_storeI:
  assumes "stored_positions marshal unmarshal h B" "\<And>u. B u = A u \<or> asked R B u"
    and "\<And>c u. requested (R c) u \<noteq> None \<Longrightarrow> u \<notin> pending (cl c) \<Longrightarrow> asked R B u"
  shows "writers_store marshal unmarshal R A cl h"
  unfolding writers_store_def using assms by (intro exI [of _ B]) metis

text \<open>One command, whether it succeeds, fails or takes effect although its reply is lost.\<close>

lemma writers_store_command:
  assumes "hash_server content rfc tx" "wf_map (R c)" "storable marshal unmarshal (u, q)" "(u, q) \<in> set (R c)"
    and "writers_store marshal unmarshal R A cl (content s)"
    and "write_position tx marshal (u, q) s = Some (e, s')"
    and "\<And>v. v \<in> pending (cl c) \<Longrightarrow> v \<noteq> u \<or> e \<noteq> None \<Longrightarrow> requested (R c) v \<noteq> None \<Longrightarrow> v \<in> pending w"
  shows "writers_store marshal unmarshal R A (cl(c := w)) (content s')"
proof -
  obtain p where q: "q = Some p" using storable_Some [OF assms(3)] by auto
  obtain B where B: "stored_positions marshal unmarshal (content s) B" "\<forall>u. B u = A u \<or> asked R B u"
    "\<forall>c u. requested (R c) u \<noteq> None \<longrightarrow> u \<notin> pending (cl c) \<longrightarrow> asked R B u"
    using assms(5) by (auto simp: writers_store_def)
  have u: "requested (R c) u = Some (pos_fields p)" by (rule requested_member [OF assms(2,4) [unfolded q]])
  from hset_stores [OF assms(1) B(1) assms(3) [unfolded q]] assms(6) [unfolded q]
  consider "stored_positions marshal unmarshal (content s') (B(u \<mapsto> pos_fields p))"
    | "e \<noteq> None" "content s' = content s" by fastforce
  then show ?thesis
  proof cases
    case 1
    have B': "asked R B v \<Longrightarrow> asked R (B(u \<mapsto> pos_fields p)) v" "asked R (B(u \<mapsto> pos_fields p)) u" for v
      using u by (cases "v = u"; force simp: asked_def)+
    then have "asked R (B(u \<mapsto> pos_fields p)) v"
      if "requested (R d) v \<noteq> None" "v \<notin> pending ((cl(c := w)) d)" for d v
      using B(3) that assms(7) [of v] by (cases "v = u"; cases "d = c") auto
    moreover have "(B(u \<mapsto> pos_fields p)) v = A v \<or> asked R (B(u \<mapsto> pos_fields p)) v" for v
      using B(2) B' by (cases "v = u") auto
    ultimately show ?thesis using 1 by (intro writers_storeI)
  next
    case 2
    then have "asked R B v" if "requested (R d) v \<noteq> None" "v \<notin> pending ((cl(c := w)) d)" for d v
      using B(3) that assms(7) [of v] by (cases "d = c") auto
    then show ?thesis using B(1,2) 2(2) by (intro writers_storeI [of marshal unmarshal _ B]) auto
  qed
qed

lemma writers_store_return:
  assumes "writers_store marshal unmarshal R A cl h" "cl c = Writing []"
  shows "writers_store marshal unmarshal R A (cl(c := Returned)) h"
proof -
  have "pending ((cl(c := Returned)) d) = pending (cl d)" for d using assms(2) by simp
  then show ?thesis using assms(1) by (simp only: writers_store_def)
qed

interpretation writers: invariant "writer_step content tx marshal R" "writers_inv content rfc tx marshal unmarshal R A"
  for content :: "'s \<Rightarrow> string \<Rightarrow> string \<rightharpoonup> string" and rfc :: "'t \<Rightarrow> string" and tx :: "('t, 's) Cmdable"
    and marshal unmarshal and R :: "'c \<Rightarrow> (string, Position option) gomap" and A
proof unfold_locales
  fix a x x'
  assume "writer_step content tx marshal R a x x'" "writers_inv content rfc tx marshal unmarshal R A x"
  then show "writers_inv content rfc tx marshal unmarshal R A x'"
  proof cases
    case (write_ok cl c r rs s s')
    then show ?thesis
      using writers_store_command [of content rfc tx R c marshal unmarshal "fst r" "snd r" A cl s None s' "Writing rs"]
        \<open>writers_inv content rfc tx marshal unmarshal R A x\<close>
      by (force simp: writers_inv_def)
  next
    case (write_again cl c r rs s e s' rs')
    have all: "v \<in> pending (Writing rs')" if "requested (R c) v \<noteq> None" for v
      using requested_user [OF that] mset_eq_setD [OF write_again(6)] by simp
    then show ?thesis
      using writers_store_command [of content rfc tx R c marshal unmarshal "fst r" "snd r" A cl s "Some e" s' "Writing rs'"]
        \<open>writers_inv content rfc tx marshal unmarshal R A x\<close> mset_eq_setD [OF write_again(6)] write_again
      by (force simp: writers_inv_def)
  next
    case (give_up cl c r rs s e s')
    then show ?thesis
      using writers_store_command [of content rfc tx R c marshal unmarshal "fst r" "snd r" A cl s "Some e" s' "GaveUp e"]
        \<open>writers_inv content rfc tx marshal unmarshal R A x\<close>
      by (force simp: writers_inv_def)
  next
    case (panic cl c r rs s)
    then have "storable marshal unmarshal r"
      using \<open>writers_inv content rfc tx marshal unmarshal R A x\<close> by (force simp: writers_inv_def)
    then obtain u p where "r = (u, Some p)" using storable_Some by (cases r) force
    with panic(5) show ?thesis by simp
  next
    case (return cl c s)
    then show ?thesis
      using \<open>writers_inv content rfc tx marshal unmarshal R A x\<close> writers_store_return [of marshal unmarshal R A cl _ c]
      by (auto simp: writers_inv_def)
  next
    case (elsewhere s' s cl)
    then show ?thesis
      using \<open>writers_inv content rfc tx marshal unmarshal R A x\<close> stored_positions_frame [of "content s'" "content s"]
      by (auto simp: writers_inv_def writers_store_def)
  qed
qed

lemma writers_inv_start:
  assumes "hash_server content rfc tx" "stored_positions marshal unmarshal (content s) A"
    and "\<forall>c. wf_map (R c) \<and> (\<forall>r \<in> set (R c). storable marshal unmarshal r)"
  shows "writers_inv content rfc tx marshal unmarshal R A (\<lambda>c. Writing (R c), s)"
proof -
  have "writers_store marshal unmarshal R A (\<lambda>c. Writing (R c)) (content s)"
    using assms(2) by (intro writers_storeI [of _ _ _ A]) (auto simp: requested_None)
  then show ?thesis using assms(1,3) by (simp add: writers_inv_def)
qed

text \<open>
  C6: positions written by any number of services at the same time, with failed attempts and lost
  replies in between: the store always holds positions, and each user has the position of before or
  one that a call asked for, never a mixture; once a call has returned without an error, its users
  have a position that some call asked for, and where no other call asks for them, exactly its own. A
  read in the meantime sees such a state.
\<close>

theorem concurrent_writes:
  assumes "hash_server content rfc tx" "stored_positions marshal unmarshal (content s) A"
    and "\<forall>c. wf_map (R c) \<and> (\<forall>r \<in> set (R c). storable marshal unmarshal r)"
    and "runs (writer_step content tx marshal R) (\<lambda>c. Writing (R c), s) as (cl, s')"
  shows "\<exists>B. stored_positions marshal unmarshal (content s') B
    \<and> (\<forall>u. B u = A u \<or> asked R B u)
    \<and> (\<forall>c u. cl c = Returned \<longrightarrow> requested (R c) u \<noteq> None \<longrightarrow> asked R B u
        \<and> ((\<forall>d. d \<noteq> c \<longrightarrow> requested (R d) u = None) \<longrightarrow> B u = requested (R c) u))
    \<and> (\<forall>users l s''. getUsersPosition_f marshal unmarshal tx (map UserPositionKey users) (initial_positions marshal users, s') = (None, l, s'')
        \<longrightarrow> (\<forall>u \<in> set users. map_of l u = Some (position_of marshal B u)))"
proof -
  have "writers_inv content rfc tx marshal unmarshal R A (cl, s')"
    by (rule writers.runs_inv [OF assms(4) writers_inv_start [OF assms(1-3)]])
  then obtain B where B: "stored_positions marshal unmarshal (content s') B" "\<forall>u. B u = A u \<or> asked R B u"
    "\<forall>c u. requested (R c) u \<noteq> None \<longrightarrow> u \<notin> pending (cl c) \<longrightarrow> asked R B u"
    unfolding writers_inv_def writers_store_def by blast
  have "B u = requested (R c) u" if "asked R B u" "\<forall>d. d \<noteq> c \<longrightarrow> requested (R d) u = None" for c u
    using that by (metis asked_def)
  moreover have "asked R B u" if "cl c = Returned" "requested (R c) u \<noteq> None" for c u
    using B(3) that by (metis empty_iff pending.simps(2))
  moreover have "\<forall>u \<in> set users. map_of l u = Some (position_of marshal B u)"
    if "getUsersPosition_f marshal unmarshal tx (map UserPositionKey users) (initial_positions marshal users, s') = (None, l, s'')"
    for users l s''
  proof -
    have "get_inv content rfc tx marshal unmarshal users B (initial_positions marshal users) s'"
      using assms(1) B(1) by (simp add: get_inv_def map_of_initial)
    from get_step [OF this that] show ?thesis by simp
  qed
  ultimately show ?thesis using B(1,2) by (intro exI [of _ B]) blast
qed

text \<open>Two calls, for the users \<open>u\<close> and \<open>v\<close>, whose commands alternate.\<close>

definition two_calls :: "bool \<Rightarrow> (string, Position option) gomap" where
  "two_calls c = (let u = (if c then ''u'' else ''v'') in [(u, Some (with_fields (zero_fields\<lparr>UserID := u\<rparr>) '''' 0))])"

lemma two_calls_run:
  "runs (writer_step mem_content demo_server demo_marshal two_calls) (\<lambda>c. Writing (two_calls c), [])
     (([Write True] @ [Write False]) @ [Return True])
     (((\<lambda>c. Writing (two_calls c))(True := Writing [], False := Writing []))(True := Returned),
       [(''positions:users:u'', [(''u'', ''u'')]), (''positions:users:v'', [(''v'', ''v'')])])"
proof -
  have w: "write_position demo_server demo_marshal (hd (two_calls True)) [] = Some (None, [(''positions:users:u'', [(''u'', ''u'')])])"
    "write_position demo_server demo_marshal (hd (two_calls False)) [(''positions:users:u'', [(''u'', ''u'')])]
       = Some (None, [(''positions:users:u'', [(''u'', ''u'')]), (''positions:users:v'', [(''v'', ''v'')])])"
    by code_simp+
  have c: "two_calls d = [hd (two_calls d)]" for d by (simp add: two_calls_def Let_def)
  let ?c0 = "\<lambda>c. Writing (two_calls c)"
  let ?c1 = "?c0(True := Writing [])"
  let ?c2 = "?c1(False := Writing [])"
  let ?step = "writer_step mem_content demo_server demo_marshal two_calls"
  have "?step (Write True) (?c0, []) (?c1, [(''positions:users:u'', [(''u'', ''u'')])])"
    using c by (intro writer_step.write_ok [OF _ w(1)]) simp
  moreover have "?step (Write False) (?c1, [(''positions:users:u'', [(''u'', ''u'')])])
      (?c2, [(''positions:users:u'', [(''u'', ''u'')]), (''positions:users:v'', [(''v'', ''v'')])])"
    using c by (intro writer_step.write_ok [OF _ w(2)]) simp
  moreover have "?step (Return True) (?c2, t) (?c2(True := Returned), t)" for t
    by (intro writer_step.return) simp
  ultimately show ?thesis by (intro runs_append [OF runs_one runs_append [OF runs_one runs_one]])
qed

theorem concurrent_writes_witness:
  "\<exists>B. stored_positions demo_marshal demo_unmarshal
       (mem_content [(''positions:users:u'', [(''u'', ''u'')]), (''positions:users:v'', [(''v'', ''v'')])]) B
     \<and> B ''u'' = Some (zero_fields\<lparr>UserID := ''u''\<rparr>)"
proof -
  have f: "pos_fields (with_fields f x n) = f" for f x n by simp
  have st: "storable demo_marshal demo_unmarshal r" if "r \<in> set (two_calls c)" for c r
    using that by (cases c) (simp_all add: two_calls_def storable_def zero_fields_def Let_def del: pos_fields_select,
        simp_all add: with_fields_def PositionFields.defs Position.defs)
  have wf: "wf_map (two_calls c)" for c by (simp add: two_calls_def wf_map_def Let_def)
  have u: "requested (two_calls d) ''u'' = (if d then Some (zero_fields\<lparr>UserID := ''u''\<rparr>) else None)" for d
    by (simp add: two_calls_def Let_def f)
  let ?h = "mem_content [(''positions:users:u'', [(''u'', ''u'')]), (''positions:users:v'', [(''v'', ''v'')])]"
  let ?cl = "((\<lambda>c. Writing (two_calls c))(True := Writing [], False := Writing []))(True := Returned)"
  have "\<forall>c. wf_map (two_calls c) \<and> (\<forall>r \<in> set (two_calls c). storable demo_marshal demo_unmarshal r)"
    using wf st by blast
  from concurrent_writes [OF demo_laws(1,4) this two_calls_run]
  obtain B where B: "stored_positions demo_marshal demo_unmarshal ?h B"
    "\<forall>c u. ?cl c = Returned \<longrightarrow> requested (two_calls c) u \<noteq> None \<longrightarrow> asked two_calls B u
        \<and> ((\<forall>d. d \<noteq> c \<longrightarrow> requested (two_calls d) u = None) \<longrightarrow> B u = requested (two_calls c) u)"
    by (elim exE conjE) (rule that)
  from B(2) [rule_format, of True "''u''"] have "B ''u'' = Some (zero_fields\<lparr>UserID := ''u''\<rparr>)" by (simp add: u)
  with B(1) show ?thesis by blast
qed

section \<open>Calls as interleaved attempts\<close>

text \<open>
  The sequential model of \<open>SetUsersPosition\<close> is one of these interleavings: its commands are the steps
  of one call, between which the server is changed elsewhere only.
\<close>

text \<open>Where an attempt leaves its call: before the next attempt, in a panic, or with nothing left to write.\<close>

definition after_attempt :: "(string, Position option) gomap \<Rightarrow> error option \<Rightarrow> string list option \<Rightarrow> writer" where
  "after_attempt reqs e watch = (if e \<noteq> None then Writing reqs else if watch = None then Panicked else Writing [])"

lemma write_positions_run:
  assumes "write_positions tx marshal rs (w, s) = (e, w', s')" "cl c = Writing rs" "w \<noteq> None"
  shows "\<exists>as cl'. runs (writer_step content tx marshal R) (cl, s) as (cl', s') \<and> (\<forall>d. d \<noteq> c \<longrightarrow> cl' d = cl d)
    \<and> cl' c = after_attempt (R c) e w' \<and> (e \<noteq> None \<longrightarrow> w' \<noteq> None)"
  using assms
proof (induction rs arbitrary: w s cl)
  case Nil
  then show ?case by (auto intro: run_none simp: after_attempt_def)
next
  case (Cons r rs)
  obtain u q where r: "r = (u, q)" by (cases r)
  have one: "runs (writer_step content tx marshal R) (cl, s) [Write c] (cl(c := v), t)"
    if "writer_step content tx marshal R (Write c) (cl, s) (cl(c := v), t)" for v t
    by (intro runs_one that)
  consider "write_position tx marshal r s = None" | s1 where "write_position tx marshal r s = Some (None, s1)"
    | e1 s1 where "write_position tx marshal r s = Some (Some e1, s1)" by (metis option.exhaust prod.exhaust)
  then show ?case
  proof cases
    case 1
    then have "e = None" "w' = None" "s' = s" using Cons.prems(1) by (auto simp: r)
    with one [OF writer_step.panic [where cl = cl and c = c, OF Cons.prems(2) 1]] show ?thesis
      by (fastforce simp: after_attempt_def)
  next
    case (2 s1)
    let ?cl = "cl(c := Writing rs)"
    have "write_positions tx marshal rs (map_option (\<lambda>w. w @ [UserPositionKey u]) w, s1) = (e, w', s')"
      using Cons.prems(1) 2 by (simp add: r)
    moreover have "?cl c = Writing rs" "map_option (\<lambda>w. w @ [UserPositionKey u]) w \<noteq> None" using Cons.prems(3) by simp_all
    ultimately obtain as cl' where
      run: "runs (writer_step content tx marshal R) (?cl, s1) as (cl', s')" "\<forall>d. d \<noteq> c \<longrightarrow> cl' d = ?cl d"
        "cl' c = after_attempt (R c) e w' \<and> (e \<noteq> None \<longrightarrow> w' \<noteq> None)"
      using Cons.IH by metis
    from runs_append [OF run(1) one [OF writer_step.write_ok [where cl = cl and c = c, OF Cons.prems(2) 2]]] run(2,3)
    show ?thesis by fastforce
  next
    case (3 e1 s1)
    then have "e = Some e1" "s' = s1" "w' \<noteq> None" using Cons.prems(1,3) by (auto simp: r Let_def)
    with one [OF writer_step.write_again [where cl = cl and c = c, OF Cons.prems(2) 3 refl]] show ?thesis
      by (fastforce simp: after_attempt_def)
  qed
qed

lemma attempts_run:
  assumes "attempts (Watch rdb (write_positions tx marshal (R c)) keys) w r"
    and "watches (\<lambda>s s'. \<forall>u. content s' (UserPositionKey u) = content s (UserPositionKey u)) rdb"
    and "cl c = Writing (R c)" "fst w \<noteq> None"
  shows "\<exists>as cl'. runs (writer_step content tx marshal R) (cl, snd w) as (cl', snd (snd r)) \<and> (\<forall>d. d \<noteq> c \<longrightarrow> cl' d = cl d)
    \<and> cl' c = after_attempt (R c) (fst r) (fst (snd r))"
proof -
  let ?runs = "runs (writer_step content tx marshal R)"
  have one: "\<exists>as cl'. ?runs (cl, snd w) as (cl', snd (snd r)) \<and> (\<forall>d. d \<noteq> c \<longrightarrow> cl' d = cl d)
      \<and> cl' c = after_attempt (R c) (fst r) (fst (snd r)) \<and> (fst r \<noteq> None \<longrightarrow> fst (snd r) \<noteq> None)"
    if op: "Watch rdb (write_positions tx marshal (R c)) keys w = r" and cl: "cl c = Writing (R c)" and l: "fst w \<noteq> None" for w r cl
  proof -
    obtain l s where w: "w = (l, s)" by (cases w)
    obtain s1 where s1: "\<forall>u. content s1 (UserPositionKey u) = content s (UserPositionKey u)"
      "r = write_positions tx marshal (R c) (l, s1) \<or> (\<exists>e. r = (Some e, l, s1))"
      using assms(2) op unfolding watches_def w by metis
    have start: "?runs (cl, s) [Elsewhere] (cl, s1)" by (intro runs_one writer_step.elsewhere s1(1))
    show ?thesis
      using s1(2)
    proof
      assume "r = write_positions tx marshal (R c) (l, s1)"
      then have "write_positions tx marshal (R c) (l, s1) = (fst r, fst (snd r), snd (snd r))" by simp
      from write_positions_run [where content = content and R = R and cl = cl and c = c, OF this cl] runs_append [OF _ start] l
      show ?thesis unfolding w fst_conv snd_conv by metis
    next
      assume "\<exists>e. r = (Some e, l, s1)"
      then show ?thesis using start cl l
        by (intro exI [of _ "[Elsewhere]"] exI [of _ cl]) (auto simp: w after_attempt_def)
    qed
  qed
  from assms(1,3,4) show ?thesis
  proof (induction arbitrary: cl rule: attempts.induct)
    case (last w r)
    from one [of w r cl, OF last(1,2,3)] show ?case by blast
  next
    case (again w e w' r)
    from one [of w "(Some e, w')" cl, OF again(1,4,5)] obtain as cl1 where
      a: "?runs (cl, snd w) as (cl1, snd w')" "\<forall>d. d \<noteq> c \<longrightarrow> cl1 d = cl d" "cl1 c = Writing (R c)" "fst w' \<noteq> None"
      by (auto simp: after_attempt_def)
    from again.IH [of cl1, OF a(3,4)] runs_append [OF _ a(1)] a(2) show ?case by metis
  qed
qed

text \<open>
  The commands of \<open>writer_step\<close> are those of the call: when all other calls stand still, a call of
  \<open>SetUsersPosition\<close> with all its attempts is a run of \<open>writer_step\<close>, which ends in \<open>Returned\<close> when the
  call returns without an error. It ties the steps to the call and says nothing of concurrent calls.
\<close>

lemma SetUsersPosition_interleaves:
  assumes "retries rdb"
    and "watches (\<lambda>s s'. \<forall>u. content s' (UserPositionKey u) = content s (UserPositionKey u)) rdb"
    and "SetUsersPosition rdb tx marshal timeout (R c) s = Some (err, s')" "cl c = Writing (R c)"
  shows "\<exists>as cl'. runs (writer_step content tx marshal R) (cl, s) as (cl', s') \<and> (\<forall>d. d \<noteq> c \<longrightarrow> cl' d = cl d)
    \<and> (err = None \<longrightarrow> cl' c = Returned)"
proof -
  let ?w = "(Some (replicate (length (R c)) ''''), s)"
  obtain l where "TryTransaction rdb (write_positions tx marshal (R c)) (NewExponentialBackOff rdb timeout)
      (replicate (length (R c)) '''') ?w = Some (err, Some l, s')"
    using assms(3) by (auto simp: SetUsersPosition_def Let_def split: option.splits)
  then have "attempts (Watch rdb (write_positions tx marshal (R c)) (replicate (length (R c)) '''')) ?w (err, Some l, s')"
    using assms(1) by (auto simp: TryTransaction_def retries_def Let_def)
  from attempts_run [where content = content and R = R and c = c and cl = cl, OF this assms(2,4)] obtain as cl' where
    r: "runs (writer_step content tx marshal R) (cl, s) as (cl', s')" "\<forall>d. d \<noteq> c \<longrightarrow> cl' d = cl d"
      "err = None \<Longrightarrow> cl' c = Writing []" by (auto simp: after_attempt_def)
  show ?thesis
  proof (cases "err = None")
    case True
    have "runs (writer_step content tx marshal R) (cl', s') [Return c] (cl'(c := Returned), s')"
      by (intro runs_one writer_step.return r(3) True)
    from runs_append [OF this r(1)] r(2) True show ?thesis
      by (intro exI [of _ "as @ [Return c]"] exI [of _ "cl'(c := Returned)"]) auto
  next
    case False
    then show ?thesis using r(1,2) by auto
  qed
qed

lemma SetUsersPosition_interleaves_witness:
  "\<exists>as cl'. runs (writer_step mem_content demo_server demo_marshal (\<lambda>c. [(''u'', Some demo_position)]))
       (\<lambda>c :: bool. Writing [(''u'', Some demo_position)], []) as (cl', [(''positions:users:u'', [(''u'', ''u'')])])
     \<and> cl' True = Returned"
proof -
  have w: "watches (\<lambda>s s'. \<forall>u. mem_content s' (UserPositionKey u) = mem_content s (UserPositionKey u)) (bounded_client 1)"
    by (auto simp: watches_def bounded_client_def)
  from SetUsersPosition_interleaves [where R = "\<lambda>c :: bool. [(''u'', Some demo_position)]" and c = True
      and cl = "\<lambda>c. Writing [(''u'', Some demo_position)]", OF demo_laws(2) w demo_set refl]
  show ?thesis by blast
qed

end
