(* ===== verification/PositionSafety.thy ===== *)
theory PositionSafety
  imports Stablecoin
begin

text \<open>
  Positions with all their balances (\<open>src/ledger/types/position.go\<close>) do not go wrong: what the package
  makes is complete, what changes a position keeps it complete, and on a complete position neither
  the valuations of \<open>src/helpers/asset.go\<close> nor the stablecoin equivalence of \<open>src/helpers/users.go\<close>
  panics. \<open>Copy\<close> and \<open>Snapshot\<close> are the exception: they go through JSON and do not look at its errors.
\<close>

definition complete :: "PositionFields \<Rightarrow> bool" where
  "complete f \<longleftrightarrow> Owned f \<noteq> None \<and> Locked f \<noteq> None \<and> Supplied f \<noteq> None \<and> SSEQ f \<noteq> None
     \<and> Inactive f \<noteq> None \<and> InterestSources f \<noteq> None"

text \<open>Decoding what has been encoded does not lose an object; decoding an empty text changes nothing.\<close>

definition keeps_balances :: "pos_marshal \<Rightarrow> pos_unmarshal \<Rightarrow> bool" where
  "keeps_balances marshal unmarshal \<longleftrightarrow>
     (\<forall>f j. complete f \<longrightarrow> marshal f = Some j \<longrightarrow> complete (snd (unmarshal j zero_fields)))
   \<and> snd (unmarshal '''' zero_fields) = zero_fields"

text \<open>A power of ten that is not 0 in 64 bits.\<close>

definition small_decimals :: "AssetData \<Rightarrow> bool" where
  "small_decimals assets \<longleftrightarrow> (\<forall>i d. Decimals assets i = Inr d \<longrightarrow> 0 \<le> sint d \<and> sint d < 64)"

text \<open>
  The positions of a service that does not itself set a balance to nil: made by the package, decoded,
  changed to other complete fields, or left by the operations. Copies are among them only when the fields
  can be written as JSON; what the others are is said below.
\<close>

inductive held :: "pos_marshal \<Rightarrow> pos_unmarshal \<Rightarrow> AssetData \<Rightarrow> Position \<Rightarrow> bool"
  for marshal unmarshal assets where
  decoded: "held marshal unmarshal assets (snd (Position_UnmarshalBinary marshal unmarshal data p))"
| new: "held marshal unmarshal assets (fst (NewPosition marshal u owned locked supplied sseq inactive sources native t n))"
| initial: "held marshal unmarshal assets (InitialPosition marshal u)"
| snapshot: "held marshal unmarshal assets (Position_Snapshot marshal unmarshal p)"
| copy: "held marshal unmarshal assets p \<Longrightarrow> marshal (pos_fields p) \<noteq> None \<Longrightarrow>
    held marshal unmarshal assets (Position_Copy marshal unmarshal p)"
| sequence: "held marshal unmarshal assets p \<Longrightarrow> held marshal unmarshal assets (UpdateSequence marshal p)"
| printed: "held marshal unmarshal assets p \<Longrightarrow> held marshal unmarshal assets (snd (Position_String marshal p))"
| changed: "held marshal unmarshal assets p \<Longrightarrow> complete f \<Longrightarrow>
    held marshal unmarshal assets (with_fields f (original p) (originalSequence p))"
| activated: "held marshal unmarshal assets p \<Longrightarrow>
    ActivateStablecoinEquivalence marshal unmarshal assets p req = Some (q, r) \<Longrightarrow> held marshal unmarshal assets q"
| cleaned: "held marshal unmarshal assets p \<Longrightarrow>
    CleanupStablecoinEquivalence marshal unmarshal assets p = Some (q, r) \<Longrightarrow> held marshal unmarshal assets q"

section \<open>Complete positions\<close>

abbreviation whole :: "Position \<Rightarrow> bool" where
  "whole p \<equiv> complete (pos_fields p)"

lemma whole_iff: "whole p \<longleftrightarrow> Owned p \<noteq> None \<and> Locked p \<noteq> None \<and> Supplied p \<noteq> None \<and> SSEQ p \<noteq> None
    \<and> Inactive p \<noteq> None \<and> InterestSources p \<noteq> None"
  by (simp add: complete_def)

lemma complete_fill: "complete (fill f)"
  by (simp add: complete_def fill_def non_nil_def split: option.splits)

lemma whole_Init: "whole (Position_Init marshal p)"
  by (simp only: Init_fields complete_fill)

lemma whole_with_fields [simp]: "whole (with_fields f x n) = complete f"
  by simp

lemma whole_update [simp]:
  "whole p \<Longrightarrow> whole (p\<lparr>Owned := Some b\<rparr>)" "whole p \<Longrightarrow> whole (p\<lparr>SSEQ := Some b\<rparr>)"
  "whole (p\<lparr>Sequence := n\<rparr>) = whole p"
  by (simp_all add: whole_iff)

lemma whole_UpdateSequence: "whole p \<Longrightarrow> whole (UpdateSequence marshal p)"
  by (simp add: UpdateSequence_def)

lemma convert_assets_whole:
  "convert_assets assets req d goal ids p c = Some (b, q) \<Longrightarrow> whole p \<Longrightarrow> whole q"
proof (induction assets req d goal ids p c arbitrary: b q rule: convert_assets.induct)
  case (2 assets req d goal a ids p c)
  have "whole p" by fact
  show ?case
    using "2.prems"(1)
    by (simp add: Let_def split: if_splits sum.splits option.splits prod.splits; insert 2 \<open>whole p\<close>; fastforce)
qed simp

lemma Activate_whole:
  assumes "ActivateStablecoinEquivalence marshal unmarshal assets p req = Some (q, r)" "whole p"
  shows "whole q" "r = q \<or> r = Position_Copy marshal unmarshal q"
  using assms convert_assets_whole [OF _ assms(2)]
  by (auto simp: ActivateStablecoinEquivalence_def Let_def split: if_splits sum.splits option.splits bool.splits)

lemma Cleanup_whole:
  assumes "CleanupStablecoinEquivalence marshal unmarshal assets p = Some (q, r)" "whole p"
  shows "whole q" "r = q \<or> r = Position_Copy marshal unmarshal q"
proof -
  have u: "whole (p\<lparr>Owned := Some o'\<rparr>)" "whole (p\<lparr>Owned := Some o', SSEQ := Some s'\<rparr>)" for o' s'
    using assms(2) by (simp_all add: whole_iff)
  show "whole q" "r = q \<or> r = Position_Copy marshal unmarshal q"
    using assms(1) u assms(2)
    by (auto simp: CleanupStablecoinEquivalence_def Let_def split: if_splits sum.splits option.splits prod.splits)
qed

lemma Copy_whole:
  assumes "keeps_balances marshal unmarshal" "whole p" "marshal (pos_fields p) \<noteq> None"
  shows "whole (Position_Copy marshal unmarshal p)"
proof -
  obtain j where "marshal (pos_fields p) = Some j" using assms(3) by blast
  then show ?thesis
    using assms(1,2) by (auto simp: Position_Copy_def json_text_def keeps_balances_def Let_def split: prod.splits)
qed

lemma Copy_not_whole:
  assumes "keeps_balances marshal unmarshal" "marshal (pos_fields p) = None"
  shows "\<not> whole (Position_Copy marshal unmarshal p)"
proof -
  have "\<not> complete zero_fields" by (simp add: complete_def zero_fields_def)
  then show ?thesis
    using assms by (simp add: Position_Copy_def json_text_def keeps_balances_def Let_def case_prod_beta)
qed

lemma held_whole:
  assumes "held marshal unmarshal assets p" "keeps_balances marshal unmarshal"
  shows "whole p"
  using assms(1)
proof induction
  case (decoded data p)
  show ?case by (simp only: Position_UnmarshalBinary_def Let_def case_prod_beta snd_conv whole_Init)
next
  case (new u owned locked supplied sseq inactive sources native t n)
  show ?case by (simp only: NewPosition_def Let_def fst_conv whole_Init)
next
  case (initial u)
  show ?case by (simp only: InitialPosition_def whole_Init)
next
  case (snapshot p)
  show ?case by (simp only: Position_Snapshot_def Let_def case_prod_beta whole_Init)
next
  case (printed p)
  then show ?case by (simp add: Position_String_def Let_def whole_UpdateSequence)
qed (auto intro: Copy_whole [OF assms(2)] whole_UpdateSequence Activate_whole Cleanup_whole)

section \<open>Operations that do not panic\<close>

lemma exp10_nonzero:
  assumes "0 \<le> sint x" "sint x < 64"
  shows "exp10 x \<noteq> 0"
proof
  let ?n = "nat (sint x)"
  assume "exp10 x = 0"
  then have "of_int (10 ^ ?n) = (0 :: int64)" by (simp add: exp10_power)
  then have "2 ^ LENGTH(64) dvd (10 :: int) ^ ?n" unfolding word_of_int_eq_0_iff .
  moreover have "(10 :: int) ^ ?n = 2 ^ ?n * 5 ^ ?n" by (simp flip: power_mult_distrib)
  ultimately have "(2 :: int) ^ 64 dvd 2 ^ ?n * 5 ^ ?n" by simp
  moreover have "coprime ((2 :: int) ^ 64) (5 ^ ?n)"
    by (simp only: coprime_power_left_iff coprime_power_right_iff coprime_left_2_iff_odd) simp
  ultimately have "(2 :: int) ^ 64 dvd 2 ^ ?n" by (simp add: coprime_dvd_mult_left_iff)
  then have "(2 :: int) ^ 64 \<le> 2 ^ ?n" by (rule zdvd_imp_le) simp
  then have "64 \<le> ?n" by (rule power_le_imp_le_exp [rotated]) simp
  then show False using assms by simp
qed

lemma applyDecimals_total:
  "0 \<le> sint x \<Longrightarrow> sint x < 64 \<Longrightarrow> \<exists>r. applyDecimalsThenRound n x up = Some r"
  using exp10_nonzero [of x] by (simp add: applyDecimalsThenRound_def int64_div_def Let_def)

lemma sum_values_total: "b \<noteq> None \<Longrightarrow> \<exists>r. sum_values f b = Some r"
  by (auto simp: sum_values_def split: prod.splits)

lemma convert_assets_total:
  assumes "small_decimals assets"
  shows "whole p \<Longrightarrow> convert_assets assets req d goal ids p c \<noteq> None"
proof (induction ids arbitrary: p c)
  case (Cons a ids)
  obtain ob sb where b: "Owned p = Some ob" "SSEQ p = Some sb" using Cons.prems by (auto simp: whole_iff)
  have w: "whole (p\<lparr>Owned := Some o', SSEQ := Some s'\<rparr>)" "whole (p\<lparr>Owned := Some o'\<rparr>)" for o' s'
    using Cons.prems by (simp_all add: whole_iff)
  show ?case
  proof (cases "\<not> goal \<le>s c \<and> IsCurrency assets a \<and> a \<noteq> req \<and> (\<exists>cd. Decimals assets a = Inr cd)")
    case False
    then show ?thesis
      using Cons.IH [OF Cons.prems, of c] by (auto simp: Let_def split: sum.split)
  next
    case True
    then obtain cd where cd: "Decimals assets a = Inr cd" by blast
    moreover have "\<exists>r. applyDecimalsThenRound n cd up = Some r" for n up
      using cd assms applyDecimals_total by (auto simp: small_decimals_def)
    then obtain dl where "applyDecimalsThenRound (AmountOf ob a) cd False = Some dl" by blast
    ultimately show ?thesis
      using True Cons.IH [OF Cons.prems] Cons.IH [OF w(1)] Cons.IH [OF w(2)]
      by (simp add: b Let_def split: prod.split)
  qed
qed simp

lemma Activate_total:
  assumes "whole p" "small_decimals assets"
  shows "ActivateStablecoinEquivalence marshal unmarshal assets p req \<noteq> None"
proof -
  obtain ob where b: "Owned p = Some ob" using assms(1) by (auto simp: whole_iff)
  show ?thesis
  proof (cases "Decimals assets (Balance_Asset req)")
    case (Inr d)
    then obtain g where "applyDecimalsThenRound (Balance_Amt req - AmountOf ob (Balance_Asset req)) d True = Some g"
      using assms(2) applyDecimals_total unfolding small_decimals_def by blast
    moreover obtain early q where "convert_assets assets (Balance_Asset req) d g (PositiveAssets ob) p 0 = Some (early, q)"
      using convert_assets_total [OF assms(2,1)] by fastforce
    ultimately show ?thesis
      using Inr by (cases early) (simp_all add: ActivateStablecoinEquivalence_def b Let_def)
  qed (simp add: ActivateStablecoinEquivalence_def b Let_def)
qed

lemma Cleanup_total:
  assumes "whole p" "small_decimals assets"
  shows "CleanupStablecoinEquivalence marshal unmarshal assets p \<noteq> None"
proof -
  obtain ob sb where b: "Owned p = Some ob" "SSEQ p = Some sb" using assms(1) by (auto simp: whole_iff)
  let ?neg = "AssetIDs (Negative sb) ! 0" and ?pos = "AssetIDs (Positive sb) ! 0"
  show ?thesis
  proof (cases "\<exists>d e. Decimals assets ?pos = Inr d \<and> Decimals assets ?neg = Inr e")
    case False
    then show ?thesis by (auto simp: CleanupStablecoinEquivalence_def b Let_def split: sum.split)
  next
    case True
    then obtain d e where de: "Decimals assets ?pos = Inr d" "Decimals assets ?neg = Inr e" by blast
    then have "0 \<le> sint d" "sint d \<le> 63" "0 \<le> sint e" "sint e \<le> 63"
      using assms(2) unfolding small_decimals_def by fastforce+
    note gap = exponent_gaps [OF this]
    then have "sint (d - int64_min d e) < 64" "sint (e - int64_min d e) < 64" by linarith+
    note small = applyDecimals_total [OF gap(1) this(1)] applyDecimals_total [OF gap(3) this(2)]
    obtain x y z where "applyDecimalsThenRound (AmountOf ob ?pos) (d - int64_min d e) False = Some x"
      "applyDecimalsThenRound (Balance_Amt (SelectPositive (Positive sb) ?pos)) (d - int64_min d e) False = Some y"
      "applyDecimalsThenRound (Balance_Amt (SelectPositive (Negative sb) ?neg)) (e - int64_min d e) False = Some z"
      using small by metis
    then show ?thesis
      by (simp add: CleanupStablecoinEquivalence_def b de Let_def split: prod.split)
  qed
qed

text \<open>
  C11: no operation panics on a position that was made by the package, decoded from any text, or has come
  from such ones by assigning complete fields, by copies of fields that JSON can write and by the
  operations (\<open>held\<close>). Every such position has all of its balances, so the six valuations return, and with
  exponents below 64 in the registry both directions of the stablecoin equivalence do. They leave such a
  position behind, and return it or a copy of it, which is again such a position, except that the copy of
  fields that JSON cannot write has lost its balances.
\<close>

theorem held_positions_do_not_panic:
  assumes "held marshal unmarshal assets p" "keeps_balances marshal unmarshal" "small_decimals assets"
  shows "whole p
    \<and> ExactLiquidationThreshold assets p \<noteq> None \<and> ExactBorrowLimit assets p \<noteq> None
    \<and> ExactBorrowedValue assets p \<noteq> None \<and> ExactCollateralValue assets p \<noteq> None
    \<and> ExactSuppliedValue assets p \<noteq> None \<and> ExactAvailableValue assets p \<noteq> None
    \<and> (\<exists>q r. ActivateStablecoinEquivalence marshal unmarshal assets p req = Some (q, r)
        \<and> held marshal unmarshal assets q \<and> (r = q \<or> r = Position_Copy marshal unmarshal q)
        \<and> (if r = q \<or> marshal (pos_fields q) \<noteq> None then held marshal unmarshal assets r else \<not> whole r))
    \<and> (\<exists>q r. CleanupStablecoinEquivalence marshal unmarshal assets p = Some (q, r)
        \<and> held marshal unmarshal assets q \<and> (r = q \<or> r = Position_Copy marshal unmarshal q)
        \<and> (if r = q \<or> marshal (pos_fields q) \<noteq> None then held marshal unmarshal assets r else \<not> whole r))"
proof -
  have w: "whole p" by (rule held_whole [OF assms(1,2)])
  then have "Owned p \<noteq> None" "Locked p \<noteq> None" "Supplied p \<noteq> None" by (auto simp: whole_iff)
  note total = this [THEN sum_values_total]
  have available: "ExactAvailableValue assets p \<noteq> None"
    using total(1,2) [of "bond_value assets"] by (auto simp: ExactAvailableValue_def split: option.split)
  obtain q r where a: "ActivateStablecoinEquivalence marshal unmarshal assets p req = Some (q, r)"
    using Activate_total [OF w assms(3)] by fastforce
  obtain q' r' where c: "CleanupStablecoinEquivalence marshal unmarshal assets p = Some (q', r')"
    using Cleanup_total [OF w assms(3)] by fastforce
  have kept: "if r = q \<or> marshal (pos_fields q) \<noteq> None then held marshal unmarshal assets r else \<not> whole r"
    if "held marshal unmarshal assets q" "r = q \<or> r = Position_Copy marshal unmarshal q" for q r
    using that held.copy [OF that(1)] Copy_not_whole [OF assms(2), of q] by auto
  note aq = held.activated [OF assms(1) a] and cq = held.cleaned [OF assms(1) c]
  note ar = Activate_whole(2) [OF a w] and cr = Cleanup_whole(2) [OF c w]
  have valued: "ExactLiquidationThreshold assets p \<noteq> None" "ExactBorrowLimit assets p \<noteq> None"
    "ExactBorrowedValue assets p \<noteq> None" "ExactCollateralValue assets p \<noteq> None" "ExactSuppliedValue assets p \<noteq> None"
    using total by (auto simp: ExactLiquidationThreshold_def ExactBorrowLimit_def ExactBorrowedValue_def
        ExactCollateralValue_def ExactSuppliedValue_def)
  have "\<exists>q r. ActivateStablecoinEquivalence marshal unmarshal assets p req = Some (q, r)
      \<and> held marshal unmarshal assets q \<and> (r = q \<or> r = Position_Copy marshal unmarshal q)
      \<and> (if r = q \<or> marshal (pos_fields q) \<noteq> None then held marshal unmarshal assets r else \<not> whole r)"
    by (rule exI [of _ q], rule exI [of _ r], intro conjI a aq ar kept)
  moreover have "\<exists>q r. CleanupStablecoinEquivalence marshal unmarshal assets p = Some (q, r)
      \<and> held marshal unmarshal assets q \<and> (r = q \<or> r = Position_Copy marshal unmarshal q)
      \<and> (if r = q \<or> marshal (pos_fields q) \<noteq> None then held marshal unmarshal assets r else \<not> whole r)"
    by (rule exI [of _ q'], rule exI [of _ r'], intro conjI c cq cr kept)
  ultimately show ?thesis using w valued available by (intro conjI)
qed

abbreviation text_marshal :: pos_marshal where
  "text_marshal \<equiv> \<lambda>f. Some (CHR ''u'' # UserID f)"

abbreviation text_unmarshal :: pos_unmarshal where
  "text_unmarshal \<equiv> \<lambda>j f. case j of [] \<Rightarrow> (Some (ErrorString ''unexpected end of JSON input''), f)
     | _ # u \<Rightarrow> (None, fill (f\<lparr>UserID := u\<rparr>))"

definition euro_holder :: Position where
  "euro_holder = (let p = InitialPosition text_marshal ''u''
     in with_fields ((pos_fields p)\<lparr>Owned := Some (mkBals [(''EUR'', 5)])\<rparr>) (original p) (originalSequence p))"

theorem held_positions_do_not_panic_witness:
  "\<exists>q r. ActivateStablecoinEquivalence text_marshal text_unmarshal two_stable euro_holder
       \<lparr>Balance_Asset = ''USD'', Balance_Amount = 3\<rparr> = Some (q, r)
     \<and> held text_marshal text_unmarshal two_stable q \<and> held text_marshal text_unmarshal two_stable r"
proof -
  have k: "keeps_balances text_marshal text_unmarshal" by (auto simp: keeps_balances_def complete_fill)
  have s: "small_decimals two_stable" using two_stable_decimals by (force simp: small_decimals_def)
  let ?p = "InitialPosition text_marshal ''u''"
  have i: "held text_marshal text_unmarshal two_stable ?p" by (rule held.initial)
  have "complete ((pos_fields ?p)\<lparr>Owned := Some (mkBals [(''EUR'', 5)])\<rparr>)"
    using held_whole [OF i k] by (simp add: complete_def)
  from held.changed [OF i this] have "held text_marshal text_unmarshal two_stable euro_holder"
    by (simp only: euro_holder_def Let_def)
  from held_positions_do_not_panic [OF this k s, of "\<lparr>Balance_Asset = ''USD'', Balance_Amount = 3\<rparr>"]
  show ?thesis by auto
qed

text \<open>
  Without the side condition on copies this is false: a position whose fields cannot be written (an
  invalid asset ID is enough, see \<open>MarshalJSON\<close> of the balances) is copied to one without balances,
  on which the valuations panic, and its snapshot has none of its balances and reports no error.
\<close>

lemma Copy_loses_balances:
  assumes "marshal (pos_fields p) = None" "unmarshal '''' zero_fields = (Some e, zero_fields)"
  shows "ExactBorrowedValue assets (Position_Copy marshal unmarshal p) = None"
    "pos_fields (Position_Snapshot marshal unmarshal p) = fill zero_fields"
proof -
  have "Owned (Position_Copy marshal unmarshal p) = None"
    using assms by (simp add: Position_Copy_def json_text_def Let_def with_fields_def zero_fields_def
        PositionFields.defs Position.defs)
  then show "ExactBorrowedValue assets (Position_Copy marshal unmarshal p) = None"
    by (simp add: ExactBorrowedValue_def sum_values_def)
  show "pos_fields (Position_Snapshot marshal unmarshal p) = fill zero_fields"
    using assms by (simp add: Position_Snapshot_def json_text_def Let_def)
qed

end
