(* ===== verification/MigrationParser.thy ===== *)
theory MigrationParser
  imports GoErrors
begin

text \<open>
  \<open>src/migration/parser.go\<close>: the statements of a migration file. The loop over the lines is a state
  machine with the builder of the current statement and the flag of a multi-line comment; the lines
  are those of \<open>bufio.Scanner\<close>, which stops without notice at a line of 65536 characters or more.

  The file system is the parameter \<open>open_file\<close>: the content of a file and the error of closing it,
  and \<open>stat\<close>: its base name. An outer \<open>None\<close> is a panic.
\<close>

section \<open>Lines\<close>

definition strip_cr :: "string \<Rightarrow> string" where
  "strip_cr l = (if l \<noteq> [] \<and> last l = CHR 0x0D then butlast l else l)"

definition MaxScanTokenSize :: nat where "MaxScanTokenSize = 65536"

definition scan_lines :: "string \<Rightarrow> string list" where
  "scan_lines s =
     (let ls = Split (CHR 0x0A) s;
          ls = (if last ls = '''' then butlast ls else ls)
      in map strip_cr (takeWhile (\<lambda>l. length l < MaxScanTokenSize) ls))"

section \<open>The state machine\<close>

record parse_state =
  statements :: "string list"
  statementBuilder :: string
  multiLineComment :: bool
  isComment :: bool

definition parse_init :: parse_state where
  "parse_init = \<lparr>statements = [], statementBuilder = '''', multiLineComment = False, isComment = False\<rparr>"

definition addAndReset :: "parse_state \<Rightarrow> parse_state" where
  "addAndReset st = st\<lparr>statements := statements st @ [statementBuilder st], statementBuilder := '''',
     multiLineComment := False, isComment := False\<rparr>"

definition isStatementStart :: "string \<Rightarrow> bool" where
  "isStatementStart line = (let line = ToLower line in HasPrefix line ''--'' \<and> Contains line ''+start'')"

definition isStatementEnd :: "string \<Rightarrow> bool" where
  "isStatementEnd line = (HasPrefix line ''--'' \<and> Contains line ''+end'')"

definition checkComment :: "string \<Rightarrow> bool \<Rightarrow> bool \<times> bool" where
  "checkComment line multiline =
     (if (multiline \<and> \<not> Contains line ''/*'' \<and> \<not> Contains line ''*/'')
        \<or> (\<not> multiline \<and> Contains line ''/*'' \<and> \<not> Contains line ''*/'') then (True, True)
      else if multiline \<and> Contains line ''*/'' then (True, False)
      else if HasPrefix line ''--'' \<or> HasPrefix line ''/*'' then (True, False)
      else (False, False))"

definition parse_line :: "string \<Rightarrow> parse_state \<Rightarrow> parse_state" where
  "parse_line line st =
     (if length (TrimSpace line) = 0 then st
      else if isStatementStart line then (if length (statementBuilder st) > 0 then addAndReset st else st)
      else if isStatementEnd line then addAndReset st
      else let (c, m) = checkComment line (multiLineComment st);
               st = st\<lparr>isComment := c, multiLineComment := m\<rparr>
           in if isComment st then st
              else st\<lparr>statementBuilder := statementBuilder st @ line\<rparr>)"

definition parse_lines_from :: "string list \<Rightarrow> parse_state \<Rightarrow> parse_state" where
  "parse_lines_from ls st = fold parse_line ls st"

definition finish :: "parse_state \<Rightarrow> string list" where
  "finish st = statements (if length (statementBuilder st) > 0 then addAndReset st else st)"

definition parse_statements :: "string list \<Rightarrow> string list" where
  "parse_statements ls = finish (parse_lines_from ls parse_init)"

type_synonym open_file = "string \<Rightarrow> error + string \<times> error option"

definition parseMigrationFilename :: "open_file \<Rightarrow> string \<Rightarrow> (error + string list) option" where
  "parseMigrationFilename open_file migrationFile =
     (case open_file migrationFile of Inl err \<Rightarrow> Some (Inl err)
      | Inr (text, close) \<Rightarrow>
        let statements = parse_statements (scan_lines text)
        in (case close of Some _ \<Rightarrow> None | None \<Rightarrow> Some (Inr statements)))"

record Parser =
  files :: open_file
  stat :: "string \<Rightarrow> error + string"
  filename :: string

definition NewParser :: "open_file \<Rightarrow> (string \<Rightarrow> error + string) \<Rightarrow> string \<Rightarrow> Parser" where
  "NewParser fs fs_stat name = \<lparr>files = fs, stat = fs_stat, filename = name\<rparr>"

definition ParseMigrationFile :: "Parser \<Rightarrow> (error + string list) option" where
  "ParseMigrationFile p = parseMigrationFilename (files p) (filename p)"

section \<open>Versions\<close>

text \<open>\<open>strings.SplitN(s, ".", 2)\<close>\<close>

definition SplitN2 :: "char \<Rightarrow> string \<Rightarrow> string list" where
  "SplitN2 c s = (let p = takeWhile (\<lambda>x. x \<noteq> c) s in if p = s then [s] else [p, drop (Suc (length p)) s])"

text \<open>A name without a dot has no second part, and looking at it panics.\<close>

definition ParseVersion :: "Parser \<Rightarrow> (error + int64) option" where
  "ParseVersion p =
     (case stat p (filename p) of Inl err \<Rightarrow> Some (Inl err)
      | Inr name \<Rightarrow>
        let vs = SplitN2 (CHR ''.'') name
        in if length vs \<noteq> 2 then None
           else Some (case ParseInt (vs ! 0) of Inl e \<Rightarrow> Inl (NumError ''ParseInt'' (vs ! 0) e) | Inr n \<Rightarrow> Inr n))"

definition IsDDL :: "string \<Rightarrow> bool" where
  "IsDDL stmt =
     (let sql = ToLower (TrimSpace stmt)
      in if HasPrefix sql ''create'' then True
         else if HasPrefix sql ''alter'' then True
         else if HasPrefix sql ''drop'' then True
         else if HasPrefix sql ''grant'' then True
         else if HasPrefix sql ''revoke'' then True
         else False)"

section \<open>Files of marked statements\<close>

text \<open>Markers as the format defines them: line comments that name a marker, in any case.\<close>

definition blank :: "string \<Rightarrow> bool" where
  "blank l = (TrimSpace l = '''')"

definition start_marker :: "string \<Rightarrow> bool" where
  "start_marker l = (HasPrefix l ''--'' \<and> Contains (ToLower l) ''+start'')"

definition end_marker :: "string \<Rightarrow> bool" where
  "end_marker l = (HasPrefix l ''--'' \<and> Contains (ToLower l) ''+end'' \<and> \<not> start_marker l)"

definition marker :: "string \<Rightarrow> bool" where
  "marker l = (start_marker l \<or> end_marker l)"

lemma ascii_lower_dash: "ascii_lower c = CHR ''-'' \<longleftrightarrow> c = CHR ''-''"
proof
  assume l: "ascii_lower c = CHR ''-''"
  show "c = CHR ''-''"
  proof (cases "65 \<le> (of_char c :: nat) \<and> (of_char c :: nat) \<le> 90")
    case True
    then have "of_char (ascii_lower c) = (of_char c + 32 :: nat)"
      by (simp add: ascii_lower_def)
    then show ?thesis using True by (simp add: l)
  next
    case False
    show ?thesis using l unfolding ascii_lower_def if_not_P [OF False] .
  qed
qed (simp add: ascii_lower_def)

lemma HasPrefix_dashes: "HasPrefix (ToLower l) ''--'' = HasPrefix l ''--''"
  by (cases l; cases "tl l")
    (simp_all add: HasPrefix_def ToLower_def ascii_lower_dash eq_commute [of "CHR ''-''"])

lemma isStatementStart_iff: "isStatementStart l = start_marker l"
  by (simp add: isStatementStart_def start_marker_def HasPrefix_dashes Let_def)

text \<open>The code takes an end marker for one only if it is in lower case.\<close>

lemma isStatementEnd_marker: "isStatementEnd l \<Longrightarrow> marker l"
proof -
  assume "isStatementEnd l"
  then have p: "HasPrefix l ''--''" "sublist ''+end'' l" by (simp_all add: isStatementEnd_def Contains_iff)
  from p(2) obtain x y where "l = x @ ''+end'' @ y" by (auto simp: sublist_def)
  then have "ToLower l = ToLower x @ ''+end'' @ ToLower y"
    by (simp add: ToLower_def ascii_lower_def)
  then have "Contains (ToLower l) ''+end''" unfolding Contains_iff sublist_def by blast
  with p(1) show ?thesis by (simp add: marker_def end_marker_def)
qed

lemma no_marker: "\<not> marker l \<Longrightarrow> \<not> isStatementStart l \<and> \<not> isStatementEnd l"
  using isStatementEnd_marker by (auto simp: isStatementStart_iff marker_def)

text \<open>The lines between two markers, and the text of the statement that they make up.\<close>

inductive body :: "string list \<Rightarrow> string \<Rightarrow> bool" where
  none: "body [] ''''"
| code: "\<not> blank l \<Longrightarrow> \<not> marker l \<Longrightarrow> checkComment l False = (False, False) \<Longrightarrow> body ls t \<Longrightarrow> body (l # ls) (l @ t)"
| blank: "blank l \<Longrightarrow> body ls t \<Longrightarrow> body (l # ls) t"
| comment: "\<not> blank l \<Longrightarrow> \<not> marker l \<Longrightarrow> checkComment l False = (True, False) \<Longrightarrow> body ls t \<Longrightarrow> body (l # ls) t"
| block_comment: "\<not> blank l \<Longrightarrow> \<not> marker l \<Longrightarrow> checkComment l False = (True, True)
    \<Longrightarrow> (\<And>m. m \<in> set ms \<Longrightarrow> blank m \<or> \<not> marker m \<and> checkComment m True = (True, True))
    \<Longrightarrow> \<not> blank c \<Longrightarrow> \<not> marker c \<Longrightarrow> checkComment c True = (True, False)
    \<Longrightarrow> body ls t \<Longrightarrow> body (l # ms @ c # ls) t"

lemma parse_line_text:
  assumes "\<not> blank l" "\<not> marker l" "checkComment l (multiLineComment st) = (c, m)"
  shows "parse_line l st = (let st = st\<lparr>isComment := c, multiLineComment := m\<rparr>
    in if c then st else st\<lparr>statementBuilder := statementBuilder st @ l\<rparr>)"
  using assms no_marker [of l] by (simp add: parse_line_def blank_def)

lemma parse_line_blank:
  fixes st :: parse_state
  shows "blank l \<Longrightarrow> parse_line l st = st"
  by (simp add: parse_line_def blank_def)

text \<open>The part of the state that matters between two lines.\<close>

definition view :: "parse_state \<Rightarrow> string list \<times> string \<times> bool" where
  "view st = (statements st, statementBuilder st, multiLineComment st)"

lemma parse_inside:
  fixes st :: parse_state
  assumes "\<And>m. m \<in> set ms \<Longrightarrow> blank m \<or> \<not> marker m \<and> checkComment m True = (True, True)" "multiLineComment st"
  shows "view (fold parse_line ms st) = view st"
  using assms
proof (induction ms arbitrary: st)
  case (Cons m ms)
  have "blank m \<or> \<not> marker m \<and> checkComment m True = (True, True)" using Cons.prems(1) by simp
  then have "view (parse_line m st) = view st"
    using Cons.prems(2) by (cases "blank m") (simp_all add: parse_line_blank parse_line_text view_def)
  then show ?case using Cons by (simp add: view_def)
qed simp

lemma parse_body:
  fixes st :: parse_state
  shows "body ls t \<Longrightarrow> \<not> multiLineComment st \<Longrightarrow>
   view (fold parse_line ls st) = (statements st, statementBuilder st @ t, False)"
proof (induction arbitrary: st rule: body.induct)
  case (block_comment l ms c ls t)
  let ?st = "fold parse_line ms (parse_line l st)"
  have l: "view (parse_line l st) = (statements st, statementBuilder st, True)"
    using block_comment.hyps(1-3) block_comment.prems by (simp add: parse_line_text view_def)
  moreover have "view ?st = view (parse_line l st)"
    by (rule parse_inside) (use block_comment.hyps(4) l in \<open>simp_all add: view_def\<close>)
  ultimately have "view ?st = (statements st, statementBuilder st, True)" by simp
  then have "view (parse_line c ?st) = (statements st, statementBuilder st, False)"
    using block_comment.hyps(5-7) by (simp add: parse_line_text view_def)
  then show ?case using block_comment.IH [of "parse_line c ?st"] by (simp add: view_def)
qed (auto simp: parse_line_text parse_line_blank view_def)

definition pending :: "string \<Rightarrow> string list" where
  "pending t = (if t = '''' then [] else [t])"

text \<open>
  What an end marker makes of the statement before it and the text after it, which comes before the next
  start marker: normally there is none. A marker in lower case ends the statement, and the text is one of
  its own; any other is passed over as a comment, so that the text joins the statement.
\<close>

definition closed_by :: "string \<Rightarrow> string \<Rightarrow> string \<Rightarrow> string list" where
  "closed_by e t u = (if isStatementEnd e then t # pending u else pending (t @ u))"

lemma closed_by_gap: "t \<noteq> '''' \<Longrightarrow> closed_by e t '''' = [t]"
  by (simp add: closed_by_def pending_def)

text \<open>
  A file and its statements: pairs of markers around a body, with blank lines, comments or stray text up
  to the next pair; or a start marker whose body runs to the next start marker or to the end of the file.
\<close>

inductive blocks :: "string list \<Rightarrow> string list \<Rightarrow> bool" where
  no_block: "blocks [] []"
| closed: "\<not> blank s \<Longrightarrow> start_marker s \<Longrightarrow> body ls t \<Longrightarrow> \<not> blank e \<Longrightarrow> end_marker e
    \<Longrightarrow> checkComment e False = (True, False) \<Longrightarrow> body gs u \<Longrightarrow> blocks fs ts
    \<Longrightarrow> blocks (s # ls @ e # gs @ fs) (closed_by e t u @ ts)"
| implicit_end: "\<not> blank s \<Longrightarrow> start_marker s \<Longrightarrow> body ls t \<Longrightarrow> blocks fs ts
    \<Longrightarrow> blocks (s # ls @ fs) (pending t @ ts)"

lemma parse_start:
  "\<not> blank s \<Longrightarrow> start_marker s \<Longrightarrow> \<not> multiLineComment st \<Longrightarrow>
   view (parse_line s st) = (statements st @ pending (statementBuilder st), '''', False)"
  by (simp add: parse_line_def blank_def view_def addAndReset_def pending_def isStatementStart_iff)

lemma parse_end:
  assumes "\<not> blank e" "end_marker e" "checkComment e False = (True, False)" "\<not> multiLineComment st"
  shows "view (parse_line e st) = (if isStatementEnd e then (statements st @ [statementBuilder st], '''', False)
    else (statements st, statementBuilder st, False))"
proof -
  have "\<not> isStatementStart e" using assms(2) by (simp add: isStatementStart_iff end_marker_def)
  then show ?thesis using assms by (simp add: parse_line_def blank_def view_def addAndReset_def)
qed

lemma parse_blocks:
  "blocks fs ts \<Longrightarrow> \<not> multiLineComment st \<Longrightarrow>
   finish (fold parse_line fs st) = statements st @ pending (statementBuilder st) @ ts"
proof (induction arbitrary: st rule: blocks.induct)
  case no_block
  then show ?case by (simp add: finish_def addAndReset_def pending_def)
next
  case (closed s ls t e gs u fs ts)
  let ?st = "fold parse_line ls (parse_line s st)" and ?S = "statements st @ pending (statementBuilder st)"
  let ?close = "fold parse_line gs (parse_line e ?st)"
  have s: "view (parse_line s st) = (?S, '''', False)"
    using parse_start closed.hyps closed.prems by blast
  then have "view ?st = (?S, t, False)"
    using parse_body [OF closed.hyps(3), of "parse_line s st"] by (simp add: view_def)
  then have e: "view (parse_line e ?st) = (if isStatementEnd e then (?S @ [t], '''', False) else (?S, t, False))"
    using parse_end [OF closed.hyps(4-6), of ?st] by (simp add: view_def)
  then have "view ?close = (if isStatementEnd e then (?S @ [t], u, False) else (?S, t @ u, False))"
    using parse_body [OF closed.hyps(7), of "parse_line e ?st"] by (simp add: view_def split: if_splits)
  then show ?case using closed.IH [of ?close] by (simp add: view_def closed_by_def split: if_splits)
next
  case (implicit_end s ls t fs ts)
  let ?st = "fold parse_line ls (parse_line s st)"
  have s: "view (parse_line s st) = (statements st @ pending (statementBuilder st), '''', False)"
    using parse_start implicit_end.hyps implicit_end.prems by blast
  then have "view ?st = (statements st @ pending (statementBuilder st), t, False)"
    using parse_body [OF implicit_end.hyps(3), of "parse_line s st"] by (simp add: view_def)
  then show ?case using implicit_end.IH [of ?st] by (simp add: view_def)
qed

section \<open>From the text of the file\<close>

definition line_ok :: "string \<Rightarrow> bool" where
  "line_ok l = (CHR 0x0A \<notin> set l \<and> (l = '''' \<or> last l \<noteq> CHR 0x0D) \<and> length l < MaxScanTokenSize)"

definition unlines :: "string list \<Rightarrow> string" where
  "unlines ls = concat (map (\<lambda>l. l @ [CHR 0x0A]) ls)"

lemma Split_unlines:
  "\<forall>l \<in> set ls. CHR 0x0A \<notin> set l \<Longrightarrow> Split (CHR 0x0A) (unlines ls) = ls @ ['''']"
  by (induction ls) (simp_all add: unlines_def Split_append_sep)

lemma scan_unlines:
  assumes "\<forall>l \<in> set ls. line_ok l"
  shows "scan_lines (unlines ls) = ls"
proof -
  have "takeWhile (\<lambda>l. length l < MaxScanTokenSize) ls = ls"
    using assms by (simp add: line_ok_def)
  note short = this
  have "map strip_cr ls = ls"
    using assms by (intro map_idI) (auto simp: line_ok_def strip_cr_def)
  with short show ?thesis using assms by (simp add: scan_lines_def Split_unlines line_ok_def Let_def del: takeWhile_eq_all_conv)
qed

text \<open>
  C31: a migration file is read as its format says: one statement for each start marker, made of the
  lines up to the end marker, or else to the next start marker or the end of the file, without blank
  lines, line comments and comment blocks; both markers in any case, and blank lines and comments between
  an end marker and the next start marker make no difference. Text there, and before the first marker, is
  a statement of its own; only after an end marker that is not in lower case it joins the statement
  before (\<open>closed_by\<close>).
\<close>

theorem ParseMigrationFile_statements:
  assumes "body pre t" "blocks fs texts" "\<forall>l \<in> set (pre @ fs). line_ok l"
    and "open_file name = Inr (unlines (pre @ fs), None)"
  shows "ParseMigrationFile (NewParser open_file fs_stat name) = Some (Inr (pending t @ texts))"
proof -
  have "view (fold parse_line pre parse_init) = ([], t, False)"
    using parse_body [OF assms(1), of parse_init] by (simp add: parse_init_def)
  then have "finish (fold parse_line fs (fold parse_line pre parse_init)) = pending t @ texts"
    using parse_blocks [OF assms(2), of "fold parse_line pre parse_init"] by (simp add: view_def)
  then show ?thesis
    using assms(4) scan_unlines [OF assms(3)]
    by (simp add: ParseMigrationFile_def NewParser_def parseMigrationFilename_def parse_statements_def parse_lines_from_def)
qed

definition demo_file :: "string list" where
  "demo_file = [''-- +START'', ''-- a comment'', ''/* more'', '''', ''*/'', ''SELECT 1'', ''FROM t'', ''-- +END'', '''',
     ''-- +start'', ''SELECT 2'', ''-- +end'', '''', ''-- a comment'', ''-- +Start'', ''SELECT 3'']"

lemma demo_blocks: "blocks demo_file [''SELECT 1FROM t'', ''SELECT 2'', ''SELECT 3'']"
proof -
  have sql: "\<not> blank ''SELECT 1'' \<and> \<not> marker ''SELECT 1'' \<and> checkComment ''SELECT 1'' False = (False, False)"
    "\<not> blank ''FROM t'' \<and> \<not> marker ''FROM t'' \<and> checkComment ''FROM t'' False = (False, False)"
    "\<not> blank ''SELECT 2'' \<and> \<not> marker ''SELECT 2'' \<and> checkComment ''SELECT 2'' False = (False, False)"
    "\<not> blank ''SELECT 3'' \<and> \<not> marker ''SELECT 3'' \<and> checkComment ''SELECT 3'' False = (False, False)"
    by code_simp+
  have comments: "\<not> blank ''-- a comment'' \<and> \<not> marker ''-- a comment'' \<and> checkComment ''-- a comment'' False = (True, False)"
    "\<not> blank ''/* more'' \<and> \<not> marker ''/* more'' \<and> checkComment ''/* more'' False = (True, True)"
    "\<not> blank ''*/'' \<and> \<not> marker ''*/'' \<and> checkComment ''*/'' True = (True, False)" "blank ''''"
    by code_simp+
  have starts: "\<not> blank ''-- +START'' \<and> start_marker ''-- +START''" "\<not> blank ''-- +start'' \<and> start_marker ''-- +start''"
    "\<not> blank ''-- +Start'' \<and> start_marker ''-- +Start''"
    by code_simp+
  have ends: "\<not> blank ''-- +END'' \<and> end_marker ''-- +END'' \<and> checkComment ''-- +END'' False = (True, False)"
    "\<not> blank ''-- +end'' \<and> end_marker ''-- +end'' \<and> checkComment ''-- +end'' False = (True, False)"
    by code_simp+
  have code: "body [''SELECT 1'', ''FROM t''] (''SELECT 1'' @ ''FROM t'' @ '''')"
    by (intro body.intros) (simp_all add: sql)
  have "body (''/* more'' # [''''] @ ''*/'' # [''SELECT 1'', ''FROM t'']) (''SELECT 1'' @ ''FROM t'' @ '''')"
    by (rule body.block_comment [OF _ _ _ _ _ _ _ code]) (simp_all add: comments)
  then have first: "body (''-- a comment'' # ''/* more'' # [''''] @ ''*/'' # [''SELECT 1'', ''FROM t'']) (''SELECT 1'' @ ''FROM t'' @ '''')"
    by (rule body.comment [rotated 3]) (simp_all add: comments)
  have second: "body [''SELECT 2''] (''SELECT 2'' @ '''')" and third: "body [''SELECT 3''] (''SELECT 3'' @ '''')"
    by (intro body.intros; simp add: sql)+
  have gap: "body [''''] ''''" "body ['''', ''-- a comment''] ''''"
    using comments by (auto intro: body.intros)
  have 3: "blocks (''-- +Start'' # [''SELECT 3''] @ []) (pending (''SELECT 3'' @ '''') @ [])"
    by (rule blocks.implicit_end [OF _ _ third blocks.no_block]) (simp_all add: starts)
  have 2: "blocks (''-- +start'' # [''SELECT 2''] @ ''-- +end'' # ['''', ''-- a comment''] @ ''-- +Start'' # [''SELECT 3''] @ [])
      (closed_by ''-- +end'' (''SELECT 2'' @ '''') '''' @ pending (''SELECT 3'' @ '''') @ [])"
    by (rule blocks.closed [OF _ _ second _ _ _ gap(2) 3]) (simp_all add: starts ends)
  show ?thesis
    using blocks.closed [OF _ _ first _ _ _ gap(1) 2, of "''-- +START''" "''-- +END''"]
    by (simp add: demo_file_def starts ends closed_by_gap pending_def)
qed

theorem ParseMigrationFile_statements_witness:
  "ParseMigrationFile (NewParser (\<lambda>_. Inr (unlines demo_file, None)) Inr ''1.sql'')
   = Some (Inr [''SELECT 1FROM t'', ''SELECT 2'', ''SELECT 3''])"
  using ParseMigrationFile_statements [OF body.none demo_blocks, of "\<lambda>_. Inr (unlines demo_file, None)" "''1.sql''"]
  by (simp add: line_ok_def MaxScanTokenSize_def demo_file_def pending_def)

text \<open>
  The code recognises an end marker only in lower case; it is the next start marker, or the end of the
  file, that ends the statement otherwise, and what follows such a marker joins the statement.
\<close>

lemma end_marker_case:
  "parse_statements [''-- +start'', ''a'', ''-- +END'', ''b'', ''-- +end''] = [''ab'']"
  by code_simp

end
