(* ===== verification/Migration.thy ===== *)
theory Migration
  imports MigrationParser "HOL-Library.Sublist"
begin

text \<open>
  \<open>src/migration/migration.go\<close> and \<open>src/spanner/config.go\<close>: applying the migration files in the order
  of \<open>fs.WalkDir\<close>. The database client is the record \<open>Spanner\<close> of operations on an arbitrary type of
  server states: a read, a DDL request (its error, or the error of waiting for it and whether it is
  done), a query with its rows and the error that ended it, and a transaction that runs one statement
  with parameters. \<open>entries\<close> are the calls that \<open>WalkDir\<close> makes: a path, whether it is a directory,
  and an error.
\<close>

section \<open>Configuration\<close>

record SpannerConfig =
  ProjectID :: string
  InstanceID :: string
  DatabaseID :: string
  CredentialsFile :: string
  MigrationTimeout :: int64

definition URL :: "SpannerConfig \<Rightarrow> string" where
  "URL c = ''projects/'' @ ProjectID c @ ''/instances/'' @ InstanceID c @ ''/databases/'' @ DatabaseID c"

record 's Spanner =
  SpannerRead :: "string \<Rightarrow> string list \<Rightarrow> 's \<Rightarrow> error option \<times> 's"
  UpdateDatabaseDdl :: "string \<Rightarrow> string list \<Rightarrow> 's \<Rightarrow> (error + error option \<times> bool) \<times> 's"
  SpannerQuery :: "string \<Rightarrow> 's \<Rightarrow> ((error + int64) list \<times> error option) \<times> 's"
  Update :: "string \<Rightarrow> (string \<times> int64) list \<Rightarrow> 's \<Rightarrow> error option \<times> 's"

definition SchemaVersionTable :: string where "SchemaVersionTable = ''schema_migrations''"

section \<open>The table of versions\<close>

definition newline :: string where "newline = [CHR 0x0A]"
definition tabs :: "nat \<Rightarrow> string" where "tabs n = replicate n (CHR 0x09)"

definition create_table :: "string \<Rightarrow> string" where
  "create_table tableName = ''CREATE TABLE IF NOT EXISTS '' @ tableName @ '' ('' @ newline
     @ tabs 4 @ ''version BIGINT NOT NULL PRIMARY KEY,'' @ newline
     @ tabs 4 @ ''created_at TIMESTAMPTZ NOT NULL DEFAULT now()'' @ newline @ tabs 3 @ '');''"

definition EnsureMigrationTable :: "SpannerConfig \<Rightarrow> 's Spanner \<Rightarrow> string \<Rightarrow> 's \<Rightarrow> error option \<times> 's" where
  "EnsureMigrationTable config client tableName s =
     (case SpannerRead client tableName [''version''] s of
        (None, s) \<Rightarrow> (None, s)
      | (Some _, s) \<Rightarrow>
        (case UpdateDatabaseDdl client (URL config) [create_table tableName] s of
           (Inl err, s) \<Rightarrow> (Some err, s)
         | (Inr (err, op_done), s) \<Rightarrow>
             if err \<noteq> None \<and> \<not> op_done then (err, s)
             else if err \<noteq> None \<and> op_done then (err, s)
             else (None, s)))"

definition latest_version :: "string \<Rightarrow> string" where
  "latest_version tableName = ''SELECT version FROM '' @ tableName @ '' ORDER BY version DESC LIMIT 1''"

text \<open>\<open>iter.Do\<close> reads the column of every row into the same variable.\<close>

fun read_version :: "(error + int64) list \<Rightarrow> error option \<Rightarrow> int64 \<Rightarrow> error + int64" where
  "read_version [] e version = (case e of Some err \<Rightarrow> Inl err | None \<Rightarrow> Inr version)"
| "read_version (r # rows) e version =
     (case r of Inl err \<Rightarrow> Inl err | Inr v \<Rightarrow> read_version rows e v)"

definition GetCurrentVersion :: "'s Spanner \<Rightarrow> string \<Rightarrow> 's \<Rightarrow> (error + int64) \<times> 's" where
  "GetCurrentVersion client tableName s =
     (case SpannerQuery client (latest_version tableName) s of ((rows, e), s) \<Rightarrow> (read_version rows e 0, s))"

definition insert_version :: "string \<Rightarrow> string" where
  "insert_version tableName = ''INSERT INTO '' @ tableName @ '' (version) VALUES'' @ newline
     @ replicate 32 (CHR '' '') @ ''($1)''"

definition SetCurrentVersion :: "'s Spanner \<Rightarrow> string \<Rightarrow> int64 \<Rightarrow> 's \<Rightarrow> error option \<times> 's" where
  "SetCurrentVersion client tableName version s =
     Update client (insert_version tableName) [(''p1'', version)] s"

section \<open>Applying migrations\<close>

definition migration_failed :: "int64 \<Rightarrow> nat \<Rightarrow> string \<Rightarrow> string \<Rightarrow> error \<Rightarrow> error" where
  "migration_failed version n before after err =
     WrapError (before @ FormatInt version @ after @ show_nat n) err"

fun apply_statements ::
  "SpannerConfig \<Rightarrow> 's Spanner \<Rightarrow> int64 \<Rightarrow> nat \<Rightarrow> string list \<Rightarrow> 's \<Rightarrow> error option \<times> 's" where
  "apply_statements cfg client version i [] s = (None, s)"
| "apply_statements cfg client version i (stmt # stmts) s =
     (if IsDDL stmt then
        (case UpdateDatabaseDdl client (URL cfg) [stmt] s of
           (Inl err, s) \<Rightarrow> (Some err, s)
         | (Inr (Some err, op_done), s) \<Rightarrow>
             if \<not> op_done then (Some (migration_failed version (i + 1) ''failed to apply migration '' '', statement: '' err), s)
             else (Some (WrapError (''migration '' @ FormatInt version @ '', statement '' @ show_nat (i + 1)
               @ '' applied but with errors'') err), s)
         | (Inr (None, op_done), s) \<Rightarrow> apply_statements cfg client version (i + 1) stmts s)
      else
        (case Update client stmt [] s of
           (Some err, s) \<Rightarrow> (Some (WrapError (''failed to execute data update for migration '' @ FormatInt version
               @ '', statement '' @ show_nat (i + 1) @ '', error'') err), s)
         | (None, s) \<Rightarrow> apply_statements cfg client version (i + 1) stmts s))"

type_synonym entry = "string \<times> bool \<times> error option"

text \<open>The function that is called for every entry; \<open>None\<close> is a panic of the parser.\<close>

definition migrate_entry ::
  "SpannerConfig \<Rightarrow> 's Spanner \<Rightarrow> open_file \<Rightarrow> (string \<Rightarrow> error + string) \<Rightarrow> int64 \<Rightarrow> entry \<Rightarrow> 's
     \<Rightarrow> (error option \<times> 's) option" where
  "migrate_entry cfg client fs fs_stat currentVersion = (\<lambda>(path, is_dir, err) s.
     if err \<noteq> None then Some (err, s)
     else if is_dir then Some (None, s)
     else let parser = NewParser fs fs_stat path
     in case ParseVersion parser of
       None \<Rightarrow> None
     | Some (Inl err) \<Rightarrow> Some (Some err, s)
     | Some (Inr version) \<Rightarrow>
       if version \<le>s currentVersion then Some (None, s)
       else case ParseMigrationFile parser of
         None \<Rightarrow> None
       | Some (Inl err) \<Rightarrow> Some (Some err, s)
       | Some (Inr stmts) \<Rightarrow>
         (case apply_statements cfg client version 0 stmts s of
            (Some err, s) \<Rightarrow> Some (Some err, s)
          | (None, s) \<Rightarrow>
            (case SetCurrentVersion client SchemaVersionTable version s of
               (Some err, s) \<Rightarrow> Some (Some (WrapError (''failed to set current migration version '' @ FormatInt version) err), s)
             | (None, s) \<Rightarrow> Some (None, s))))"

fun walk :: "(entry \<Rightarrow> 's \<Rightarrow> (error option \<times> 's) option) \<Rightarrow> entry list \<Rightarrow> 's \<Rightarrow> (error option \<times> 's) option" where
  "walk f [] s = Some (None, s)"
| "walk f (e # es) s =
     (case f e s of None \<Rightarrow> None
      | Some (Some err, s) \<Rightarrow> Some (Some err, s)
      | Some (None, s) \<Rightarrow> walk f es s)"

definition Migrate ::
  "SpannerConfig \<Rightarrow> 's Spanner \<Rightarrow> open_file \<Rightarrow> (string \<Rightarrow> error + string) \<Rightarrow> entry list \<Rightarrow> 's
     \<Rightarrow> (error option \<times> 's) option" where
  "Migrate cfg client fs fs_stat entries s =
     (case EnsureMigrationTable cfg client SchemaVersionTable s of
        (Some err, s) \<Rightarrow> Some (Some err, s)
      | (None, s) \<Rightarrow>
        (case GetCurrentVersion client SchemaVersionTable s of
           (Inl err, s) \<Rightarrow> Some (Some err, s)
         | (Inr currentVersion, s) \<Rightarrow> walk (migrate_entry cfg client fs fs_stat currentVersion) entries s))"

section \<open>What the database promises\<close>

text \<open>
  \<open>vers\<close> is the set of versions in the table. Only the insertion of a version changes it (no migration
  touches the table itself), a failed insertion may have been committed, and the query returns the
  largest version, if there is one.
\<close>

definition current :: "int set \<Rightarrow> int" where
  "current V = (if V = {} then 0 else Max V)"

definition version_db :: "('s \<Rightarrow> int set) \<Rightarrow> 's Spanner \<Rightarrow> bool" where
  "version_db vers client \<longleftrightarrow> (\<forall>s. finite (vers s))
   \<and> (\<forall>t cols s e s'. SpannerRead client t cols s = (e, s') \<longrightarrow> vers s' = vers s)
   \<and> (\<forall>db stmts s r s'. UpdateDatabaseDdl client db stmts s = (r, s') \<longrightarrow> vers s' = vers s)
   \<and> (\<forall>s rows e s'. SpannerQuery client (latest_version SchemaVersionTable) s = ((rows, e), s') \<longrightarrow> vers s' = vers s
        \<and> (e = None \<longrightarrow> (if vers s = {} then rows = [] else \<exists>v. rows = [Inr v] \<and> sint v = Max (vers s))))
   \<and> (\<forall>stmt s e s'. Update client stmt [] s = (e, s') \<longrightarrow> vers s' = vers s)
   \<and> (\<forall>v s e s'. Update client (insert_version SchemaVersionTable) [(''p1'', v)] s = (e, s') \<longrightarrow>
        vers s' = insert (sint v) (vers s) \<or> e \<noteq> None \<and> vers s' = vers s)"

lemma version_db_laws:
  assumes "version_db vers client"
  shows "finite (vers s)"
    and "SpannerRead client t cols s = (e, s') \<Longrightarrow> vers s' = vers s"
    and "UpdateDatabaseDdl client db stmts s = (r, s') \<Longrightarrow> vers s' = vers s"
    and "SpannerQuery client (latest_version SchemaVersionTable) s = ((rows, e), s') \<Longrightarrow> vers s' = vers s
        \<and> (e = None \<longrightarrow> (if vers s = {} then rows = [] else \<exists>v. rows = [Inr v] \<and> sint v = Max (vers s)))"
    and "Update client stmt [] s = (e, s') \<Longrightarrow> vers s' = vers s"
    and "Update client (insert_version SchemaVersionTable) [(''p1'', v)] s = (e, s') \<Longrightarrow>
        vers s' = insert (sint v) (vers s) \<or> e \<noteq> None \<and> vers s' = vers s"
  using assms unfolding version_db_def by (elim conjE, metis)+

lemma apply_statements_vers:
  assumes "version_db vers client"
  shows "apply_statements cfg client version i stmts s = (e, s') \<Longrightarrow> vers s' = vers s"
proof (induction stmts arbitrary: i s)
  case (Cons stmt stmts)
  obtain r s1 where ddl: "UpdateDatabaseDdl client (URL cfg) [stmt] s = (r, s1)" by fastforce
  obtain r2 s2 where upd: "Update client stmt [] s = (r2, s2)" by fastforce
  note v = version_db_laws(3) [OF assms ddl] version_db_laws(5) [OF assms upd]
  show ?case
    using Cons.prems Cons.IH [of "i + 1" s1] Cons.IH [of "i + 1" s2] v
    by (auto simp: ddl upd split: if_splits sum.splits option.splits)
qed simp

lemma EnsureMigrationTable_vers:
  assumes "version_db vers client" "EnsureMigrationTable cfg client t s = (e, s')"
  shows "vers s' = vers s"
proof -
  obtain e1 s1 where 1: "SpannerRead client t [''version''] s = (e1, s1)" by fastforce
  obtain r2 s2 where 2: "UpdateDatabaseDdl client (URL cfg) [create_table t] s1 = (r2, s2)" by fastforce
  note v = version_db_laws(2) [OF assms(1) 1] version_db_laws(3) [OF assms(1) 2]
  then show ?thesis using assms(2)
    by (auto simp: EnsureMigrationTable_def 1 2 split: option.splits sum.splits if_splits)
qed

lemma GetCurrentVersion_vers:
  assumes "version_db vers client" "GetCurrentVersion client SchemaVersionTable s = (r, s')"
  shows "vers s' = vers s \<and> (\<forall>v. r = Inr v \<longrightarrow> sint v = current (vers s))"
proof -
  obtain rows e s1 where q: "SpannerQuery client (latest_version SchemaVersionTable) s = ((rows, e), s1)"
    by (metis prod.exhaust)
  note version_db_laws(4) [OF assms(1) q]
  moreover have "r = read_version rows e 0" "s' = s1" using assms(2) by (simp_all add: GetCurrentVersion_def q)
  moreover have "e = None" if "read_version rows e 0 = Inr v" for v
  proof -
    have "read_version rs e w = Inr v \<Longrightarrow> e = None" for rs w
      by (induction rs arbitrary: w) (auto split: option.splits sum.splits)
    from this [OF that] show ?thesis .
  qed
  ultimately show ?thesis by (auto simp: current_def split: if_splits)
qed

section \<open>Which migrations are applied\<close>

definition entry_versions :: "open_file \<Rightarrow> (string \<Rightarrow> error + string) \<Rightarrow> entry \<Rightarrow> int list" where
  "entry_versions fs fs_stat = (\<lambda>(path, is_dir, err).
     if err \<noteq> None \<or> is_dir then []
     else case ParseVersion (NewParser fs fs_stat path) of Some (Inr v) \<Rightarrow> [sint v] | _ \<Rightarrow> [])"

definition file_versions :: "open_file \<Rightarrow> (string \<Rightarrow> error + string) \<Rightarrow> entry list \<Rightarrow> int list" where
  "file_versions fs fs_stat entries = concat (map (entry_versions fs fs_stat) entries)"

definition readable :: "open_file \<Rightarrow> (string \<Rightarrow> error + string) \<Rightarrow> entry \<Rightarrow> bool" where
  "readable fs fs_stat = (\<lambda>(path, is_dir, err). err = None \<and>
     (is_dir \<or> (\<exists>v. ParseVersion (NewParser fs fs_stat path) = Some (Inr v))))"

lemma migrate_newer_file:
  assumes "version_db vers client" "migrate_entry cfg client fs fs_stat cur (path, False, None) s = Some (err, s')"
    and "ParseVersion (NewParser fs fs_stat path) = Some (Inr ver)" "\<not> ver \<le>s cur"
  shows "(vers s' = vers s \<or> vers s' = insert (sint ver) (vers s)) \<and> (err = None \<longrightarrow> sint ver \<in> vers s')"
proof (cases "\<exists>stmts. ParseMigrationFile (NewParser fs fs_stat path) = Some (Inr stmts)")
  case True
  then obtain stmts where p: "ParseMigrationFile (NewParser fs fs_stat path) = Some (Inr stmts)" by blast
  obtain e1 s1 where a: "apply_statements cfg client ver 0 stmts s = (e1, s1)" by fastforce
  obtain e2 s2 where i: "SetCurrentVersion client SchemaVersionTable ver s1 = (e2, s2)" by fastforce
  have "e1 \<noteq> None \<and> err \<noteq> None \<and> s' = s1 \<or> s' = s2 \<and> (err = None \<longrightarrow> e2 = None)"
    using assms(2-4) by (auto simp: migrate_entry_def p a i split: option.splits)
  then show ?thesis
    using apply_statements_vers [OF assms(1) a] version_db_laws(6) [OF assms(1) i [unfolded SetCurrentVersion_def]] by auto
next
  case False
  then have "s' = s \<and> err \<noteq> None"
    using assms(2-4) by (auto simp: migrate_entry_def split: option.splits sum.splits)
  then show ?thesis by auto
qed

lemma migrate_entry_result:
  assumes "version_db vers client" "migrate_entry cfg client fs fs_stat cur e s = Some (err, s')"
  shows "(vers s' = vers s \<or> (\<exists>v. entry_versions fs fs_stat e = [v] \<and> sint cur < v \<and> vers s' = insert v (vers s)))
    \<and> (err = None \<longrightarrow> readable fs fs_stat e \<and> (\<forall>v \<in> set (entry_versions fs fs_stat e). v \<le> sint cur \<or> v \<in> vers s'))"
proof -
  obtain path d er where e: "e = (path, d, er)" by (cases e) auto
  consider "er \<noteq> None" | "er = None" "d" | "er = None" "\<not> d" by blast
  then show ?thesis
  proof cases
    case 3
    obtain r where v: "ParseVersion (NewParser fs fs_stat path) = Some r"
      using assms(2) 3 by (auto simp: migrate_entry_def e Let_def split: option.splits)
    show ?thesis
    proof (cases r)
      case (Inl x)
      then show ?thesis using assms(2) 3 v by (auto simp: migrate_entry_def e entry_versions_def)
    next
      case (Inr ver)
      have ev: "entry_versions fs fs_stat e = [sint ver]" "readable fs fs_stat e"
        using 3 v Inr by (simp_all add: e entry_versions_def readable_def)
      show ?thesis
      proof (cases "ver \<le>s cur")
        case True
        then show ?thesis using assms(2) 3 v Inr ev
          by (simp add: migrate_entry_def e word_sle_eq)
      next
        case False
        with migrate_newer_file [OF assms(1), of cfg fs fs_stat cur path s err s' ver] assms(2) 3 v Inr ev
        show ?thesis by (auto simp: e word_sle_eq)
      qed
    qed
  qed (use assms(2) in \<open>auto simp: migrate_entry_def e entry_versions_def readable_def\<close>)
qed

lemma walk_result:
  assumes "version_db vers client"
  shows "walk (migrate_entry cfg client fs fs_stat cur) entries s = Some (err, s') \<Longrightarrow>
    \<exists>pre post. file_versions fs fs_stat entries = pre @ post \<and> vers s \<subseteq> vers s'
      \<and> vers s' \<subseteq> vers s \<union> {v \<in> set pre. sint cur < v} \<and> (\<forall>v \<in> set pre. v \<le> sint cur \<or> v \<in> vers s')
      \<and> (err = None \<longrightarrow> post = [] \<and> list_all (readable fs fs_stat) entries)"
proof (induction entries arbitrary: s)
  case Nil
  then show ?case by (auto simp: file_versions_def)
next
  case (Cons e es)
  obtain er s1 where e: "migrate_entry cfg client fs fs_stat cur e s = Some (er, s1)"
    using Cons.prems by (cases "migrate_entry cfg client fs fs_stat cur e s") auto
  note step = migrate_entry_result [OF assms e]
  have fv: "file_versions fs fs_stat (e # es) = entry_versions fs fs_stat e @ file_versions fs fs_stat es"
    by (simp add: file_versions_def)
  show ?case
  proof (cases er)
    case None
    then have "walk (migrate_entry cfg client fs fs_stat cur) es s1 = Some (err, s')" using Cons.prems e by simp
    from Cons.IH [OF this] obtain pre post where IH: "file_versions fs fs_stat es = pre @ post" "vers s1 \<subseteq> vers s'"
      "vers s' \<subseteq> vers s1 \<union> {v \<in> set pre. sint cur < v}" "\<forall>v \<in> set pre. v \<le> sint cur \<or> v \<in> vers s'"
      "err = None \<longrightarrow> post = [] \<and> list_all (readable fs fs_stat) es" by blast
    show ?thesis
      by (rule exI [of _ "entry_versions fs fs_stat e @ pre"], rule exI [of _ post])
        (use step IH None fv in auto)
  next
    case (Some x)
    then have [simp]: "s' = s1" "err \<noteq> None" using Cons.prems e by auto
    from step show ?thesis
    proof (elim conjE disjE exE)
      assume "vers s1 = vers s"
      then show ?thesis by (intro exI [of _ "[]"] exI [of _ "file_versions fs fs_stat (e # es)"]) auto
    next
      fix v assume "entry_versions fs fs_stat e = [v]" "sint cur < v" "vers s1 = insert v (vers s)"
      then show ?thesis using fv by (intro exI [of _ "[v]"] exI [of _ "file_versions fs fs_stat es"]) auto
    qed
  qed
qed

lemma walk_skips:
  "list_all (readable fs fs_stat) entries \<Longrightarrow> \<forall>v \<in> set (file_versions fs fs_stat entries). v \<le> sint cur \<Longrightarrow>
   walk (migrate_entry cfg client fs fs_stat cur) entries s = Some (None, s)"
proof (induction entries)
  case (Cons e es)
  have "migrate_entry cfg client fs fs_stat cur e s = Some (None, s)"
    using Cons.prems by (auto simp: migrate_entry_def readable_def file_versions_def entry_versions_def word_sle_eq)
  then show ?case using Cons by (simp add: file_versions_def)
qed simp

lemma Migrate_walk:
  assumes "version_db vers client" "Migrate cfg client fs fs_stat entries s = Some (err, s')"
  obtains "vers s' = vers s" "err \<noteq> None"
  | cur s1 where "vers s1 = vers s" "sint cur = current (vers s)"
    "walk (migrate_entry cfg client fs fs_stat cur) entries s1 = Some (err, s')"
proof -
  obtain e1 s1 where 1: "EnsureMigrationTable cfg client SchemaVersionTable s = (e1, s1)" by fastforce
  obtain r2 s2 where 2: "GetCurrentVersion client SchemaVersionTable s1 = (r2, s2)" by fastforce
  note v = EnsureMigrationTable_vers [OF assms(1) 1] GetCurrentVersion_vers [OF assms(1) 2]
  show ?thesis
  proof (cases "e1 = None \<and> is_ok r2")
    case True
    then obtain cur where "r2 = Inr cur" by (cases r2) auto
    with that(2) [of s2 cur] True v assms(2) 1 2 show ?thesis by (simp add: Migrate_def)
  next
    case False
    then show ?thesis using that(1) v assms(2) 1 2
      by (cases e1; cases r2) (auto simp: Migrate_def)
  qed
qed

lemma current_mono:
  assumes "finite V" "finite W" "V \<subseteq> W" "W \<subseteq> V \<union> {v. current V < v}"
  shows "current V \<le> current W" "v \<in> W \<Longrightarrow> v \<le> current W"
proof -
  show le: "v \<le> current W" if "v \<in> W" for v using that assms(2) by (auto simp: current_def)
  show "current V \<le> current W"
  proof (cases "V = {}")
    case True
    show ?thesis
    proof (cases "W = {}")
      case False
      then obtain w where "w \<in> W" by blast
      then have "0 < w" "w \<le> current W" using assms(4) True le by (auto simp: current_def)
      then show ?thesis using True by (simp add: current_def)
    qed (use True in simp)
  next
    case False
    then show ?thesis using assms le by (auto simp: current_def)
  qed
qed

lemma Migrate_versions:
  assumes "version_db vers client" "Migrate cfg client fs fs_stat entries s = Some (err, s')"
  shows "current (vers s) \<le> current (vers s') \<and>
    (\<exists>pre post. file_versions fs fs_stat entries = pre @ post \<and> vers s \<subseteq> vers s' \<and> vers s' \<subseteq> vers s \<union> set pre
      \<and> (\<forall>v \<in> set pre. v \<le> current (vers s) \<or> v \<in> vers s')
      \<and> (err = None \<longrightarrow> post = [] \<and> list_all (readable fs fs_stat) entries))"
  using assms
proof (rule Migrate_walk)
  assume "vers s' = vers s" "err \<noteq> None"
  then show ?thesis by (intro conjI exI [of _ "[]"] exI [of _ "file_versions fs fs_stat entries"]) auto
next
  fix cur s1 assume s1: "vers s1 = vers s" "sint cur = current (vers s)"
    "walk (migrate_entry cfg client fs fs_stat cur) entries s1 = Some (err, s')"
  from walk_result [OF assms(1) s1(3)] obtain pre post where w: "file_versions fs fs_stat entries = pre @ post"
    "vers s1 \<subseteq> vers s'" "vers s' \<subseteq> vers s1 \<union> {v \<in> set pre. sint cur < v}" "\<forall>v \<in> set pre. v \<le> sint cur \<or> v \<in> vers s'"
    "err = None \<longrightarrow> post = [] \<and> list_all (readable fs fs_stat) entries" by blast
  have fin: "finite (vers s)" "finite (vers s')" by (rule version_db_laws(1) [OF assms(1)])+
  have "current (vers s) \<le> current (vers s')"
    by (rule current_mono(1) [OF fin]) (use w(2,3) s1(1,2) in auto)
  then show ?thesis using w s1(1,2) by auto
qed

text \<open>
  C14: migrating is idempotent: after a successful \<open>Migrate\<close>, every migration of the files is covered by
  the version that the next run starts from, and the next run on the same files executes none of their
  statements: it does what checking the table and reading the version does, and then returns.
\<close>

theorem Migrate_idempotent:
  assumes "version_db vers client" "Migrate cfg client fs fs_stat entries s = Some (None, s')"
  shows "(\<forall>v \<in> set (file_versions fs fs_stat entries). v \<le> current (vers s'))
    \<and> Migrate cfg client fs fs_stat entries s' =
      (case EnsureMigrationTable cfg client SchemaVersionTable s' of
         (Some err, s1) \<Rightarrow> Some (Some err, s1)
       | (None, s1) \<Rightarrow> (case GetCurrentVersion client SchemaVersionTable s1 of
           (Inl err, s2) \<Rightarrow> Some (Some err, s2) | (Inr _, s2) \<Rightarrow> Some (None, s2)))"
proof -
  from Migrate_versions [OF assms] obtain pre where w: "current (vers s) \<le> current (vers s')"
    "file_versions fs fs_stat entries = pre" "\<forall>v \<in> set pre. v \<le> current (vers s) \<or> v \<in> vers s'"
    "list_all (readable fs fs_stat) entries" by auto
  have "v \<le> current (vers s')" if "v \<in> vers s'" for v
    using that version_db_laws(1) [OF assms(1), of s'] by (auto simp: current_def)
  then have cur: "\<forall>v \<in> set (file_versions fs fs_stat entries). v \<le> current (vers s')"
    using w by fastforce
  obtain e1 s1 where 1: "EnsureMigrationTable cfg client SchemaVersionTable s' = (e1, s1)" by fastforce
  obtain r2 s2 where 2: "GetCurrentVersion client SchemaVersionTable s1 = (r2, s2)" by fastforce
  have "sint v = current (vers s')" if "r2 = Inr v" for v
    using GetCurrentVersion_vers [OF assms(1) 2] EnsureMigrationTable_vers [OF assms(1) 1] that by simp
  then have "walk (migrate_entry cfg client fs fs_stat v) entries s2 = Some (None, s2)" if "r2 = Inr v" for v
    using that cur by (intro walk_skips [OF w(4)]) simp
  then show ?thesis using cur by (auto simp: Migrate_def 1 2 split: option.splits sum.splits)
qed

section \<open>Which statements have been executed\<close>

text \<open>
  \<open>hist\<close> lists the statements that the database has executed: one that is reported as done has been
  appended, one that failed may have been. Recording a version is not in the list.
\<close>

definition statement_log :: "('s \<Rightarrow> string list) \<Rightarrow> 's Spanner \<Rightarrow> bool" where
  "statement_log hist client \<longleftrightarrow>
     (\<forall>t cols s e s'. SpannerRead client t cols s = (e, s') \<longrightarrow> hist s' = hist s)
   \<and> (\<forall>q s r s'. SpannerQuery client q s = (r, s') \<longrightarrow> hist s' = hist s)
   \<and> (\<forall>db stmt s r s'. UpdateDatabaseDdl client db [stmt] s = (r, s') \<longrightarrow>
        hist s' = hist s @ [stmt] \<or> (\<forall>d. r \<noteq> Inr (None, d)) \<and> hist s' = hist s)
   \<and> (\<forall>stmt s e s'. Update client stmt [] s = (e, s') \<longrightarrow> hist s' = hist s @ [stmt] \<or> e \<noteq> None \<and> hist s' = hist s)
   \<and> (\<forall>v s e s'. Update client (insert_version SchemaVersionTable) [(''p1'', v)] s = (e, s') \<longrightarrow> hist s' = hist s)"

lemma statement_log_laws:
  assumes "statement_log hist client"
  shows "SpannerRead client t cols s = (e, s') \<Longrightarrow> hist s' = hist s"
    and "SpannerQuery client q s = (r, s') \<Longrightarrow> hist s' = hist s"
    and "UpdateDatabaseDdl client db [stmt] s = (r', s') \<Longrightarrow>
      hist s' = hist s @ [stmt] \<or> (\<forall>d. r' \<noteq> Inr (None, d)) \<and> hist s' = hist s"
    and "Update client stmt [] s = (e, s') \<Longrightarrow> hist s' = hist s @ [stmt] \<or> e \<noteq> None \<and> hist s' = hist s"
    and "Update client (insert_version SchemaVersionTable) [(''p1'', v)] s = (e, s') \<Longrightarrow> hist s' = hist s"
  using assms unfolding statement_log_def by (elim conjE, metis)+

text \<open>What the statements of a run have appended, and that they are those of a file when it went through.\<close>

lemma apply_statements_log:
  assumes "statement_log hist client"
  shows "apply_statements cfg client version i stmts s = (e, s') \<Longrightarrow>
    \<exists>ext. hist s' = hist s @ ext \<and> (e = None \<longrightarrow> ext = stmts)"
proof (induction stmts arbitrary: i s)
  case (Cons stmt stmts)
  obtain r s1 where ddl: "UpdateDatabaseDdl client (URL cfg) [stmt] s = (r, s1)" by fastforce
  obtain r2 s2 where upd: "Update client stmt [] s = (r2, s2)" by fastforce
  define s3 where "s3 = (if IsDDL stmt then s1 else s2)"
  have hist: "hist s3 = hist s @ [stmt] \<or> s' = s3 \<and> e \<noteq> None \<and> hist s3 = hist s"
    using Cons.prems statement_log_laws(3) [OF assms ddl] statement_log_laws(4) [OF assms upd]
    by (auto simp: s3_def ddl upd split: if_splits sum.splits option.splits)
  have "s' = s3 \<and> e \<noteq> None \<or> apply_statements cfg client version (i + 1) stmts s3 = (e, s')"
    using Cons.prems by (auto simp: s3_def ddl upd split: if_splits sum.splits option.splits)
  then show ?case
  proof
    assume "s' = s3 \<and> e \<noteq> None"
    then show ?thesis using hist by (elim disjE) auto
  next
    assume a: "apply_statements cfg client version (i + 1) stmts s3 = (e, s')"
    then obtain ext where ext: "hist s' = hist s3 @ ext" "e = None \<longrightarrow> ext = stmts" using Cons.IH by blast
    from hist show ?thesis
    proof
      assume "hist s3 = hist s @ [stmt]"
      then show ?thesis using ext by (intro exI [of _ "stmt # ext"]) simp
    qed (use ext in auto)
  qed
qed simp

text \<open>The version \<open>v\<close> of the file of an entry is covered by the executed statements \<open>ext\<close>.\<close>

definition executed :: "open_file \<Rightarrow> (string \<Rightarrow> error + string) \<Rightarrow> entry \<Rightarrow> string list \<Rightarrow> int \<Rightarrow> bool" where
  "executed fs fs_stat e ext v \<longleftrightarrow> entry_versions fs fs_stat e = [v] \<and>
     (\<exists>stmts. ParseMigrationFile (NewParser fs fs_stat (fst e)) = Some (Inr stmts) \<and> sublist stmts ext)"

lemma executed_more: "executed fs fs_stat e ext v \<Longrightarrow> sublist ext ext' \<Longrightarrow> executed fs fs_stat e ext' v"
  by (auto simp: executed_def intro: sublist_order.order.trans)

lemma migrate_entry_log:
  assumes "version_db vers client" "statement_log hist client" "migrate_entry cfg client fs fs_stat cur e s = Some (err, s')"
  shows "\<exists>ext. hist s' = hist s @ ext \<and> (\<forall>v \<in> vers s'. v \<in> vers s \<or> executed fs fs_stat e ext v)"
proof -
  obtain path d er where e: "e = (path, d, er)" by (cases e) auto
  show ?thesis
  proof (cases "\<exists>ver stmts. er = None \<and> \<not> d \<and> ParseVersion (NewParser fs fs_stat path) = Some (Inr ver) \<and> \<not> ver \<le>s cur
      \<and> ParseMigrationFile (NewParser fs fs_stat path) = Some (Inr stmts)")
    case False
    then have "s' = s"
      using assms(3) by (auto simp: migrate_entry_def e Let_def split: if_splits option.splits sum.splits)
    then show ?thesis by (intro exI [of _ "[]"]) simp
  next
    case True
    then obtain ver stmts where v: "er = None" "\<not> d" "ParseVersion (NewParser fs fs_stat path) = Some (Inr ver)" "\<not> ver \<le>s cur"
      "ParseMigrationFile (NewParser fs fs_stat path) = Some (Inr stmts)" by blast
    obtain e1 s1 where a: "apply_statements cfg client ver 0 stmts s = (e1, s1)" by fastforce
    obtain e2 s2 where i: "SetCurrentVersion client SchemaVersionTable ver s1 = (e2, s2)" by fastforce
    from apply_statements_log [OF assms(2) a] obtain ext where ext: "hist s1 = hist s @ ext" "e1 = None \<longrightarrow> ext = stmts" by blast
    have s': "e1 \<noteq> None \<and> s' = s1 \<or> e1 = None \<and> s' = s2"
      using assms(3) v by (auto simp: migrate_entry_def e a i split: option.splits)
    have "hist s2 = hist s1" using statement_log_laws(5) [OF assms(2) i [unfolded SetCurrentVersion_def]] .
    moreover have "vers s1 = vers s" by (rule apply_statements_vers [OF assms(1) a])
    moreover have "vers s2 \<subseteq> insert (sint ver) (vers s1)"
      using version_db_laws(6) [OF assms(1) i [unfolded SetCurrentVersion_def]] by auto
    moreover have "executed fs fs_stat e ext (sint ver)" if "e1 = None"
      using v ext(2) that by (simp add: executed_def e entry_versions_def)
    ultimately show ?thesis using s' ext(1) by (intro exI [of _ ext]) auto
  qed
qed

lemma walk_log:
  assumes "version_db vers client" "statement_log hist client"
  shows "walk (migrate_entry cfg client fs fs_stat cur) entries s = Some (err, s') \<Longrightarrow>
    \<exists>ext. hist s' = hist s @ ext \<and> (\<forall>v \<in> vers s'. v \<in> vers s \<or> (\<exists>e \<in> set entries. executed fs fs_stat e ext v))"
proof (induction entries arbitrary: s)
  case (Cons e es)
  obtain er s1 where e: "migrate_entry cfg client fs fs_stat cur e s = Some (er, s1)"
    using Cons.prems by (cases "migrate_entry cfg client fs fs_stat cur e s") auto
  from migrate_entry_log [OF assms e] obtain ext where ext: "hist s1 = hist s @ ext"
    "\<forall>v \<in> vers s1. v \<in> vers s \<or> executed fs fs_stat e ext v" by blast
  show ?case
  proof (cases er)
    case None
    then have "walk (migrate_entry cfg client fs fs_stat cur) es s1 = Some (err, s')" using Cons.prems e by simp
    from Cons.IH [OF this] obtain ext' where ext': "hist s' = hist s1 @ ext'"
      "\<forall>v \<in> vers s'. v \<in> vers s1 \<or> (\<exists>e \<in> set es. executed fs fs_stat e ext' v)" by blast
    have "sublist ext (ext @ ext')" "sublist ext' (ext @ ext')" by simp_all
    then have "v \<in> vers s \<or> (\<exists>e' \<in> set (e # es). executed fs fs_stat e' (ext @ ext') v)" if "v \<in> vers s'" for v
      using that ext(2) ext'(2) executed_more by (metis list.set_intros)
    then show ?thesis using ext(1) ext'(1) by (intro exI [of _ "ext @ ext'"]) simp
  next
    case (Some x)
    then have "s' = s1" using Cons.prems e by simp
    then show ?thesis using ext by auto
  qed
qed simp

lemma Migrate_log:
  assumes "version_db vers client" "statement_log hist client" "Migrate cfg client fs fs_stat entries s = Some (err, s')"
  shows "\<exists>ext. hist s' = hist s @ ext \<and> (\<forall>v \<in> vers s'. v \<in> vers s \<or> (\<exists>e \<in> set entries. executed fs fs_stat e ext v))"
proof -
  obtain e0 s0 where rd: "SpannerRead client SchemaVersionTable [''version''] s = (e0, s0)" by fastforce
  obtain r0 s0' where ddl: "UpdateDatabaseDdl client (URL cfg) [create_table SchemaVersionTable] s0 = (r0, s0')" by fastforce
  obtain e1 s1 where 1: "EnsureMigrationTable cfg client SchemaVersionTable s = (e1, s1)" by fastforce
  obtain r2 s2 where 2: "GetCurrentVersion client SchemaVersionTable s1 = (r2, s2)" by fastforce
  have "s1 = s0 \<or> s1 = s0'"
    using 1 by (auto simp: EnsureMigrationTable_def rd ddl split: option.splits sum.splits if_splits)
  then obtain ext where ext: "hist s1 = hist s @ ext"
    using statement_log_laws(1) [OF assms(2) rd] statement_log_laws(3) [OF assms(2) ddl] by auto
  have "hist s2 = hist s1"
    using 2 statement_log_laws(2) [OF assms(2)] by (auto simp: GetCurrentVersion_def split: prod.splits)
  moreover have "vers s2 = vers s1" "vers s1 = vers s"
    using GetCurrentVersion_vers [OF assms(1) 2] EnsureMigrationTable_vers [OF assms(1) 1] by auto
  ultimately have s2: "hist s2 = hist s1" "vers s2 = vers s" "vers s1 = vers s" by simp_all
  consider (ended) "s' = s1 \<or> s' = s2"
    | (walked) cur where "walk (migrate_entry cfg client fs fs_stat cur) entries s2 = Some (err, s')"
    using assms(3) by (auto simp: Migrate_def 1 2 split: option.splits sum.splits)
  then show ?thesis
  proof cases
    case (walked cur)
    from walk_log [OF assms(1,2) walked] obtain ext' where ext': "hist s' = hist s2 @ ext'"
      "\<forall>v \<in> vers s'. v \<in> vers s2 \<or> (\<exists>e \<in> set entries. executed fs fs_stat e ext' v)" by blast
    have "sublist ext' (ext @ ext')" by simp
    note more = executed_more [OF _ this]
    have "v \<in> vers s \<or> (\<exists>e \<in> set entries. executed fs fs_stat e (ext @ ext') v)" if "v \<in> vers s'" for v
      using ext'(2) that s2(2) more by blast
    moreover have "hist s' = hist s @ ext @ ext'" using ext ext'(1) s2(1) by simp
    ultimately show ?thesis by blast
  qed (use ext s2 in auto)
qed

lemma Migrate_covered:
  assumes "version_db vers client" "sorted_wrt (<) (file_versions fs fs_stat entries)"
    and "Migrate cfg client fs fs_stat entries s = Some (err, s')"
    and v: "v \<in> set (file_versions fs fs_stat entries)" "v \<le> current (vers s')"
  shows "v \<le> current (vers s) \<or> v \<in> vers s'"
proof -
  from Migrate_versions [OF assms(1,3)] obtain pre post where w: "file_versions fs fs_stat entries = pre @ post"
    "vers s \<subseteq> vers s'" "vers s' \<subseteq> vers s \<union> set pre" "\<forall>v \<in> set pre. v \<le> current (vers s) \<or> v \<in> vers s'" by blast
  show "v \<le> current (vers s) \<or> v \<in> vers s'"
  proof (cases "v \<in> set pre")
    case False
    then have post: "v \<in> set post" using v(1) w(1) by auto
    show ?thesis
    proof (cases "vers s' = {}")
      case True
      then have "current (vers s') = current (vers s)" using w(2) by simp
      then show ?thesis using v(2) by simp
    next
      case False
      have fin: "finite (vers s)" "finite (vers s')" by (rule version_db_laws(1) [OF assms(1)])+
      then have m: "current (vers s') \<in> vers s'" using False by (simp add: current_def)
      then consider "current (vers s') \<in> vers s" | "current (vers s') \<in> set pre" using w(3) by blast
      then show ?thesis
      proof cases
        case 1
        then have "current (vers s') \<le> current (vers s)" using fin by (auto simp: current_def)
        then show ?thesis using v(2) by simp
      next
        case 2
        then have "current (vers s') < v" using assms(2) post w(1) by (simp add: sorted_wrt_append)
        then show ?thesis using v(2) by simp
      qed
    qed
  qed (use w(4) in blast)
qed

text \<open>
  C20: no migration is lost by a failure: when the files are visited in increasing order of their
  versions, then after any run, successful or not, a version that the next run will skip is one that
  the table already covered before, or one that has been recorded after this run has executed all
  statements of its file, in their order and nothing in between.
\<close>

theorem Migrate_resumable:
  assumes "version_db vers client" "statement_log hist client" "sorted_wrt (<) (file_versions fs fs_stat entries)"
    and "Migrate cfg client fs fs_stat entries s = Some (err, s')"
  shows "\<exists>ext. hist s' = hist s @ ext \<and> (\<forall>v \<in> set (file_versions fs fs_stat entries). v \<le> current (vers s') \<longrightarrow>
    v \<le> current (vers s) \<or> v \<in> vers s' \<and> (\<exists>e \<in> set entries. executed fs fs_stat e ext v))"
proof -
  obtain ext where ext: "hist s' = hist s @ ext"
    "\<forall>v \<in> vers s'. v \<in> vers s \<or> (\<exists>e \<in> set entries. executed fs fs_stat e ext v)"
    using Migrate_log [OF assms(1,2,4)] by blast
  have "v \<le> current (vers s)" if "v \<in> vers s" for v
    using that version_db_laws(1) [OF assms(1), of s] by (auto simp: current_def)
  then show ?thesis using ext Migrate_covered [OF assms(1,3,4)] by blast
qed

text \<open>A database that holds its versions in a list, and a migration with one statement.\<close>

definition list_db :: "int64 list Spanner" where
  "list_db = \<lparr>SpannerRead = \<lambda>t cols s. (None, s), UpdateDatabaseDdl = \<lambda>db stmts s. (Inr (None, True), s),
     SpannerQuery = \<lambda>q s. (((if s = [] then [] else [Inr (of_int (Max (sint ` set s)))]), None), s),
     Update = \<lambda>stmt ps s. (None, map snd ps @ s)\<rparr>"

lemma sint_of_Max: "s \<noteq> [] \<Longrightarrow> sint (of_int (Max (sint ` set s)) :: int64) = Max (sint ` set s)" for s :: "int64 list"
proof -
  assume "s \<noteq> []"
  then have "Max (sint ` set s) \<in> sint ` set s" by (intro Max_in) auto
  then obtain w where "w \<in> set s" "Max (sint ` set s) = sint w" by auto
  then show ?thesis by simp
qed

lemma list_db_law: "version_db (\<lambda>s. sint ` set s) list_db"
  using sint_of_Max by (auto simp: version_db_def list_db_def)

abbreviation demo_migrate :: "int64 list \<Rightarrow> (error option \<times> int64 list) option" where
  "demo_migrate \<equiv> Migrate \<lparr>ProjectID = ''p'', InstanceID = ''i'', DatabaseID = ''d'', CredentialsFile = '''', MigrationTimeout = 0\<rparr>
     list_db (\<lambda>_. Inr (''SELECT 1'', None)) Inr [(''.'', True, None), (''1.sql'', False, None)]"

lemma demo_version: "ParseVersion (NewParser fs Inr ''1.sql'') = Some (Inr 1)"
proof -
  have "SplitN2 (CHR ''.'') ''1.sql'' = [''1'', ''sql'']" "FormatInt 1 = ''1''" by code_simp+
  then show ?thesis using ParseInt_FormatInt [of 1] by (simp add: ParseVersion_def NewParser_def)
qed

lemma demo_run: "demo_migrate [] = Some (None, [1])"
proof -
  let ?p = "NewParser (\<lambda>_. Inr (''SELECT 1'', None)) Inr ''1.sql''"
  let ?f = "migrate_entry \<lparr>ProjectID = ''p'', InstanceID = ''i'', DatabaseID = ''d'', CredentialsFile = '''', MigrationTimeout = 0\<rparr>
     list_db (\<lambda>_. Inr (''SELECT 1'', None)) Inr 0"
  have "scan_lines ''SELECT 1'' = [''SELECT 1'']" 
    unfolding scan_lines_def MaxScanTokenSize_def by (simp add: Split_notin strip_cr_def)
  moreover have "parse_statements [''SELECT 1''] = [''SELECT 1'']" by code_simp
  ultimately have p: "ParseMigrationFile ?p = Some (Inr [''SELECT 1''])"
    by (simp add: ParseMigrationFile_def NewParser_def parseMigrationFilename_def)
  have ddl: "\<not> IsDDL ''SELECT 1''" by code_simp
  have pos: "\<not> (1 :: int64) \<le>s 0" by code_simp
  have upd: "Update list_db t ps s = (None, map snd ps @ s)" for t ps s by (simp add: list_db_def)
  have app: "apply_statements cfg list_db 1 0 [''SELECT 1''] [] = (None, [])" for cfg
    using ddl by (simp add: upd)
  have set: "SetCurrentVersion list_db t 1 [] = (None, [1])" for t
    by (simp add: SetCurrentVersion_def upd)
  have "?f (''1.sql'', False, None) [] = Some (None, [1])"
    unfolding migrate_entry_def Let_def
    by (simp add: demo_version p app set pos del: apply_statements.simps)
  moreover have "?f (''.'', True, None) [] = Some (None, [])" by (simp add: migrate_entry_def)
  ultimately have "walk ?f [(''.'', True, None), (''1.sql'', False, None)] [] = Some (None, [1])" by simp
  moreover have "EnsureMigrationTable cfg list_db t [] = (None, [])" "GetCurrentVersion list_db t [] = (Inr 0, [])" for cfg t
    by (simp_all add: EnsureMigrationTable_def GetCurrentVersion_def list_db_def)
  ultimately show ?thesis by (simp add: Migrate_def)
qed

lemma demo_file_versions:
  "file_versions (\<lambda>_. Inr (''SELECT 1'', None)) Inr [(''.'', True, None), (''1.sql'', False, None)] = [1]"
  by (simp add: file_versions_def entry_versions_def demo_version)

theorem Migrate_idempotent_witness:
  "demo_migrate [1] = Some (None, [1])"
  using Migrate_idempotent [OF list_db_law demo_run]
  by (simp add: EnsureMigrationTable_def GetCurrentVersion_def list_db_def)

text \<open>
  A database that also keeps the executed statements and fails on \<open>SELECT 2\<close>: the run stops at the second
  file, with the first one executed and recorded.
\<close>

definition log_db :: "(int64 list \<times> string list) Spanner" where
  "log_db = \<lparr>SpannerRead = \<lambda>t cols s. (None, s), UpdateDatabaseDdl = \<lambda>db stmts (vs, l). (Inr (None, True), vs, l @ stmts),
     SpannerQuery = \<lambda>q (vs, l). (((if vs = [] then [] else [Inr (of_int (Max (sint ` set vs)))]), None), vs, l),
     Update = \<lambda>stmt ps (vs, l). if ps \<noteq> [] then (None, map snd ps @ vs, l)
       else if stmt = ''SELECT 2'' then (Some (ErrorString ''aborted''), vs, l) else (None, vs, l @ [stmt])\<rparr>"

lemma log_db_laws: "version_db (\<lambda>s. sint ` set (fst s)) log_db" "statement_log snd log_db"
  using sint_of_Max by (auto simp: version_db_def statement_log_def log_db_def split: if_splits)

abbreviation two_files :: open_file where
  "two_files \<equiv> \<lambda>name. Inr (if name = ''1.sql'' then ''SELECT 1'' else ''SELECT 2'', None)"

abbreviation two_entries :: "entry list" where
  "two_entries \<equiv> [(''1.sql'', False, None), (''2.sql'', False, None)]"

abbreviation demo_config :: SpannerConfig where
  "demo_config \<equiv> \<lparr>ProjectID = ''p'', InstanceID = ''i'', DatabaseID = ''d'', CredentialsFile = '''', MigrationTimeout = 0\<rparr>"

lemma one_line: "\<not> IsDDL t \<Longrightarrow> t \<in> {''SELECT 1'', ''SELECT 2''} \<Longrightarrow> scan_lines t = [t] \<and> parse_statements [t] = [t]"
proof -
  assume t: "t \<in> {''SELECT 1'', ''SELECT 2''}"
  then have "scan_lines t = [t]" unfolding scan_lines_def MaxScanTokenSize_def by (auto simp: Split_notin strip_cr_def)
  moreover have "parse_statements [''SELECT 1''] = [''SELECT 1'']" "parse_statements [''SELECT 2''] = [''SELECT 2'']"
    by code_simp+
  ultimately show ?thesis using t by auto
qed

lemma two_versions:
  "ParseVersion (NewParser fs Inr ''1.sql'') = Some (Inr 1)" "ParseVersion (NewParser fs Inr ''2.sql'') = Some (Inr 2)"
proof -
  have "SplitN2 (CHR ''.'') ''2.sql'' = [''2'', ''sql'']" "FormatInt 2 = ''2''" by code_simp+
  then show "ParseVersion (NewParser fs Inr ''2.sql'') = Some (Inr 2)"
    using ParseInt_FormatInt [of 2] by (simp add: ParseVersion_def NewParser_def)
qed (rule demo_version)

lemma two_files_run:
  "\<exists>err. Migrate cfg log_db two_files Inr two_entries ([], []) = Some (Some err, [1], [''SELECT 1''])"
proof -
  have ddl: "\<not> IsDDL ''SELECT 1''" "\<not> IsDDL ''SELECT 2''" by code_simp+
  have p: "ParseMigrationFile (NewParser two_files Inr ''1.sql'') = Some (Inr [''SELECT 1''])"
    "ParseMigrationFile (NewParser two_files Inr ''2.sql'') = Some (Inr [''SELECT 2''])"
    using one_line [OF ddl(1)] one_line [OF ddl(2)]
    by (simp_all add: ParseMigrationFile_def NewParser_def parseMigrationFilename_def)
  have pos: "\<not> (1 :: int64) \<le>s 0" "\<not> (2 :: int64) \<le>s 0" by code_simp+
  have upd: "Update log_db t ps (vs, l) = (if ps \<noteq> [] then (None, map snd ps @ vs, l)
      else if t = ''SELECT 2'' then (Some (ErrorString ''aborted''), vs, l) else (None, vs, l @ [t]))" for t ps vs l
    by (simp add: log_db_def)
  have "migrate_entry cfg log_db two_files Inr 0 (''1.sql'', False, None) ([], []) = Some (None, [1], [''SELECT 1''])"
    by (simp add: migrate_entry_def two_versions p pos ddl upd SetCurrentVersion_def)
  moreover have "\<exists>err. migrate_entry cfg log_db two_files Inr 0 (''2.sql'', False, None) ([1], [''SELECT 1''])
      = Some (Some err, [1], [''SELECT 1''])"
    by (simp add: migrate_entry_def two_versions p pos ddl upd)
  ultimately have "\<exists>err. walk (migrate_entry cfg log_db two_files Inr 0) two_entries ([], []) = Some (Some err, [1], [''SELECT 1''])"
    by auto
  moreover have "EnsureMigrationTable cfg log_db t ([], []) = (None, [], [])" "GetCurrentVersion log_db t ([], []) = (Inr 0, [], [])" for t
    by (simp_all add: EnsureMigrationTable_def GetCurrentVersion_def log_db_def)
  ultimately show ?thesis by (simp add: Migrate_def)
qed

theorem Migrate_resumable_witness:
  "\<exists>err e. Migrate demo_config log_db two_files Inr two_entries ([], []) = Some (Some err, [1], [''SELECT 1''])
     \<and> e \<in> set two_entries \<and> executed two_files Inr e [''SELECT 1''] 1"
proof -
  have fv: "file_versions two_files Inr two_entries = [1, 2]"
    by (simp add: file_versions_def entry_versions_def two_versions)
  obtain err where r: "Migrate demo_config log_db two_files Inr two_entries ([], []) = Some (Some err, [1], [''SELECT 1''])"
    using two_files_run [of demo_config] by blast
  from Migrate_resumable [OF log_db_laws _ r] obtain e where "e \<in> set two_entries" "executed two_files Inr e [''SELECT 1''] 1"
    by (auto simp: fv current_def)
  with r show ?thesis by blast
qed

end
