(* ===== verification/SpannerClient.thy ===== *)
theory SpannerClient
  imports Migration
begin

text \<open>
  \<open>src/spanner/client.go\<close>: the client of the database is a pair of clients of Google, one for data and
  one for administration. Both, and what they take and return (callbacks \<open>'f\<close>, commit times \<open>'t\<close>,
  read-only transactions \<open>'r\<close>, requests \<open>'q\<close>, operations \<open>'p\<close>), are parameters; \<open>'o\<close> are the options of
  their constructors, \<open>getenv\<close> is \<open>os.Getenv\<close>.
\<close>

record ('o, 'c, 'a, 'f, 't, 'r, 'q, 'p, 'w) Google =
  WithCredentialsFile :: "string \<Rightarrow> 'o"
  spanner_NewClient :: "string \<Rightarrow> 'o list \<Rightarrow> 'w \<Rightarrow> (error + 'c) \<times> 'w"
  spanner_Close :: "'c \<Rightarrow> 'w \<Rightarrow> 'w"
  spanner_ReadWriteTransaction :: "'c \<Rightarrow> 'f \<Rightarrow> 'w \<Rightarrow> (error option \<times> 't) \<times> 'w"
  spanner_Single :: "'c \<Rightarrow> 'r"
  NewDatabaseAdminClient :: "'o list \<Rightarrow> 'w \<Rightarrow> (error + 'a) \<times> 'w"
  admin_Close :: "'a \<Rightarrow> 'w \<Rightarrow> error option \<times> 'w"
  admin_UpdateDatabaseDdl :: "'a \<Rightarrow> 'q \<Rightarrow> 'w \<Rightarrow> (error + 'p) \<times> 'w"

record ('c, 'a) client =
  data_client :: 'c
  adminClient :: 'a

definition client_opts :: "(string \<Rightarrow> string) \<Rightarrow> (string \<Rightarrow> 'o) \<Rightarrow> SpannerConfig \<Rightarrow> 'o list" where
  "client_opts getenv with_file config =
     (if CredentialsFile config \<noteq> '''' \<and> getenv ''SPANNER_EMULATOR_HOST'' = ''''
      then [with_file (CredentialsFile config)] else [])"

definition NewSpannerClient ::
  "(string \<Rightarrow> string) \<Rightarrow> ('o, 'c, 'a, 'f, 't, 'r, 'q, 'p, 'w) Google \<Rightarrow> SpannerConfig \<Rightarrow> 'w
     \<Rightarrow> (error + ('c, 'a) client) \<times> 'w" where
  "NewSpannerClient getenv g config w =
     (let opts = client_opts getenv (WithCredentialsFile g) config
      in case spanner_NewClient g (URL config) opts w of
        (Inl err, w) \<Rightarrow> (Inl err, w)
      | (Inr spannerClient, w) \<Rightarrow>
        (case NewDatabaseAdminClient g opts w of
           (Inl err, w) \<Rightarrow> (Inl err, spanner_Close g spannerClient w)
         | (Inr spannerAdminClient, w) \<Rightarrow>
             (Inr \<lparr>data_client = spannerClient, adminClient = spannerAdminClient\<rparr>, w)))"

definition client_Close ::
  "('o, 'c, 'a, 'f, 't, 'r, 'q, 'p, 'w) Google \<Rightarrow> ('c, 'a) client \<Rightarrow> 'w \<Rightarrow> error option \<times> 'w" where
  "client_Close g c w = (let w = spanner_Close g (data_client c) w in admin_Close g (adminClient c) w)"

definition client_ReadWriteTransaction ::
  "('o, 'c, 'a, 'f, 't, 'r, 'q, 'p, 'w) Google \<Rightarrow> ('c, 'a) client \<Rightarrow> 'f \<Rightarrow> 'w \<Rightarrow> (error option \<times> 't) \<times> 'w" where
  "client_ReadWriteTransaction g c f w = spanner_ReadWriteTransaction g (data_client c) f w"

definition client_Single :: "('o, 'c, 'a, 'f, 't, 'r, 'q, 'p, 'w) Google \<Rightarrow> ('c, 'a) client \<Rightarrow> 'r" where
  "client_Single g c = spanner_Single g (data_client c)"

definition client_UpdateDatabaseDdl ::
  "('o, 'c, 'a, 'f, 't, 'r, 'q, 'p, 'w) Google \<Rightarrow> ('c, 'a) client \<Rightarrow> 'q \<Rightarrow> 'w \<Rightarrow> (error + 'p) \<times> 'w" where
  "client_UpdateDatabaseDdl g c req w = admin_UpdateDatabaseDdl g (adminClient c) req w"

section \<open>Clients are opened and closed in pairs\<close>

text \<open>\<open>opened\<close> counts the open clients of both kinds; a close counts even when it reports an error.\<close>

definition counts_google :: "('w \<Rightarrow> int) \<Rightarrow> ('o, 'c, 'a, 'f, 't, 'r, 'q, 'p, 'w) Google \<Rightarrow> bool" where
  "counts_google opened g \<longleftrightarrow>
     (\<forall>u os w r w'. spanner_NewClient g u os w = (r, w') \<longrightarrow> opened w' = opened w + (if is_ok r then 1 else 0))
   \<and> (\<forall>c w. opened (spanner_Close g c w) = opened w - 1)
   \<and> (\<forall>os w r w'. NewDatabaseAdminClient g os w = (r, w') \<longrightarrow> opened w' = opened w + (if is_ok r then 1 else 0))
   \<and> (\<forall>a w e w'. admin_Close g a w = (e, w') \<longrightarrow> opened w' = opened w - 1)"

text \<open>
  A constructor that fails leaves nothing open, one that succeeds opens both clients, and closing
  closes both, also when the second close fails.
\<close>

lemma NewSpannerClient_opens:
  assumes "counts_google opened g" "NewSpannerClient getenv g config w = (r, w')"
  shows "opened w' = opened w + (if is_ok r then 2 else 0)"
proof -
  let ?opts = "client_opts getenv (WithCredentialsFile g) config"
  obtain r1 w1 where n: "spanner_NewClient g (URL config) ?opts w = (r1, w1)" by fastforce
  obtain r2 w2 where a: "NewDatabaseAdminClient g ?opts w1 = (r2, w2)" by fastforce
  have "opened w1 = opened w + (if is_ok r1 then 1 else 0)" "opened w2 = opened w1 + (if is_ok r2 then 1 else 0)"
    "opened (spanner_Close g c w2) = opened w2 - 1" for c
    using assms(1) n a by (simp_all add: counts_google_def)
  then show ?thesis using assms(2) n a by (cases r1; cases r2) (auto simp: NewSpannerClient_def Let_def)
qed

lemma client_Close_closes:
  assumes "counts_google opened g" "client_Close g c w = (e, w')"
  shows "opened w' = opened w - 2"
proof -
  have "opened (spanner_Close g (data_client c) w) = opened w - 1" using assms(1) by (simp add: counts_google_def)
  moreover have "opened w' = opened (spanner_Close g (data_client c) w) - 1"
    using assms by (simp add: client_Close_def counts_google_def)
  ultimately show ?thesis by simp
qed

text \<open>With the emulator the credentials file is not used.\<close>

lemma client_opts_emulator: "getenv ''SPANNER_EMULATOR_HOST'' \<noteq> '''' \<Longrightarrow> client_opts getenv with_file config = []"
  by (simp add: client_opts_def)

end
