(* ===== verification/Secrets.thy ===== *)
theory Secrets
  imports GoErrors
begin

text \<open>
  \<open>src/secrets/secrets.go\<close>: reading and creating secrets. The Secret Manager of Google is the record
  \<open>SecretManager\<close> of operations on an arbitrary type \<open>'w\<close> of worlds, \<open>getenv\<close> is \<open>os.Getenv\<close>. A payload
  is text; the response to an access has an optional payload, whose getters are nil-safe in Go.
\<close>

section \<open>Operations\<close>

definition GoogleApplicationCredentialsEnv :: string where
  "GoogleApplicationCredentialsEnv = ''GOOGLE_APPLICATION_CREDENTIALS''"
definition DefaultKafkaUserSecretID :: string where "DefaultKafkaUserSecretID = ''kafka-user''"
definition DefaultKafkaPasswordSecretID :: string where "DefaultKafkaPasswordSecretID = ''kafka-password''"
definition DefaultRedisUserSecretID :: string where "DefaultRedisUserSecretID = ''redis-user''"
definition DefaultRedisPasswordSecretID :: string where "DefaultRedisPasswordSecretID = ''redis-password''"

record ('c, 'w) SecretManager =
  sm_NewClient :: "'w \<Rightarrow> (error + 'c) \<times> 'w"
  sm_Close :: "'c \<Rightarrow> 'w \<Rightarrow> 'w"
  AccessSecretVersion :: "'c \<Rightarrow> string \<Rightarrow> 'w \<Rightarrow> (error + string option) \<times> 'w"
  sm_CreateSecret :: "'c \<Rightarrow> string \<Rightarrow> string \<Rightarrow> 'w \<Rightarrow> (error + string) \<times> 'w"
  AddSecretVersion :: "'c \<Rightarrow> string \<Rightarrow> string \<Rightarrow> 'w \<Rightarrow> (error + string) \<times> 'w"

text \<open>
  The start that both functions share: they check the environment, open a client and close it
  (\<open>defer client.Close()\<close>) after the body, whatever that returns.
\<close>

definition with_client ::
  "(string \<Rightarrow> string) \<Rightarrow> ('c, 'w) SecretManager \<Rightarrow> ('c \<Rightarrow> 'w \<Rightarrow> (error + string) \<times> 'w) \<Rightarrow> 'w \<Rightarrow> (error + string) \<times> 'w" where
  "with_client getenv sm body w =
     (if getenv GoogleApplicationCredentialsEnv = ''''
      then (Inl (ErrorString (GoogleApplicationCredentialsEnv @ '' not set'')), w)
      else case sm_NewClient sm w of
        (Inl err, w) \<Rightarrow> (Inl (WrapError ''failed to create secrets client'' err), w)
      | (Inr client, w) \<Rightarrow> (case body client w of (r, w) \<Rightarrow> (r, sm_Close sm client w)))"

definition data_of :: "string option \<Rightarrow> string" where
  "data_of payload = (case payload of None \<Rightarrow> '''' | Some data \<Rightarrow> data)"

definition secretName :: "string \<Rightarrow> string \<Rightarrow> string" where
  "secretName projectID secretID = ''projects/'' @ projectID @ ''/secrets/'' @ secretID @ ''/versions/latest''"

definition parentName :: "string \<Rightarrow> string" where
  "parentName projectID = ''projects/'' @ projectID"

definition GetSecret ::
  "(string \<Rightarrow> string) \<Rightarrow> ('c, 'w) SecretManager \<Rightarrow> string \<Rightarrow> string \<Rightarrow> 'w \<Rightarrow> (error + string) \<times> 'w" where
  "GetSecret getenv sm projectID secretID = with_client getenv sm (\<lambda>client w.
     case AccessSecretVersion sm client (secretName projectID secretID) w of
       (Inl err, w) \<Rightarrow> (Inl (WrapError ''failed to retrieve secret from secret manager'' err), w)
     | (Inr result, w) \<Rightarrow> (Inr (data_of result), w))"

definition CreateSecret ::
  "(string \<Rightarrow> string) \<Rightarrow> ('c, 'w) SecretManager \<Rightarrow> string \<Rightarrow> string \<Rightarrow> string \<Rightarrow> 'w \<Rightarrow> (error + string) \<times> 'w" where
  "CreateSecret getenv sm projectID secretID payload = with_client getenv sm (\<lambda>client w.
     case sm_CreateSecret sm client (parentName projectID) secretID w of
       (Inl err, w) \<Rightarrow> (Inl (ErrorString (''failed to create secret: '' @ Error err)), w)
     | (Inr secret, w) \<Rightarrow>
         (case AddSecretVersion sm client secret payload w of
            (Inl err, w) \<Rightarrow> (Inl (ErrorString (''failed to add secret version: '' @ Error err)), w)
          | (Inr version, w) \<Rightarrow> (Inr version, w)))"

section \<open>No connection is left open\<close>

text \<open>\<open>opened\<close> counts the clients that have been opened and not closed.\<close>

definition counts_clients :: "('w \<Rightarrow> int) \<Rightarrow> ('c, 'w) SecretManager \<Rightarrow> bool" where
  "counts_clients opened sm \<longleftrightarrow>
     (\<forall>w r w'. sm_NewClient sm w = (r, w') \<longrightarrow> opened w' = opened w + (if is_ok r then 1 else 0))
   \<and> (\<forall>c w. opened (sm_Close sm c w) = opened w - 1)
   \<and> (\<forall>c n w r w'. AccessSecretVersion sm c n w = (r, w') \<longrightarrow> opened w' = opened w)
   \<and> (\<forall>c p i w r w'. sm_CreateSecret sm c p i w = (r, w') \<longrightarrow> opened w' = opened w)
   \<and> (\<forall>c n d w r w'. AddSecretVersion sm c n d w = (r, w') \<longrightarrow> opened w' = opened w)"

lemma with_client_closes:
  assumes "counts_clients opened sm" "with_client getenv sm body w = (r, w')"
    and "\<And>c v r' v'. body c v = (r', v') \<Longrightarrow> opened v' = opened v"
  shows "opened w' = opened w"
proof -
  obtain rc w1 where n: "sm_NewClient sm w = (rc, w1)" by fastforce
  have o1: "opened w1 = opened w + (if is_ok rc then 1 else 0)" "opened (sm_Close sm c v) = opened v - 1" for c v
    using assms(1) n by (simp_all add: counts_clients_def)
  show ?thesis using assms(2) o1 n
    by (cases rc) (auto simp: with_client_def dest: assms(3) split: if_splits prod.splits)
qed

text \<open>Neither function leaves a client open, on any path.\<close>

lemma GetSecret_closes:
  assumes "counts_clients opened sm" "GetSecret getenv sm p i w = (r, w')"
  shows "opened w' = opened w"
proof (rule with_client_closes [OF assms(1) assms(2) [unfolded GetSecret_def]], goal_cases)
  case (1 c v r' v')
  have "AccessSecretVersion sm c q u = (x, u') \<Longrightarrow> opened u' = opened u" for q u x u'
    using assms(1) unfolding counts_clients_def by blast
  then show ?case using 1 by (auto split: prod.splits sum.splits)
qed

lemma CreateSecret_closes:
  assumes "counts_clients opened sm" "CreateSecret getenv sm p i d w = (r, w')"
  shows "opened w' = opened w"
proof (rule with_client_closes [OF assms(1) assms(2) [unfolded CreateSecret_def]], goal_cases)
  case (1 c v r' v')
  have "sm_CreateSecret sm c q j u = (x, u') \<Longrightarrow> opened u' = opened u"
    and "AddSecretVersion sm c q j u = (x, u') \<Longrightarrow> opened u' = opened u" for q j u x u'
    using assms(1) unfolding counts_clients_def by blast+
  then show ?case using 1 by (auto split: prod.splits sum.splits)
qed

section \<open>A secret that has been created is read back\<close>

text \<open>
  What the service documents, with \<open>versions w name\<close> the payloads of a secret, oldest first: opening and
  closing clients and reading change nothing, a secret is created without versions under the name
  made of its parent and its identifier, and \<open>latest\<close> is the newest version.
\<close>

definition secret_service :: "('w \<Rightarrow> string \<rightharpoonup> string list) \<Rightarrow> ('c, 'w) SecretManager \<Rightarrow> bool" where
  "secret_service versions sm \<longleftrightarrow>
     (\<forall>w r w'. sm_NewClient sm w = (r, w') \<longrightarrow> versions w' = versions w)
   \<and> (\<forall>c w. versions (sm_Close sm c w) = versions w)
   \<and> (\<forall>c n w d w'. AccessSecretVersion sm c (n @ ''/versions/latest'') w = (Inr d, w') \<longrightarrow>
        (\<exists>ds. versions w n = Some (ds @ [data_of d])))
   \<and> (\<forall>c p i w n w'. sm_CreateSecret sm c p i w = (Inr n, w') \<longrightarrow>
        n = p @ ''/secrets/'' @ i \<and> versions w n = None \<and> versions w' = (versions w)(n \<mapsto> []))
   \<and> (\<forall>c n d w v w'. AddSecretVersion sm c n d w = (Inr v, w') \<longrightarrow>
        (\<exists>ds. versions w n = Some ds \<and> versions w' = (versions w)(n \<mapsto> ds @ [d])))"

lemma secret_service_laws:
  assumes "secret_service versions sm"
  shows "sm_NewClient sm w = (r, w') \<Longrightarrow> versions w' = versions w"
    and "versions (sm_Close sm c w) = versions w"
    and "AccessSecretVersion sm c (n @ ''/versions/latest'') w = (Inr d, w') \<Longrightarrow>
      \<exists>ds. versions w n = Some (ds @ [data_of d])"
    and "sm_CreateSecret sm c q i w = (Inr n, w') \<Longrightarrow> n = q @ ''/secrets/'' @ i \<and> versions w' = (versions w)(n \<mapsto> [])"
    and "AddSecretVersion sm c n x w = (Inr v, w') \<Longrightarrow>
      \<exists>ds. versions w n = Some ds \<and> versions w' = (versions w)(n \<mapsto> ds @ [x])"
  using assms unfolding secret_service_def by metis+

lemma with_client_ok:
  assumes "with_client getenv sm body w = (Inr v, w')"
  obtains c w1 w2 where "sm_NewClient sm w = (Inr c, w1)" "body c w1 = (Inr v, w2)" "w' = sm_Close sm c w2"
proof -
  obtain rc w1 where n: "sm_NewClient sm w = (rc, w1)" by fastforce
  then obtain c where "rc = Inr c" using assms by (cases rc) (auto simp: with_client_def split: if_splits)
  then show ?thesis using assms n that by (auto simp: with_client_def split: if_splits prod.splits)
qed

lemma CreateSecret_stores:
  assumes "secret_service versions sm" "CreateSecret getenv sm p i d w = (Inr v, w')"
  shows "versions w' (parentName p @ ''/secrets/'' @ i) = Some [d]"
proof -
  note law = secret_service_laws [OF assms(1)]
  obtain c w1 w3 where s: "(case sm_CreateSecret sm c (parentName p) i w1 of
       (Inl err, w) \<Rightarrow> (Inl (ErrorString (''failed to create secret: '' @ Error err)), w)
     | (Inr secret, w) \<Rightarrow>
         (case AddSecretVersion sm c secret d w of
            (Inl err, w) \<Rightarrow> (Inl (ErrorString (''failed to add secret version: '' @ Error err)), w)
          | (Inr version, w) \<Rightarrow> (Inr version, w))) = (Inr v, w3)" "w' = sm_Close sm c w3"
    using assms(2) unfolding CreateSecret_def by (rule with_client_ok)
  obtain rn w2 where cr: "sm_CreateSecret sm c (parentName p) i w1 = (rn, w2)" by fastforce
  then obtain n where n: "rn = Inr n" using s(1) by (cases rn) auto
  obtain ra w4 where ad: "AddSecretVersion sm c n d w2 = (ra, w4)" by fastforce
  have "ra = Inr v \<and> w4 = w3" using s(1) by (cases ra) (simp_all add: cr n ad)
  with law(4) [OF cr [unfolded n]] law(5) [of c n d w2 v w3] ad have "versions w3 n = Some [d]" "n = parentName p @ ''/secrets/'' @ i"
    by auto
  then show ?thesis using law(2) s(2) by simp
qed

lemma GetSecret_reads:
  assumes "secret_service versions sm" "GetSecret getenv sm p i w = (Inr d, w')"
  shows "\<exists>ds. versions w (parentName p @ ''/secrets/'' @ i) = Some (ds @ [d])"
proof -
  note law = secret_service_laws [OF assms(1)]
  obtain c w1 w2 where g: "sm_NewClient sm w = (Inr c, w1)" "(case AccessSecretVersion sm c (secretName p i) w1 of
       (Inl err, w) \<Rightarrow> (Inl (WrapError ''failed to retrieve secret from secret manager'' err), w)
     | (Inr result, w) \<Rightarrow> (Inr (data_of result), w)) = (Inr d, w2)"
    using assms(2) unfolding GetSecret_def by (rule with_client_ok)
  obtain rx w3 where ac: "AccessSecretVersion sm c (secretName p i) w1 = (rx, w3)" by fastforce
  then obtain x where x: "rx = Inr x" "d = data_of x" using g(2) by (cases rx) auto
  have "secretName p i = (parentName p @ ''/secrets/'' @ i) @ ''/versions/latest''" by (simp add: secretName_def parentName_def)
  with law(3) ac x law(1) [OF g(1)] show ?thesis by metis
qed

text \<open>
  C37: a secret that \<open>CreateSecret\<close> has created is what \<open>GetSecret\<close> returns next, and neither function leaves a
  client of the service open, whether it succeeds or fails.
\<close>

theorem CreateSecret_then_GetSecret:
  assumes "secret_service versions sm" "counts_clients opened sm"
    and "CreateSecret getenv sm p i d w = (r, w')" "GetSecret getenv sm p i w' = (r', w'')"
  shows "opened w' = opened w \<and> opened w'' = opened w \<and> (is_ok r \<and> is_ok r' \<longrightarrow> r' = Inr d)"
proof -
  have "r' = Inr d" if "r = Inr v" "r' = Inr d'" for v d'
    using CreateSecret_stores [OF assms(1) assms(3) [unfolded that(1)]] GetSecret_reads [OF assms(1) assms(4) [unfolded that(2)]]
    by (simp add: that(2))
  then show ?thesis
    using CreateSecret_closes [OF assms(2,3)] GetSecret_closes [OF assms(2,4)] by (cases r; cases r') auto
qed

text \<open>A service in memory: the world is the number of open clients and the versions of the secrets.\<close>

type_synonym vault = "int \<times> (string \<rightharpoonup> string list)"

definition memory_service :: "(unit, vault) SecretManager" where
  "memory_service =
     \<lparr>sm_NewClient = \<lambda>(n, v). (Inr (), n + 1, v), sm_Close = \<lambda>c (n, v). (n - 1, v),
      AccessSecretVersion = \<lambda>c name (n, v).
        ((let k = length name - length ''/versions/latest''
          in if drop k name \<noteq> ''/versions/latest'' then Inl (ErrorString ''not found'')
             else case v (take k name) of Some (d # ds) \<Rightarrow> Inr (Some (last (d # ds))) | _ \<Rightarrow> Inl (ErrorString ''not found'')), n, v),
      sm_CreateSecret = \<lambda>c p i (n, v).
        (let name = p @ ''/secrets/'' @ i
         in case v name of Some ds \<Rightarrow> (Inl (ErrorString ''already exists''), n, v) | None \<Rightarrow> (Inr name, n, v(name \<mapsto> []))),
      AddSecretVersion = \<lambda>c name d (n, v).
        (case v name of None \<Rightarrow> (Inl (ErrorString ''not found''), n, v) | Some ds \<Rightarrow> (Inr name, n, v(name \<mapsto> ds @ [d])))\<rparr>"

lemma memory_service_laws: "secret_service snd memory_service" "counts_clients fst memory_service"
proof -
  have access: "\<exists>ds. snd w n = Some (ds @ [data_of d])"
    if "AccessSecretVersion memory_service c (n @ ''/versions/latest'') w = (Inr d, w')" for c n w d w'
  proof -
    obtain k v where w: "w = (k, v)" by (cases w)
    from that have "\<exists>e es. v n = Some (e # es) \<and> d = Some (last (e # es))"
      by (auto simp: memory_service_def Let_def w split: option.splits list.splits if_splits)
    then obtain e es where "snd w n = Some (e # es)" "d = Some (last (e # es))" using w by auto
    then show ?thesis using append_butlast_last_id [of "e # es"] by (metis data_of_def list.distinct(1) option.simps(5))
  qed
  then show "secret_service snd memory_service"
    unfolding secret_service_def
    by (intro conjI allI impI) (auto simp: memory_service_def Let_def split: prod.splits option.splits)
  show "counts_clients fst memory_service"
    by (auto simp: counts_clients_def memory_service_def Let_def split: option.splits)
qed

theorem CreateSecret_then_GetSecret_witness:
  "\<exists>v w' w''. CreateSecret (\<lambda>_. ''key.json'') memory_service ''p'' ''kafka-user'' ''alice'' (0, Map.empty) = (Inr v, w')
     \<and> GetSecret (\<lambda>_. ''key.json'') memory_service ''p'' ''kafka-user'' w' = (Inr ''alice'', w'') \<and> fst w'' = 0"
proof -
  let ?c = "CreateSecret (\<lambda>_. ''key.json'') memory_service ''p'' ''kafka-user'' ''alice'' (0, Map.empty)"
  let ?g = "GetSecret (\<lambda>_. ''key.json'') memory_service ''p'' ''kafka-user'' (snd ?c)"
  have ok: "is_ok (fst ?c)" "is_ok (fst ?g)" by code_simp+
  then obtain v w' where c: "?c = (Inr v, w')" by (cases ?c; cases "fst ?c") auto
  obtain d w'' where g: "?g = (Inr d, w'')" using ok(2) by (cases ?g; cases "fst ?g") auto
  have g': "GetSecret (\<lambda>_. ''key.json'') memory_service ''p'' ''kafka-user'' w' = (Inr d, w'')"
    using g by (simp only: c snd_conv)
  from CreateSecret_then_GetSecret [OF memory_service_laws c g'] have "d = ''alice'' \<and> fst w'' = 0" by simp
  with c g' show ?thesis by (intro exI [of _ v] exI [of _ w'] exI [of _ w'']) simp
qed

text \<open>
  When adding the version has failed, the secret exists without one: from then on \<open>CreateSecret\<close> fails.
\<close>

lemma CreateSecret_not_repeatable:
  assumes "secret_service versions sm" "versions w (parentName p @ ''/secrets/'' @ i) \<noteq> None"
  shows "\<not> is_ok (fst (CreateSecret getenv sm p i d w))"
proof
  assume "is_ok (fst (CreateSecret getenv sm p i d w))"
  then obtain v w' where "CreateSecret getenv sm p i d w = (Inr v, w')"
    by (cases "CreateSecret getenv sm p i d w"; cases "fst (CreateSecret getenv sm p i d w)") auto
  then obtain c w1 w3 where s: "sm_NewClient sm w = (Inr c, w1)" "(case sm_CreateSecret sm c (parentName p) i w1 of
       (Inl err, w) \<Rightarrow> (Inl (ErrorString (''failed to create secret: '' @ Error err)), w)
     | (Inr secret, w) \<Rightarrow>
         (case AddSecretVersion sm c secret d w of
            (Inl err, w) \<Rightarrow> (Inl (ErrorString (''failed to add secret version: '' @ Error err)), w)
          | (Inr version, w) \<Rightarrow> (Inr version, w))) = (Inr v, w3)"
    unfolding CreateSecret_def by (rule with_client_ok)
  obtain rn w2 where cr: "sm_CreateSecret sm c (parentName p) i w1 = (rn, w2)" by fastforce
  then obtain n where n: "rn = Inr n" using s(2) by (cases rn) auto
  have "versions w1 (parentName p @ ''/secrets/'' @ i) = None"
    using assms(1) cr [unfolded n] unfolding secret_service_def by metis
  then show False using secret_service_laws(1) [OF assms(1) s(1)] assms(2) by simp
qed

end
