(* ===== verification/Kafka.thy ===== *)
theory Kafka
  imports GoErrors Prelude
begin

text \<open>
  \<open>src/kafka\<close>: the configuration with its default topics, the name of a consumer group, the options
  that the client is created with, sending messages, and the lag of a consumer group. The franz-go
  client and its admin client, the environment, the network interfaces and the protobuf encoder are
  parameters. A Go map that is ranged over is the list of its entries in the order of the visit.
\<close>

type_synonym int32 = "32 word"

section \<open>Configuration\<close>


definition DefaultOrderTopic :: string where "DefaultOrderTopic = ''dora.network.orders.incoming''"
definition DefaultOrderStatusTopic :: string where "DefaultOrderStatusTopic = ''dora.network.orders.status.updates''"
definition DefaultOrderSnapshotsTopic :: string where "DefaultOrderSnapshotsTopic = ''dora.network.orders.snapshots''"
definition DefaultMatchedOrderTopic :: string where "DefaultMatchedOrderTopic = ''dora.network.orders.matched''"
definition DefaultOrderBookAdminTopic :: string where "DefaultOrderBookAdminTopic = ''dora.network.orderbook.admin''"
definition DefaultOrderBookStatusTopic :: string where "DefaultOrderBookStatusTopic = ''dora.network.orderbook.status''"
definition DefaultOrderBookUpdatesTopic :: string where "DefaultOrderBookUpdatesTopic = ''dora.network.orderbook.updates''"
definition DefaultOrderBookSnapshotTopic :: string where "DefaultOrderBookSnapshotTopic = ''dora.network.orderbook.snapshots''"
definition DefaultOrderBookRequestsTopic :: string where "DefaultOrderBookRequestsTopic = ''dora.network.orderbook.requests''"
definition DefaultAssetRequestsTopic :: string where "DefaultAssetRequestsTopic = ''dora.network.assets.requests''"
definition DefaultAssetSnapshotTopic :: string where "DefaultAssetSnapshotTopic = ''dora.network.assets.snapshots''"
definition DefaultAssetUpdatesTopic :: string where "DefaultAssetUpdatesTopic = ''dora.network.assets.updates''"
definition DefaultUserLedgerRequestsTopic :: string where "DefaultUserLedgerRequestsTopic = ''dora.network.user.ledger.requests''"
definition DefaultUserLedgerSnapshotsTopic :: string where "DefaultUserLedgerSnapshotsTopic = ''dora.network.user.ledger.snapshots''"
definition DefaultUserLedgerUpdatesTopic :: string where "DefaultUserLedgerUpdatesTopic = ''dora.network.user.ledger.updates''"
definition DefaultLeverageRequestsTopic :: string where "DefaultLeverageRequestsTopic = ''dora.network.leverage.requests''"
definition DefaultLeverageSnapshotsTopic :: string where "DefaultLeverageSnapshotsTopic = ''dora.network.leverage.snapshots''"
definition DefaultLeverageUpdatesTopic :: string where "DefaultLeverageUpdatesTopic = ''dora.network.leverage.updates''"
definition DefaultPoolLiquidityRequestsTopic :: string where "DefaultPoolLiquidityRequestsTopic = ''dora.network.pool.liquidity.requests''"
definition DefaultPoolLiquiditySnapshotsTopic :: string where "DefaultPoolLiquiditySnapshotsTopic = ''dora.network.pool.liquidity.snapshots''"
definition DefaultPoolLiquidityUpdatesTopic :: string where "DefaultPoolLiquidityUpdatesTopic = ''dora.network.pool.liquidity.updates''"
definition DefaultTransactionsTopic :: string where "DefaultTransactionsTopic = ''dora.network.transactions''"
definition DefaultAddTransactionsRequestTopic :: string where "DefaultAddTransactionsRequestTopic = ''dora.network.add.transactions.request''"
definition DefaultAddTransactionsResponseTopic :: string where "DefaultAddTransactionsResponseTopic = ''dora.network.add.transactions.response''"
definition DefaultTradesRequestTopic :: string where "DefaultTradesRequestTopic = ''dora.network.trades.request''"
definition DefaultTradesResponseTopic :: string where "DefaultTradesResponseTopic = ''dora.network.trades.response''"
definition DefaultTradesUpdateTopic :: string where "DefaultTradesUpdateTopic = ''dora.network.trades.updates''"
definition DefaultLastTradedPriceTopic :: string where "DefaultLastTradedPriceTopic = ''dora.network.last.traded.price''"
definition DefaultCandlesUpdateTopic :: string where "DefaultCandlesUpdateTopic = ''dora.network.candles.updates''"
definition DefaultCandlesRequestTopic :: string where "DefaultCandlesRequestTopic = ''dora.network.candles.request''"
definition DefaultCandlesSnapshotTopic :: string where "DefaultCandlesSnapshotTopic = ''dora.network.candles.snapshot''"
definition DefaultDollarPricesUpdateTopic :: string where "DefaultDollarPricesUpdateTopic = ''dora.network.prices.updates''"
definition DefaultDollarPricesRequestTopic :: string where "DefaultDollarPricesRequestTopic = ''dora.network.prices.request''"
definition DefaultDollarPricesSnapshotTopic :: string where "DefaultDollarPricesSnapshotTopic = ''dora.network.prices.snapshot''"

lemmas topic_defs = DefaultOrderTopic_def DefaultOrderStatusTopic_def DefaultOrderSnapshotsTopic_def DefaultMatchedOrderTopic_def
  DefaultOrderBookAdminTopic_def DefaultOrderBookStatusTopic_def DefaultOrderBookUpdatesTopic_def DefaultOrderBookSnapshotTopic_def
  DefaultOrderBookRequestsTopic_def DefaultAssetRequestsTopic_def DefaultAssetSnapshotTopic_def DefaultAssetUpdatesTopic_def
  DefaultUserLedgerRequestsTopic_def DefaultUserLedgerSnapshotsTopic_def DefaultUserLedgerUpdatesTopic_def DefaultLeverageRequestsTopic_def
  DefaultLeverageSnapshotsTopic_def DefaultLeverageUpdatesTopic_def DefaultPoolLiquidityRequestsTopic_def DefaultPoolLiquiditySnapshotsTopic_def
  DefaultPoolLiquidityUpdatesTopic_def DefaultTransactionsTopic_def DefaultAddTransactionsRequestTopic_def DefaultAddTransactionsResponseTopic_def
  DefaultTradesRequestTopic_def DefaultTradesResponseTopic_def DefaultTradesUpdateTopic_def DefaultLastTradedPriceTopic_def
  DefaultCandlesUpdateTopic_def DefaultCandlesRequestTopic_def DefaultCandlesSnapshotTopic_def DefaultDollarPricesUpdateTopic_def
  DefaultDollarPricesRequestTopic_def DefaultDollarPricesSnapshotTopic_def

record Auth =
  Username :: string
  Password :: string

record KafkaConfig =
  Brokers :: "string list"
  OrderTopic :: string
  OrderStatusTopic :: string
  OrderSnapshotsTopic :: string
  MatchedOrderTopic :: string
  OrderBookAdminTopic :: string
  OrderBookStatusTopic :: string
  OrderBookUpdatesTopic :: string
  OrderBookSnapshotTopic :: string
  OrderBookRequestsTopic :: string
  AssetsRequestTopic :: string
  AssetSnapshotTopic :: string
  AssetUpdateTopic :: string
  UserLedgerRequestsTopic :: string
  UserLedgerSnapshotsTopic :: string
  UserLedgerUpdatesTopic :: string
  LeverageRequestsTopic :: string
  LeverageSnapshotsTopic :: string
  LeverageUpdatesTopic :: string
  PoolLiquidityRequestsTopic :: string
  PoolLiquiditySnapshotsTopic :: string
  PoolLiquidityUpdatesTopic :: string
  TransactionsTopic :: string
  AddTransactionRequestTopic :: string
  AddTransactionResponseTopic :: string
  TradesRequestTopic :: string
  TradesResponseTopic :: string
  TradesUpdateTopic :: string
  LastTradedPriceTopic :: string
  CandlesUpdateTopic :: string
  CandlesRequestTopic :: string
  CandlesSnapshotTopic :: string
  DollarPricesUpdateTopic :: string
  DollarPricesRequestTopic :: string
  DollarPricesSnapshotTopic :: string
  Authentication :: Auth

definition DefaultConfig :: KafkaConfig where
  "DefaultConfig = \<lparr>
     Brokers = [],
     OrderTopic = DefaultOrderTopic,
     OrderStatusTopic = DefaultOrderStatusTopic,
     OrderSnapshotsTopic = DefaultOrderSnapshotsTopic,
     MatchedOrderTopic = DefaultMatchedOrderTopic,
     OrderBookAdminTopic = DefaultOrderBookAdminTopic,
     OrderBookStatusTopic = DefaultOrderBookStatusTopic,
     OrderBookUpdatesTopic = DefaultOrderBookUpdatesTopic,
     OrderBookSnapshotTopic = DefaultOrderBookSnapshotTopic,
     OrderBookRequestsTopic = DefaultOrderBookRequestsTopic,
     AssetsRequestTopic = DefaultAssetRequestsTopic,
     AssetSnapshotTopic = DefaultAssetSnapshotTopic,
     AssetUpdateTopic = DefaultAssetUpdatesTopic,
     UserLedgerRequestsTopic = DefaultUserLedgerRequestsTopic,
     UserLedgerSnapshotsTopic = DefaultUserLedgerSnapshotsTopic,
     UserLedgerUpdatesTopic = DefaultUserLedgerUpdatesTopic,
     LeverageRequestsTopic = DefaultLeverageRequestsTopic,
     LeverageSnapshotsTopic = DefaultLeverageSnapshotsTopic,
     LeverageUpdatesTopic = DefaultLeverageUpdatesTopic,
     PoolLiquidityRequestsTopic = DefaultPoolLiquidityRequestsTopic,
     PoolLiquiditySnapshotsTopic = DefaultPoolLiquiditySnapshotsTopic,
     PoolLiquidityUpdatesTopic = DefaultPoolLiquidityUpdatesTopic,
     TransactionsTopic = DefaultTransactionsTopic,
     AddTransactionRequestTopic = DefaultAddTransactionsRequestTopic,
     AddTransactionResponseTopic = DefaultAddTransactionsResponseTopic,
     TradesRequestTopic = DefaultTradesRequestTopic,
     TradesResponseTopic = DefaultTradesResponseTopic,
     TradesUpdateTopic = DefaultTradesUpdateTopic,
     LastTradedPriceTopic = DefaultLastTradedPriceTopic,
     CandlesUpdateTopic = DefaultCandlesUpdateTopic,
     CandlesRequestTopic = DefaultCandlesRequestTopic,
     CandlesSnapshotTopic = DefaultCandlesSnapshotTopic,
     DollarPricesUpdateTopic = DefaultDollarPricesUpdateTopic,
     DollarPricesRequestTopic = DefaultDollarPricesRequestTopic,
     DollarPricesSnapshotTopic = DefaultDollarPricesSnapshotTopic,
     Authentication = \<lparr>Username = '''', Password = ''''\<rparr>\<rparr>"

definition topics :: "KafkaConfig \<Rightarrow> string list" where
  "topics c = [OrderTopic c, OrderStatusTopic c, OrderSnapshotsTopic c, MatchedOrderTopic c,
     OrderBookAdminTopic c, OrderBookStatusTopic c, OrderBookUpdatesTopic c, OrderBookSnapshotTopic c,
     OrderBookRequestsTopic c, AssetsRequestTopic c, AssetSnapshotTopic c, AssetUpdateTopic c,
     UserLedgerRequestsTopic c, UserLedgerSnapshotsTopic c, UserLedgerUpdatesTopic c, LeverageRequestsTopic c,
     LeverageSnapshotsTopic c, LeverageUpdatesTopic c, PoolLiquidityRequestsTopic c, PoolLiquiditySnapshotsTopic c,
     PoolLiquidityUpdatesTopic c, TransactionsTopic c, AddTransactionRequestTopic c, AddTransactionResponseTopic c,
     TradesRequestTopic c, TradesResponseTopic c, TradesUpdateTopic c, LastTradedPriceTopic c,
     CandlesUpdateTopic c, CandlesRequestTopic c, CandlesSnapshotTopic c, DollarPricesUpdateTopic c,
     DollarPricesRequestTopic c, DollarPricesSnapshotTopic c]"

section \<open>Clients\<close>

definition getMacAddr :: "error + string list \<Rightarrow> error + string list" where
  "getMacAddr interfaces =
     (case interfaces of Inl err \<Rightarrow> Inl err | Inr ifas \<Rightarrow> Inr (filter (\<lambda>a. a \<noteq> '''') ifas))"

definition ConsumerGroup :: "string \<Rightarrow> error + string list \<Rightarrow> string \<Rightarrow> string" where
  "ConsumerGroup HOSTNAME interfaces component =
     (if HOSTNAME = '''' then
        (case getMacAddr interfaces of Inl err \<Rightarrow> component
         | Inr mac \<Rightarrow> Join mac '':'' @ ''-'' @ component)
      else HOSTNAME @ ''-'' @ component)"

text \<open>The calls of the option constructors of \<open>kgo\<close>.\<close>

datatype kgo_opt =
    kgo_SeedBrokers "string list"
  | kgo_DefaultProduceTopic string
  | kgo_ConsumerGroup string
  | kgo_ConsumeTopics "string list"
  | kgo_SASL_plain string string

definition NewClient :: "(kgo_opt list \<Rightarrow> error + 'c) \<Rightarrow> KafkaConfig \<Rightarrow> string \<Rightarrow> string \<Rightarrow> string list \<Rightarrow> error + 'c" where
  "NewClient kgo_NewClient config produceTopic consumerGroup consumeTopics =
     (let opts = [kgo_SeedBrokers (Brokers config)];
          opts = (if produceTopic \<noteq> '''' then opts @ [kgo_DefaultProduceTopic produceTopic] else opts);
          opts = (if consumerGroup \<noteq> '''' then opts @ [kgo_ConsumerGroup consumerGroup] else opts);
          opts = (if length consumeTopics > 0 then opts @ [kgo_ConsumeTopics consumeTopics] else opts);
          opts = (if Username (Authentication config) \<noteq> '''' \<and> Password (Authentication config) \<noteq> ''''
                  then opts @ [kgo_SASL_plain (Username (Authentication config)) (Password (Authentication config))]
                  else opts)
      in case kgo_NewClient opts of Inl err \<Rightarrow> Inl err | Inr client \<Rightarrow> Inr client)"

text \<open>
  All messages are encoded before anything is sent; \<open>ProduceSync\<close> returns the first error of its
  results.
\<close>

fun marshal_records :: "('m \<Rightarrow> error + string) \<Rightarrow> ('m \<Rightarrow> string) \<Rightarrow> string \<Rightarrow> 'm list \<Rightarrow> error + (string \<times> string) list" where
  "marshal_records Marshal show_msg topic [] = Inr []"
| "marshal_records Marshal show_msg topic (msg # messages) =
     (case Marshal msg of
        Inl err \<Rightarrow> Inl (ErrorString (''failed to marshal transaction response: '' @ show_msg msg))
      | Inr bs \<Rightarrow> (case marshal_records Marshal show_msg topic messages of
          Inl err \<Rightarrow> Inl err | Inr records \<Rightarrow> Inr ((topic, bs) # records)))"

definition SendMessageToTopic ::
  "('m \<Rightarrow> error + string) \<Rightarrow> ('m \<Rightarrow> string) \<Rightarrow> ((string \<times> string) list \<Rightarrow> 's \<Rightarrow> error option \<times> 's)
    \<Rightarrow> string \<Rightarrow> 'm list \<Rightarrow> 's \<Rightarrow> error option \<times> 's" where
  "SendMessageToTopic Marshal show_msg ProduceSync topic messages s =
     (case marshal_records Marshal show_msg topic messages of
        Inl err \<Rightarrow> (Some err, s)
      | Inr records \<Rightarrow> ProduceSync records s)"

section \<open>Lag\<close>

record ConsumerLag =
  Topic :: string
  Partition :: int32
  CommittedOffset :: int64
  LogEndOffset :: int64
  Lag :: int64

type_synonym offsets = "(string \<times> (int32 \<times> int64) list) list"

definition lag_entry :: "string \<Rightarrow> int32 \<Rightarrow> int64 \<Rightarrow> int64 \<Rightarrow> ConsumerLag" where
  "lag_entry tp p committed endOffset =
     (let lag = endOffset - committed;
          lag = (if lag <s 0 then 0 else lag)
      in \<lparr>Topic = tp, Partition = p, CommittedOffset = committed, LogEndOffset = endOffset, Lag = lag\<rparr>)"

definition partition_lag :: "(string \<Rightarrow> int32 \<Rightarrow> int64 option) \<Rightarrow> string \<Rightarrow> int32 \<times> int64 \<Rightarrow> ConsumerLag list" where
  "partition_lag endOffsetsResp tp = (\<lambda>(p, committed).
     case endOffsetsResp tp p of None \<Rightarrow> []
     | Some endOffset \<Rightarrow> [lag_entry tp p committed endOffset])"

definition topic_lags :: "(string \<Rightarrow> int32 \<Rightarrow> int64 option) \<Rightarrow> string \<times> (int32 \<times> int64) list \<Rightarrow> ConsumerLag list" where
  "topic_lags endOffsetsResp = (\<lambda>(tp, partitionOffset). concat (map (partition_lag endOffsetsResp tp) partitionOffset))"

definition CollectConsumerLag ::
  "(string \<Rightarrow> error + offsets) \<Rightarrow> (string list \<Rightarrow> error + (string \<Rightarrow> int32 \<Rightarrow> int64 option)) \<Rightarrow> string
    \<Rightarrow> error + ConsumerLag list" where
  "CollectConsumerLag FetchOffsets ListEndOffsets grp =
     (case FetchOffsets grp of
        Inl err \<Rightarrow> Inl (WrapError ''failed to fetch committed offsets'' err)
      | Inr offsetsResp \<Rightarrow>
        (case ListEndOffsets (map fst offsetsResp) of
           Inl err \<Rightarrow> Inl (WrapError ''failed to fetch log end offsets'' err)
         | Inr endOffsetsResp \<Rightarrow> Inr (concat (map (topic_lags endOffsetsResp) offsetsResp))))"

section \<open>Properties\<close>

abbreviation lag_key :: "ConsumerLag \<Rightarrow> string \<times> int32" where
  "lag_key l \<equiv> (Topic l, Partition l)"

lemma lag_entry_fields [simp]:
  "Topic (lag_entry tp p c e) = tp" "Partition (lag_entry tp p c e) = p"
  "CommittedOffset (lag_entry tp p c e) = c" "LogEndOffset (lag_entry tp p c e) = e"
  by (simp_all add: lag_entry_def Let_def)

lemma partition_lag_set:
  "set (partition_lag ends tp (p, c)) = {lag_entry tp p c e |e. ends tp p = Some e}"
  by (auto simp: partition_lag_def split: option.splits)

lemma topic_lags_set:
  "set (topic_lags ends (tp, ps)) = {lag_entry tp p c e |p c e. (p, c) \<in> set ps \<and> ends tp p = Some e}"
  by (force simp: topic_lags_def partition_lag_set)

lemma topic_lags_keys:
  "lag_key ` set (topic_lags ends (tp, ps)) = {(tp, p) |p. p \<in> fst ` set ps \<and> ends tp p \<noteq> None}"
proof (rule set_eqI)
  fix k show "k \<in> lag_key ` set (topic_lags ends (tp, ps)) \<longleftrightarrow> k \<in> {(tp, p) |p. p \<in> fst ` set ps \<and> ends tp p \<noteq> None}"
    by (cases k) (force simp: topic_lags_set image_iff)
qed

lemma distinct_topic_lags:
  "distinct (map fst ps) \<Longrightarrow> distinct (map lag_key (topic_lags ends (tp, ps)))"
proof (induction ps)
  case (Cons pc ps)
  obtain p c where pc: "pc = (p, c)" by fastforce
  have "(tp, p) \<notin> lag_key ` set (topic_lags ends (tp, ps))"
    using Cons.prems unfolding topic_lags_keys pc by auto
  moreover have "topic_lags ends (tp, pc # ps) = partition_lag ends tp (p, c) @ topic_lags ends (tp, ps)"
    by (simp add: topic_lags_def pc)
  ultimately show ?case using Cons by (cases "ends tp p") (simp_all add: partition_lag_def)
qed (simp add: topic_lags_def)

lemma distinct_all_lags:
  assumes "distinct (map fst resp)" "\<forall>(tp, ps) \<in> set resp. distinct (map fst ps)"
  shows "distinct (map lag_key (concat (map (topic_lags ends) resp)))"
  using assms
proof (induction resp)
  case (Cons r resp)
  obtain tp ps where r: "r = (tp, ps)" by fastforce
  have 1: "Topic l \<in> fst ` set resp" if "l \<in> set (concat (map (topic_lags ends) resp))" for l
    using that by (force simp: topic_lags_set)
  have 2: "Topic l = tp" if "l \<in> set (topic_lags ends r)" for l
    using that unfolding r topic_lags_set by auto
  have "lag_key ` set (topic_lags ends r) \<inter> lag_key ` set (concat (map (topic_lags ends) resp)) = {}"
    using Cons.prems(1) 1 2 unfolding r by fastforce
  moreover have "distinct (map lag_key (topic_lags ends r))"
    using Cons.prems(2) distinct_topic_lags [of ps ends tp] by (simp add: r)
  ultimately show ?case using Cons.IH Cons.prems
    by (simp only: list.map concat.simps map_append distinct_append set_map) simp
qed simp

text \<open>Offsets are at least -1, and the end offset is not the largest integer, so that the difference fits.\<close>

definition offsets_ok :: "offsets \<Rightarrow> (string \<Rightarrow> int32 \<Rightarrow> int64 option) \<Rightarrow> bool" where
  "offsets_ok resp ends \<longleftrightarrow> distinct (map fst resp)
    \<and> (\<forall>(tp, ps) \<in> set resp. distinct (map fst ps)
        \<and> (\<forall>(p, c) \<in> set ps. -1 \<le> sint c \<and> (\<forall>e. ends tp p = Some e \<longrightarrow> 0 \<le> sint e \<and> sint e < 2 ^ 63 - 1)))"

lemma clamped_lag:
  fixes e c :: int64
  assumes "-1 \<le> sint c" "0 \<le> sint e" "sint e < 2 ^ 63 - 1"
  shows "sint (if e - c <s 0 then 0 else e - c) = max 0 (sint e - sint c)"
proof -
  have "sint (e - c) = sint e - sint c"
    using assms sint_range_64 [of c] by (intro sint_diff_64) auto
  then show ?thesis by (simp add: word_sless_alt)
qed

text \<open>
  C39: the lag of a consumer group: whatever the order of the visit, the result has exactly one entry
  for every committed partition whose end offset the broker knows, no two entries are of the same
  partition, each holds the offset that the group has committed for it and the end offset of the broker,
  and its lag is the number of records from the one to the other, and zero when the committed offset is
  ahead. There are entries even for a partition without a commit (offset -1).
\<close>

theorem CollectConsumerLag_spec:
  assumes "FetchOffsets grp = Inr resp" "ListEndOffsets (map fst resp) = Inr ends" "offsets_ok resp ends"
  shows "\<exists>lags. CollectConsumerLag FetchOffsets ListEndOffsets grp = Inr lags
    \<and> distinct (map lag_key lags)
    \<and> lag_key ` set lags = {(tp, p). (\<exists>ps. (tp, ps) \<in> set resp \<and> p \<in> fst ` set ps) \<and> ends tp p \<noteq> None}
    \<and> (\<forall>l \<in> set lags. (\<exists>ps. (Topic l, ps) \<in> set resp \<and> (Partition l, CommittedOffset l) \<in> set ps)
         \<and> ends (Topic l) (Partition l) = Some (LogEndOffset l)
         \<and> sint (Lag l) = max 0 (sint (LogEndOffset l) - sint (CommittedOffset l)))"
proof -
  let ?lags = "concat (map (topic_lags ends) resp)"
  have "CollectConsumerLag FetchOffsets ListEndOffsets grp = Inr ?lags"
    using assms(1,2) by (simp add: CollectConsumerLag_def)
  moreover have "distinct (map lag_key ?lags)"
    using assms(3) by (intro distinct_all_lags) (auto simp: offsets_ok_def)
  moreover have "lag_key ` set ?lags = {(tp, p). (\<exists>ps. (tp, ps) \<in> set resp \<and> p \<in> fst ` set ps) \<and> ends tp p \<noteq> None}"
  proof (rule set_eqI)
    fix k :: "string \<times> int32"
    obtain tp p where k: "k = (tp, p)" by fastforce
    have "k \<in> lag_key ` set ?lags \<longleftrightarrow> (\<exists>(t, ps) \<in> set resp. k \<in> lag_key ` set (topic_lags ends (t, ps)))"
      by auto
    then show "k \<in> lag_key ` set ?lags \<longleftrightarrow> k \<in> {(tp, p). (\<exists>ps. (tp, ps) \<in> set resp \<and> p \<in> fst ` set ps) \<and> ends tp p \<noteq> None}"
      unfolding topic_lags_keys k by auto
  qed
  moreover have "(\<exists>ps. (Topic l, ps) \<in> set resp \<and> (Partition l, CommittedOffset l) \<in> set ps)
      \<and> ends (Topic l) (Partition l) = Some (LogEndOffset l)
      \<and> sint (Lag l) = max 0 (sint (LogEndOffset l) - sint (CommittedOffset l))" if "l \<in> set ?lags" for l
  proof -
    from that obtain tp ps p c e where m: "(tp, ps) \<in> set resp" "(p, c) \<in> set ps" "ends tp p = Some e"
      and l: "l = lag_entry tp p c e" by (auto simp: topic_lags_set)
    have "-1 \<le> sint c \<and> 0 \<le> sint e \<and> sint e < 2 ^ 63 - 1"
      using assms(3) m unfolding offsets_ok_def by fast
    then show ?thesis using clamped_lag [of c e] m by (auto simp: l lag_entry_def Let_def)
  qed
  ultimately show ?thesis by blast
qed

theorem CollectConsumerLag_spec_witness:
  "\<exists>lags. CollectConsumerLag (\<lambda>_. Inr [(''orders'', [(0, 5), (1, 9), (2, 1)])])
      (\<lambda>_. Inr (\<lambda>t p. if p = 0 then Some 12 else if p = 1 then Some 7 else None)) ''g'' = Inr lags
    \<and> distinct (map lag_key lags)
    \<and> (\<lambda>l. (lag_key l, CommittedOffset l, sint (Lag l))) ` set lags = {((''orders'', 0), 5, 7), ((''orders'', 1), 9, 0)}"
proof -
  let ?resp = "[(''orders'', [(0 :: int32, 5 :: int64), (1, 9), (2, 1)])]"
  let ?ends = "\<lambda>(t :: string) (p :: int32). if p = 0 then Some (12 :: int64) else if p = 1 then Some 7 else None"
  have ok: "offsets_ok ?resp ?ends" by (simp add: offsets_ok_def)
  have keys: "{(tp, p). (\<exists>ps. (tp, ps) \<in> set ?resp \<and> p \<in> fst ` set ps) \<and> ?ends tp p \<noteq> None} = {(''orders'', 0), (''orders'', 1)}"
    by auto
  let ?f = "\<lambda>l. (lag_key l, CommittedOffset l, sint (Lag l))"
  obtain lags where lags: "CollectConsumerLag (\<lambda>_. Inr ?resp) (\<lambda>_. Inr ?ends) ''g'' = Inr lags
      \<and> distinct (map lag_key lags) \<and> lag_key ` set lags = {(''orders'', 0), (''orders'', 1)}
      \<and> (\<forall>l \<in> set lags. (\<exists>ps. (Topic l, ps) \<in> set ?resp \<and> (Partition l, CommittedOffset l) \<in> set ps)
         \<and> ?ends (Topic l) (Partition l) = Some (LogEndOffset l)
         \<and> sint (Lag l) = max 0 (sint (LogEndOffset l) - sint (CommittedOffset l)))"
    using CollectConsumerLag_spec [of "\<lambda>_. Inr ?resp" "''g''" ?resp "\<lambda>_. Inr ?ends" ?ends, OF refl refl ok]
    unfolding keys by (elim exE) (rule that)
  then have keys': "lag_key ` set lags = {(''orders'', 0), (''orders'', 1)}" by (elim conjE)
  have known: "lag_key l = (''orders'', p) \<Longrightarrow> l \<in> set lags \<Longrightarrow> p = 0 \<or> p = 1
      \<Longrightarrow> ?f l = (if p = 0 then ((''orders'', 0), 5, 7) else ((''orders'', 1), 9, 0))" for l p
  proof -
    assume l: "lag_key l = (''orders'', p)" "l \<in> set lags" "p = 0 \<or> p = 1"
    then have k: "Topic l = ''orders''" "Partition l = p" by simp_all
    from lags l(2) have "(p, CommittedOffset l) \<in> set [(0, 5), (1, 9), (2, 1)]" "?ends ''orders'' p = Some (LogEndOffset l)"
      "sint (Lag l) = max 0 (sint (LogEndOffset l) - sint (CommittedOffset l))"
      unfolding k [symmetric] by auto
    with l(1,3) show "?f l = (if p = 0 then ((''orders'', 0), 5, 7) else ((''orders'', 1), 9, 0))" by auto
  qed
  have "?f ` set lags = (\<lambda>k. if snd k = 0 then ((''orders'', 0), 5, 7) else ((''orders'', 1), 9, 0)) ` lag_key ` set lags"
    unfolding image_image
  proof (rule image_cong [OF refl])
    fix l assume l: "l \<in> set lags"
    then have "lag_key l \<in> {(''orders'', 0), (''orders'', 1)}" using keys' by blast
    then show "?f l = (if snd (lag_key l) = 0 then ((''orders'', 0), 5, 7) else ((''orders'', 1), 9, 0))"
      using known [OF _ l, of 0] known [OF _ l, of 1] by auto
  qed
  also have "\<dots> = {((''orders'', 0), 5, 7), ((''orders'', 1), 9, 0)}" unfolding keys' by auto
  finally show ?thesis using lags by blast
qed

text \<open>No two services of the default configuration share a topic.\<close>

lemma default_topics_distinct: "distinct (topics DefaultConfig)"
  by (simp add: topics_def DefaultConfig_def topic_defs)

lemma default_topics_prefix: "list_all (\<lambda>t. HasPrefix t ''dora.network.'') (topics DefaultConfig)"
  by (simp add: topics_def DefaultConfig_def topic_defs HasPrefix_def)

text \<open>The client authenticates exactly when both a user name and a password are configured.\<close>

lemma NewClient_options:
  "NewClient Inr config produceTopic grp consumeTopics = Inr opts
   \<Longrightarrow> (\<exists>u p. kgo_SASL_plain u p \<in> set opts)
       = (Username (Authentication config) \<noteq> '''' \<and> Password (Authentication config) \<noteq> '''')"
  by (auto simp: NewClient_def Let_def split: if_splits)

end
