(* ===== verification/CacheMachine.thy ===== *)
theory CacheMachine
  imports Kafka Runs
begin

text \<open>
  \<open>src/cache\<close>: the cache that a goroutine fills from Kafka. The options and the operations are
  functions; the goroutines, the calls on the cache and the cancelling of contexts are the steps of
  the relation \<open>step\<close>, so that every interleaving of them is one of its \<open>runs\<close>. A context is a number. The
  client is a record of operations on an arbitrary type of worlds, and the function that processes
  the fetched records is any function; both may depend on anything that the world records, which
  changes by steps of its own. The critical sections under the mutex are single steps, because the
  parts of the state that they change are not accessed without it; the status is, and the code that
  reads and writes it outside of the mutex has its own steps. \<open>Init\<close> is one step although it does not hold
  the mutex: two calls that overlap could each create a client, and the later one would be kept. A call
  that panics ends the program and is not a step. The logger is left out.
\<close>

section \<open>Options\<close>

datatype Status = StatusNotReady | StatusReady | StatusRunning | StatusStopped

text \<open>The constants are numbered in this order (\<open>iota\<close>), which orders them.\<close>

fun status_number :: "Status \<Rightarrow> nat" where
  "status_number StatusNotReady = 0" | "status_number StatusReady = 1"
| "status_number StatusRunning = 2" | "status_number StatusStopped = 3"

lemma status_number_inject: "status_number s = status_number t \<longleftrightarrow> s = t"
  by (cases s; cases t) simp_all

instantiation Status :: linorder
begin

definition less_eq_Status :: "Status \<Rightarrow> Status \<Rightarrow> bool" where
  "s \<le> t \<longleftrightarrow> status_number s \<le> status_number t"

definition less_Status :: "Status \<Rightarrow> Status \<Rightarrow> bool" where
  "s < t \<longleftrightarrow> status_number s < status_number t"

instance
  by standard (auto simp: less_eq_Status_def less_Status_def status_number_inject)

end

record 'r FetchPartition =
  PartitionNr :: int32
  Err :: "error option"
  Records :: "'r list"

record 'r FetchTopic =
  TopicName :: string
  Partitions :: "'r FetchPartition list"

type_synonym 'r Fetches = "'r FetchTopic list list"
type_synonym ctx = nat

record ('r, 'w) KafkaClient =
  PollRecords :: "ctx \<Rightarrow> int64 \<Rightarrow> int64 \<Rightarrow> 'w \<Rightarrow> 'r Fetches \<times> 'w"
  CommitUncommittedOffsets :: "ctx \<Rightarrow> 'w \<Rightarrow> error option \<times> 'w"
  CommitMarkedOffsets :: "ctx \<Rightarrow> 'w \<Rightarrow> error option \<times> 'w"
  MarkCommitRecords :: "'r list \<Rightarrow> 'w \<Rightarrow> 'w"
  CloseClient :: "'w \<Rightarrow> 'w"

type_synonym ('k, 'v, 'r, 'w) ProcessRecordsFunc =
  "ctx \<Rightarrow> int64 \<Rightarrow> ('r, 'w) KafkaClient \<Rightarrow> 'r Fetches \<Rightarrow> ('k \<rightharpoonup> 'v) \<times> 'w \<Rightarrow> error option \<times> ('k \<rightharpoonup> 'v) \<times> 'w"

record ('k, 'v, 'r, 'w) options =
  config :: KafkaConfig
  consumeTopics :: "string list"
  consumerGroup :: string
  pollTimeout :: int64
  maxPollRecords :: int64
  userID :: string
  password :: string
  processFunc :: "('k, 'v, 'r, 'w) ProcessRecordsFunc"
  client :: "('r, 'w) KafkaClient option"
  processTimeout :: int64

type_synonym ('k, 'v, 'r, 'w) Option = "('k, 'v, 'r, 'w) options \<Rightarrow> ('k, 'v, 'r, 'w) options"

definition WithKafkaConfig :: "KafkaConfig \<Rightarrow> ('k, 'v, 'r, 'w) Option" where
  "WithKafkaConfig c = (\<lambda>o'. o'\<lparr>config := c\<rparr>)"

definition WithBrokers :: "string list \<Rightarrow> ('k, 'v, 'r, 'w) Option" where
  "WithBrokers brokers = (\<lambda>o'. o'\<lparr>config := (config o')\<lparr>Brokers := brokers\<rparr>\<rparr>)"

definition WithConsumeTopics :: "string list \<Rightarrow> ('k, 'v, 'r, 'w) Option" where
  "WithConsumeTopics ts = (\<lambda>o'. o'\<lparr>consumeTopics := ts\<rparr>)"

definition WithConsumerGroup :: "string \<Rightarrow> ('k, 'v, 'r, 'w) Option" where
  "WithConsumerGroup g = (\<lambda>o'. o'\<lparr>consumerGroup := g\<rparr>)"

definition WithPollTimeout :: "int64 \<Rightarrow> ('k, 'v, 'r, 'w) Option" where
  "WithPollTimeout timeout = (\<lambda>o'. o'\<lparr>pollTimeout := timeout\<rparr>)"

definition WithMaxPollRecords :: "int64 \<Rightarrow> ('k, 'v, 'r, 'w) Option" where
  "WithMaxPollRecords n = (\<lambda>o'. o'\<lparr>maxPollRecords := n\<rparr>)"

definition WithUserID :: "string \<Rightarrow> ('k, 'v, 'r, 'w) Option" where
  "WithUserID u = (\<lambda>o'. o'\<lparr>userID := u\<rparr>)"

definition WithPassword :: "string \<Rightarrow> ('k, 'v, 'r, 'w) Option" where
  "WithPassword p = (\<lambda>o'. o'\<lparr>password := p\<rparr>)"

definition WithProcessFunc :: "('k, 'v, 'r, 'w) ProcessRecordsFunc \<Rightarrow> ('k, 'v, 'r, 'w) Option" where
  "WithProcessFunc f = (\<lambda>o'. o'\<lparr>processFunc := f\<rparr>)"

definition WithClient :: "('r, 'w) KafkaClient option \<Rightarrow> ('k, 'v, 'r, 'w) Option" where
  "WithClient c = (\<lambda>o'. o'\<lparr>client := c\<rparr>)"

definition WithProcessTimeout :: "int64 \<Rightarrow> ('k, 'v, 'r, 'w) Option" where
  "WithProcessTimeout timeout = (\<lambda>o'. o'\<lparr>processTimeout := timeout\<rparr>)"

text \<open>The function that processes records by default: it only marks and commits them.\<close>

fun process_partitions :: "ctx \<Rightarrow> ('r, 'w) KafkaClient \<Rightarrow> 'r FetchPartition list \<Rightarrow> 'w \<Rightarrow> error option \<times> 'w" where
  "process_partitions ctx c [] w = (None, w)"
| "process_partitions ctx c (p # ps) w =
     (case Err p of Some err \<Rightarrow> (Some err, w)
      | None \<Rightarrow>
        (case CommitMarkedOffsets c ctx (fold (\<lambda>record. MarkCommitRecords c [record]) (Records p) w) of
           (Some err, w) \<Rightarrow> (Some err, w)
         | (None, w) \<Rightarrow> process_partitions ctx c ps w))"

fun process_topics :: "ctx \<Rightarrow> ('r, 'w) KafkaClient \<Rightarrow> 'r FetchTopic list \<Rightarrow> 'w \<Rightarrow> error option \<times> 'w" where
  "process_topics ctx c [] w = (None, w)"
| "process_topics ctx c (t # ts) w =
     (case process_partitions ctx c (Partitions t) w of
        (Some err, w) \<Rightarrow> (Some err, w)
      | (None, w) \<Rightarrow> process_topics ctx c ts w)"

fun process_fetches :: "ctx \<Rightarrow> ('r, 'w) KafkaClient \<Rightarrow> 'r Fetches \<Rightarrow> 'w \<Rightarrow> error option \<times> 'w" where
  "process_fetches ctx c [] w = (None, w)"
| "process_fetches ctx c (f # fs) w =
     (case process_topics ctx c f w of
        (Some err, w) \<Rightarrow> (Some err, w)
      | (None, w) \<Rightarrow> process_fetches ctx c fs w)"

definition processRecordsFunc :: "('k, 'v, 'r, 'w) ProcessRecordsFunc" where
  "processRecordsFunc ctx timeout c fetches = (\<lambda>(cache, w).
     case process_fetches ctx c fetches w of (err, w) \<Rightarrow> (err, cache, w))"

definition Second :: int64 where "Second = 1000000000"

definition defaultOptions :: "('k, 'v, 'r, 'w) options" where
  "defaultOptions = \<lparr>config = DefaultConfig, consumeTopics = [], consumerGroup = '''', pollTimeout = Second,
     maxPollRecords = 0, userID = '''', password = '''', processFunc = processRecordsFunc, client = None,
     processTimeout = Second\<rparr>"

definition applyOptions :: "('k, 'v, 'r, 'w) Option list \<Rightarrow> ('k, 'v, 'r, 'w) options" where
  "applyOptions opts = fold (\<lambda>apply_opt. apply_opt) opts defaultOptions"

section \<open>The cache\<close>

text \<open>\<open>cancelFunc\<close> is the context that it cancels, or nothing when it is nil.\<close>

record ('k, 'v, 'r, 'w) Cache =
  opts :: "('k, 'v, 'r, 'w) options"
  cancelFunc :: "ctx option"
  records :: "'k \<rightharpoonup> 'v"
  status :: Status

definition New :: "('k, 'v, 'r, 'w) Option list \<Rightarrow> ('k, 'v, 'r, 'w) Cache" where
  "New os = \<lparr>opts = applyOptions os, cancelFunc = None, records = Map.empty, status = StatusNotReady\<rparr>"

definition Ready :: "('k, 'v, 'r, 'w) Cache \<Rightarrow> bool" where
  "Ready c = (status c = StatusReady)"

definition Init_opts :: "string \<Rightarrow> ('k, 'v, 'r, 'w) options \<Rightarrow> kgo_opt list" where
  "Init_opts default_group o' =
     (let ks = [kgo_SeedBrokers (Brokers (config o')), kgo_ConsumeTopics (consumeTopics o')];
          ks = (if consumerGroup o' \<noteq> '''' then ks @ [kgo_ConsumerGroup (consumerGroup o')]
                else ks @ [kgo_ConsumerGroup default_group])
      in if userID o' \<noteq> '''' \<and> password o' \<noteq> '''' then ks @ [kgo_SASL_plain (userID o') (password o')] else ks)"

definition Init ::
  "(kgo_opt list \<Rightarrow> error + ('r, 'w) KafkaClient) \<Rightarrow> string \<Rightarrow> ('k, 'v, 'r, 'w) Cache \<Rightarrow> error option \<times> ('k, 'v, 'r, 'w) Cache" where
  "Init kgo_NewClient default_group c =
     (if client (opts c) \<noteq> None then (None, c\<lparr>status := StatusReady\<rparr>)
      else case kgo_NewClient (Init_opts default_group (opts c)) of
        Inl err \<Rightarrow> (Some err, c)
      | Inr cl \<Rightarrow> (None, c\<lparr>opts := (opts c)\<lparr>client := Some cl\<rparr>, status := StatusReady\<rparr>))"

text \<open>\<open>Start\<close> first looks at the status and then stores the new context and starts the goroutine.\<close>

definition Start_check :: "('k, 'v, 'r, 'w) Cache \<Rightarrow> error option" where
  "Start_check c =
     (if status c = StatusNotReady then Some (ErrorString ''cache not initialized'')
      else if status c = StatusRunning then Some (ErrorString ''cache already running'')
      else None)"

definition Start_go :: "ctx \<Rightarrow> ('k, 'v, 'r, 'w) Cache \<Rightarrow> ('k, 'v, 'r, 'w) Cache" where
  "Start_go ctx c = c\<lparr>cancelFunc := Some ctx\<rparr>"

text \<open>
  \<open>Stop\<close> gives the context to cancel; \<open>None\<close> is the panic of calling a nil \<open>cancelFunc\<close>, which comes after
  the status has been set.
\<close>

definition Stop :: "('k, 'v, 'r, 'w) Cache \<Rightarrow> ctx option \<times> ('k, 'v, 'r, 'w) Cache" where
  "Stop c = (let c = c\<lparr>status := StatusStopped\<rparr> in (cancelFunc c, c))"

definition Cache_Status :: "('k, 'v, 'r, 'w) Cache \<Rightarrow> Status" where
  "Cache_Status c = status c"

text \<open>\<open>Records\<close> returns the map itself; see \<open>leaked\<close> below.\<close>

definition Cache_Records :: "('k, 'v, 'r, 'w) Cache \<Rightarrow> 'k \<rightharpoonup> 'v" where
  "Cache_Records c = records c"

definition Get :: "'k \<Rightarrow> ('k, 'v, 'r, 'w) Cache \<Rightarrow> 'v option" where
  "Get key c = records c key"

section \<open>Steps\<close>

text \<open>
  The control points of the goroutine: before it has set the status and read the client from the
  options (a nil client would panic later; it never is nil, see \<open>machine_inv\<close>), at the head of its
  loop, with fetched records that are to be processed, on its way out, and ended.
\<close>

datatype ('r, 'w) pc =
    Enter
  | Loop "('r, 'w) KafkaClient"
  | Fetched "('r, 'w) KafkaClient" "'r Fetches"
  | Leave "('r, 'w) KafkaClient"
  | Finished

text \<open>
  \<open>starting\<close> counts the calls of \<open>Start\<close> that have passed their checks, \<open>leaked\<close> tells whether
  \<open>Records\<close> has been called: it returns the map itself, which the caller can read and write at any time.
\<close>

record ('k, 'v, 'r, 'w) machine =
  cache :: "('k, 'v, 'r, 'w) Cache"
  world :: 'w
  next_ctx :: ctx
  cancelled :: "ctx set"
  starting :: nat
  pollers :: "(ctx \<times> ('r, 'w) pc) list"
  leaked :: bool

abbreviation goto :: "nat \<Rightarrow> ctx \<Rightarrow> ('r, 'w) pc \<Rightarrow> ('k, 'v, 'r, 'w) machine \<Rightarrow> ('k, 'v, 'r, 'w) machine" where
  "goto i ctx p m \<equiv> m\<lparr>pollers := (pollers m)[i := (ctx, p)]\<rparr>"

text \<open>The next step of the goroutine \<open>i\<close>.\<close>

definition poller_step :: "nat \<Rightarrow> ('k, 'v, 'r, 'w) machine \<Rightarrow> ('k, 'v, 'r, 'w) machine option" where
  "poller_step i m =
     (if i < length (pollers m) then
        (case pollers m ! i of (ctx, p) \<Rightarrow>
          (case p of
             Enter \<Rightarrow> (case client (opts (cache m)) of None \<Rightarrow> None
               | Some c \<Rightarrow> Some (goto i ctx (Loop c) (m\<lparr>cache := (cache m)\<lparr>status := StatusRunning\<rparr>\<rparr>)))
           | Loop c \<Rightarrow>
               if ctx \<in> cancelled m then Some (goto i ctx (Leave c) m)
               else let (fetches, w) = PollRecords c ctx (pollTimeout (opts (cache m))) (maxPollRecords (opts (cache m))) (world m)
                    in Some (goto i ctx (Fetched c fetches) (m\<lparr>world := w\<rparr>))
           | Fetched c fetches \<Rightarrow>
               let (err, recs, w) = processFunc (opts (cache m)) ctx (processTimeout (opts (cache m))) c fetches
                     (records (cache m), world m)
               in Some (goto i ctx (Loop c) (m\<lparr>cache := (cache m)\<lparr>records := recs\<rparr>, world := w\<rparr>))
           | Leave c \<Rightarrow>
               let (err, w) = CommitUncommittedOffsets c ctx (world m)
               in Some (goto i ctx Finished (m\<lparr>world := (if err \<noteq> None then CloseClient c w else w)\<rparr>))
           | Finished \<Rightarrow> None))
      else None)"

datatype action = DoInit | StartCheck | StartGo | DoStop | DoRecords | Write_Records | Cancel ctx | Poller nat | World

inductive step ::
  "(kgo_opt list \<Rightarrow> error + ('r, 'w) KafkaClient) \<Rightarrow> string \<Rightarrow> action
    \<Rightarrow> ('k, 'v, 'r, 'w) machine \<Rightarrow> ('k, 'v, 'r, 'w) machine \<Rightarrow> bool"
  for kgo_NewClient default_group where
  s_init: "Init kgo_NewClient default_group (cache m) = (err, c) \<Longrightarrow> step kgo_NewClient default_group DoInit m (m\<lparr>cache := c\<rparr>)"
| s_start_check: "Start_check (cache m) = None \<Longrightarrow> step kgo_NewClient default_group StartCheck m (m\<lparr>starting := Suc (starting m)\<rparr>)"
| s_start_go: "starting m = Suc n \<Longrightarrow> step kgo_NewClient default_group StartGo m
    (m\<lparr>cache := Start_go (next_ctx m) (cache m), next_ctx := Suc (next_ctx m), starting := n,
       pollers := pollers m @ [(next_ctx m, Enter)]\<rparr>)"
| s_stop: "Stop (cache m) = (Some ctx, c) \<Longrightarrow> step kgo_NewClient default_group DoStop m
    (m\<lparr>cache := c, cancelled := insert ctx (cancelled m)\<rparr>)"
| s_records: "step kgo_NewClient default_group DoRecords m (m\<lparr>leaked := True\<rparr>)"
| s_write: "leaked m \<Longrightarrow> step kgo_NewClient default_group Write_Records m (m\<lparr>cache := (cache m)\<lparr>records := r\<rparr>\<rparr>)"
| s_cancel: "ctx < next_ctx m \<Longrightarrow> step kgo_NewClient default_group (Cancel ctx) m (m\<lparr>cancelled := insert ctx (cancelled m)\<rparr>)"
| s_poller: "poller_step i m = Some m' \<Longrightarrow> step kgo_NewClient default_group (Poller i) m m'"
| s_world: "step kgo_NewClient default_group World m (m\<lparr>world := w\<rparr>)"

inductive_cases stepE: "step K g a m m'"
inductive_simps step_poller: "step K g (Poller i) m m'"

definition initial :: "('k, 'v, 'r, 'w) Option list \<Rightarrow> 'w \<Rightarrow> ('k, 'v, 'r, 'w) machine" where
  "initial os w = \<lparr>cache = New os, world = w, next_ctx = 0, cancelled = {}, starting = 0, pollers = [], leaked = False\<rparr>"

section \<open>The invariant\<close>

definition ended :: "('r, 'w) pc \<Rightarrow> bool" where
  "ended p = (case p of Leave c \<Rightarrow> True | Finished \<Rightarrow> True | _ \<Rightarrow> False)"

text \<open>
  A cache that is not ready has not been started and is empty; any other has its client; the
  goroutines are numbered by their contexts, \<open>cancelFunc\<close> cancels the newest, and none ends without
  having been cancelled.
\<close>

definition machine_inv :: "('k, 'v, 'r, 'w) machine \<Rightarrow> bool" where
  "machine_inv m \<longleftrightarrow>
     (status (cache m) = StatusNotReady \<longrightarrow> pollers m = [] \<and> starting m = 0 \<and> (records (cache m) = Map.empty \<or> leaked m))
   \<and> (status (cache m) \<noteq> StatusNotReady \<longrightarrow> client (opts (cache m)) \<noteq> None)
   \<and> map fst (pollers m) = [0..<next_ctx m]
   \<and> cancelFunc (cache m) = (if next_ctx m = 0 then None else Some (next_ctx m - 1))
   \<and> (\<forall>ctx p. (ctx, p) \<in> set (pollers m) \<longrightarrow> ended p \<longrightarrow> ctx \<in> cancelled m)"

lemma machine_inv_length: "machine_inv m \<Longrightarrow> length (pollers m) = next_ctx m"
  unfolding machine_inv_def by (metis length_map length_upt minus_nat.diff_0)

lemma machine_inv_nth:
  assumes "machine_inv m" "i < next_ctx m"
  shows "fst (pollers m ! i) = i" "pollers m ! i \<in> set (pollers m)"
proof -
  have l: "i < length (pollers m)" using assms machine_inv_length by metis
  then show "pollers m ! i \<in> set (pollers m)" by simp
  have "map fst (pollers m) ! i = [0..<next_ctx m] ! i" using assms(1) by (simp add: machine_inv_def)
  then show "fst (pollers m ! i) = i" using l assms(2) by simp
qed

lemma initial_inv: "machine_inv (initial os w)"
  by (simp add: machine_inv_def initial_def New_def)

fun rank :: "('r, 'w) pc \<Rightarrow> nat" where
  "rank Enter = 3" | "rank (Fetched c f) = 3" | "rank (Loop c) = 2" | "rank (Leave c) = 1" | "rank Finished = 0"

lemma rank_le: "rank p \<le> 3"
  by (cases p) auto

lemma rank_0: "rank p = 0 \<longleftrightarrow> p = Finished"
  by (cases p) auto

lemma poller_stepE:
  assumes "poller_step i m = Some m'"
  obtains ctx p q where "i < length (pollers m)" "pollers m ! i = (ctx, p)"
    "pollers m' = (pollers m)[i := (ctx, q)]" "p \<noteq> Finished"
    "ctx \<in> cancelled m \<Longrightarrow> Suc (rank q) = rank p" "ended q \<Longrightarrow> ended p \<or> ctx \<in> cancelled m"
    "next_ctx m' = next_ctx m" "cancelled m' = cancelled m" "starting m' = starting m" "leaked m' = leaked m"
    "opts (cache m') = opts (cache m)" "cancelFunc (cache m') = cancelFunc (cache m)"
    "status (cache m') = (if p = Enter then StatusRunning else status (cache m))"
    "records (cache m') = (case p of Fetched c f \<Rightarrow> fst (snd (processFunc (opts (cache m)) ctx
        (processTimeout (opts (cache m))) c f (records (cache m), world m))) | _ \<Rightarrow> records (cache m))"
proof -
  obtain ctx p where cp: "pollers m ! i = (ctx, p)" by fastforce
  have i: "i < length (pollers m)" using assms by (auto simp: poller_step_def split: if_splits)
  consider (enter) "p = Enter" | (loop) c where "p = Loop c" | (fetched) c f where "p = Fetched c f"
    | (leave) c where "p = Leave c" | (fin) "p = Finished" by (cases p) auto
  then show ?thesis
  proof cases
    case enter
    show ?thesis by (rule that [OF i cp, of "snd (pollers m' ! i)"]) (use assms i cp enter in \<open>auto simp: poller_step_def ended_def split: option.splits\<close>)
  next
    case loop
    show ?thesis by (rule that [OF i cp, of "snd (pollers m' ! i)"]) (use assms i cp loop in \<open>auto simp: poller_step_def ended_def Let_def split: if_splits prod.splits\<close>)
  next
    case fetched
    show ?thesis by (rule that [OF i cp, of "snd (pollers m' ! i)"]) (use assms i cp fetched in \<open>auto simp: poller_step_def ended_def Let_def split: prod.splits\<close>)
  next
    case leave
    show ?thesis by (rule that [OF i cp, of "snd (pollers m' ! i)"]) (use assms i cp leave in \<open>auto simp: poller_step_def ended_def Let_def split: prod.splits\<close>)
  next
    case fin
    then show ?thesis using assms i cp by (simp add: poller_step_def)
  qed
qed

lemma poller_step_inv:
  assumes inv: "machine_inv m" and st: "poller_step i m = Some m'"
  shows "machine_inv m'"
proof -
  from st obtain ctx p q where q: "i < length (pollers m)" "pollers m ! i = (ctx, p)"
    "pollers m' = (pollers m)[i := (ctx, q)]" "ended q \<Longrightarrow> ended p \<or> ctx \<in> cancelled m"
    "next_ctx m' = next_ctx m" "cancelled m' = cancelled m"
    "opts (cache m') = opts (cache m)" "cancelFunc (cache m') = cancelFunc (cache m)"
    "status (cache m') = (if p = Enter then StatusRunning else status (cache m))"
    by (elim poller_stepE) (metis (no_types))
  have started: "status (cache m) \<noteq> StatusNotReady" using inv q(1) by (auto simp: machine_inv_def)
  then have s': "status (cache m') \<noteq> StatusNotReady" by (simp add: q(9))
  have fsts: "map fst (pollers m') = [0..<next_ctx m']"
  proof -
    have "map fst (pollers m') = (map fst (pollers m))[i := ctx]" by (simp add: q(3) map_update)
    also have "\<dots> = map fst (pollers m)" using q(1,2) by (metis fst_conv list_update_id nth_map)
    finally show ?thesis using inv q(5) by (simp add: machine_inv_def)
  qed
  have "c \<in> cancelled m'" if "(c, r) \<in> set (pollers m')" "ended r" for c r
  proof -
    have "(c, r) = (ctx, q) \<or> (c, r) \<in> set (pollers m)" using that(1) q(3) set_update_subset_insert by fastforce
    then show ?thesis
    proof
      assume "(c, r) = (ctx, q)"
      then have "ended p \<or> ctx \<in> cancelled m" "c = ctx" using q(4) that(2) by auto
      moreover have "(ctx, p) \<in> set (pollers m)" using q(1,2) by (metis nth_mem)
      ultimately show ?thesis using inv q(6) unfolding machine_inv_def by auto
    next
      assume "(c, r) \<in> set (pollers m)"
      then show ?thesis using inv that(2) q(6) unfolding machine_inv_def by auto
    qed
  qed
  then show ?thesis using inv s' fsts started unfolding machine_inv_def q(5,7,8) by auto
qed

lemma step_inv:
  assumes "step K g a m m'" "machine_inv m"
  shows "machine_inv m'"
  using assms
proof cases
  case (s_init err c)
  then show ?thesis using assms(2)
    by (auto simp: machine_inv_def Init_def split: if_splits sum.splits)
next
  case (s_start_check)
  then show ?thesis using assms(2) by (auto simp: machine_inv_def Start_check_def split: if_splits)
next
  case (s_start_go n)
  then show ?thesis using assms(2) by (auto simp: machine_inv_def Start_go_def ended_def)
next
  case (s_stop ctx c)
  then have c: "c = (cache m)\<lparr>status := StatusStopped\<rparr>" "cancelFunc (cache m) \<noteq> None"
    by (auto simp: Stop_def)
  then have "pollers m \<noteq> []" using assms(2) machine_inv_length [OF assms(2)] by (auto simp: machine_inv_def split: if_splits)
  then have "client (opts (cache m)) \<noteq> None" using assms(2) by (auto simp: machine_inv_def)
  then show ?thesis using assms(2) s_stop c by (auto simp: machine_inv_def)
next
  case (s_poller i)
  then show ?thesis using poller_step_inv assms(2) by blast
qed (use assms(2) in \<open>auto simp: machine_inv_def\<close>)

lemma step_mono:
  assumes "step K g a m m'"
  shows "cancelled m \<subseteq> cancelled m'" "next_ctx m \<le> next_ctx m'" "leaked m \<Longrightarrow> leaked m'"
proof -
  have "cancelled m \<subseteq> cancelled m' \<and> next_ctx m \<le> next_ctx m' \<and> (leaked m \<longrightarrow> leaked m')"
    using assms by cases (auto elim: poller_stepE)
  then show "cancelled m \<subseteq> cancelled m'" "next_ctx m \<le> next_ctx m'" "leaked m \<Longrightarrow> leaked m'" by auto
qed

interpretation machine: progress "step K g" machine_inv
  "\<lambda>m m'. cancelled m \<subseteq> cancelled m' \<and> next_ctx m \<le> next_ctx m'"
  for K :: "kgo_opt list \<Rightarrow> error + ('r, 'w) KafkaClient" and g
  by unfold_locales (use step_mono step_inv in \<open>(fastforce)+\<close>)

text \<open>A cache that has been initialised stays so: its status never goes back below \<open>StatusReady\<close>.\<close>

lemma step_initialised:
  assumes "step K g a m m'" "StatusReady \<le> status (cache m)"
  shows "StatusReady \<le> status (cache m')"
  using assms(1)
proof cases
  case (s_poller i)
  from s_poller(2) show ?thesis
    by (rule poller_stepE) (use assms(2) in \<open>simp add: less_eq_Status_def\<close>)
qed (use assms(2) in \<open>auto simp: Init_def Start_go_def Stop_def less_eq_Status_def split: if_splits sum.splits option.splits\<close>)

interpretation initialised: invariant "step K g" "\<lambda>m. StatusReady \<le> status (cache m)"
  for K :: "kgo_opt list \<Rightarrow> error + ('r, 'w) KafkaClient" and g
  by unfold_locales (rule step_initialised)

lemma reachable_inv: "runs (step K g) (initial os w) as m \<Longrightarrow> machine_inv m"
  by (rule machine.runs_inv [OF _ initial_inv])

text \<open>A step of another kind, or of another goroutine, leaves a goroutine where it is.\<close>

lemma step_pollers:
  assumes "step K g a m m'" "i < length (pollers m)"
  shows "i < length (pollers m')" "a \<noteq> Poller i \<Longrightarrow> pollers m' ! i = pollers m ! i"
proof -
  have "i < length (pollers m') \<and> (a \<noteq> Poller i \<longrightarrow> pollers m' ! i = pollers m ! i)"
    using assms
  proof cases
    case (s_poller j)
    from s_poller(2) show ?thesis
    proof (rule poller_stepE)
      fix ctx p q assume "pollers m' = (pollers m)[j := (ctx, q)]"
      then show ?thesis using assms(2) s_poller(1) by simp
    qed
  qed (simp_all add: nth_append)
  then show "i < length (pollers m')" "a \<noteq> Poller i \<Longrightarrow> pollers m' ! i = pollers m ! i" by auto
qed

section \<open>Properties\<close>

lemma poller_progress:
  assumes "machine_inv m" "i < next_ctx m" "snd (pollers m ! i) \<noteq> Finished"
  shows "\<exists>m'. poller_step i m = Some m'"
proof -
  have i: "i < length (pollers m)" using assms(1,2) machine_inv_length by metis
  then have "pollers m \<noteq> []" by auto
  then have "client (opts (cache m)) \<noteq> None" using assms(1) by (auto simp: machine_inv_def)
  then show ?thesis using i assms(3)
    by (cases "pollers m ! i"; cases "snd (pollers m ! i)") (auto simp: poller_step_def Let_def split: prod.splits)
qed

text \<open>
  C15: what holds of a cache at every moment of every run, whatever the interleaving: as soon as it has
  been initialised it has a client, before that it is empty and nothing runs; there is one goroutine
  per successful \<open>Start\<close>, \<open>cancelFunc\<close> cancels the newest, and none ends without having been cancelled;
  and a goroutine that has not ended can always take its next step (it never meets a nil client).
\<close>

theorem cache_reachable:
  assumes "runs (step K g) (initial os w) as m"
  shows "machine_inv m \<and> (\<forall>i < next_ctx m. snd (pollers m ! i) = Finished \<or> (\<exists>m'. step K g (Poller i) m m'))"
  using reachable_inv [OF assms] poller_progress by (auto simp: step_poller)

text \<open>The steps of a cancelled goroutine use up its rank.\<close>

lemma cancelled_rank:
  assumes "runs (step K g) m as m'" "i < length (pollers m)" "fst (pollers m ! i) \<in> cancelled m"
  shows "i < length (pollers m') \<and> fst (pollers m' ! i) \<in> cancelled m'
    \<and> rank (snd (pollers m' ! i)) + count_list as (Poller i) = rank (snd (pollers m ! i))"
  using assms
proof (induction rule: runs.induct)
  case (run_step as m' a m'')
  then have IH: "i < length (pollers m')" "fst (pollers m' ! i) \<in> cancelled m'"
    "rank (snd (pollers m' ! i)) + count_list as (Poller i) = rank (snd (pollers m ! i))" by auto
  show ?case
  proof (cases "a = Poller i")
    case False
    then show ?thesis
      using IH step_pollers [OF run_step.hyps(2) IH(1)] step_mono(1) [OF run_step.hyps(2)] by auto
  next
    case True
    then have "poller_step i m' = Some m''" using run_step.hyps(2) by (simp add: step_poller)
    then obtain ctx p q where "pollers m' ! i = (ctx, p)" "pollers m'' = (pollers m')[i := (ctx, q)]"
      "ctx \<in> cancelled m' \<Longrightarrow> Suc (rank q) = rank p" "cancelled m'' = cancelled m'"
      by (elim poller_stepE) (metis (no_types))
    then show ?thesis using IH True by simp
  qed
qed simp

text \<open>
  C17: stopping terminates: once the context of a goroutine is cancelled it takes at most three steps
  more, after the first of them it holds no fetched records again (so at most that one processes
  records), it is never stuck before its end, and no interleaving with other steps changes that.
\<close>

theorem cancelled_goroutine_ends:
  assumes "runs (step K g) (initial os w) before m" "i < next_ctx m" "i \<in> cancelled m" "runs (step K g) m as m'"
  shows "count_list as (Poller i) \<le> 3
    \<and> (count_list as (Poller i) = 3 \<longrightarrow> snd (pollers m' ! i) = Finished)
    \<and> (0 < count_list as (Poller i) \<longrightarrow> (\<forall>c fetches. snd (pollers m' ! i) \<noteq> Fetched c fetches))
    \<and> (snd (pollers m' ! i) = Finished \<or> (\<exists>m''. step K g (Poller i) m' m''))"
proof -
  have inv: "machine_inv m" "machine_inv m'" using reachable_inv [OF assms(1)] machine.runs_inv [OF assms(4)] by blast+
  have i: "i < length (pollers m)" "fst (pollers m ! i) = i" "i < next_ctx m'"
    using assms(2) machine_inv_length [OF inv(1)] machine_inv_nth(1) [OF inv(1)] machine.runs_rel [OF assms(4) inv(1)] by auto
  from cancelled_rank [OF assms(4) i(1)]
  have r: "rank (snd (pollers m' ! i)) + count_list as (Poller i) = rank (snd (pollers m ! i))"
    using assms(3) i(2) by simp
  moreover note rank_le [of "snd (pollers m ! i)"]
  ultimately have "count_list as (Poller i) \<le> 3" "count_list as (Poller i) = 3 \<longrightarrow> rank (snd (pollers m' ! i)) = 0"
    "0 < count_list as (Poller i) \<longrightarrow> rank (snd (pollers m' ! i)) \<noteq> 3"
    by linarith+
  then show ?thesis
    using poller_progress [OF inv(2) i(3)] by (auto simp: step_poller rank_0)
qed

text \<open>
  C36: as long as \<open>Records\<close> has not handed out the map, only a goroutine that holds fetched records changes
  it, and what it becomes is what the process function makes of the map, even when that function
  reports an error; \<open>Init\<close>, \<open>Start\<close> and \<open>Stop\<close> leave the records alone.
\<close>

theorem records_guarded:
  assumes "runs (step K g) (initial os w) before m" "step K g a m m'" "\<not> leaked m" "records (cache m') \<noteq> records (cache m)"
  shows "\<exists>i c fetches err w'. a = Poller i \<and> pollers m ! i = (i, Fetched c fetches)
    \<and> processFunc (opts (cache m)) i (processTimeout (opts (cache m))) c fetches (records (cache m), world m)
        = (err, records (cache m'), w')"
  using assms(2)
proof cases
  case (s_init err c)
  then show ?thesis using assms(4) by (auto simp: Init_def split: if_splits sum.splits)
next
  case (s_start_go n)
  then show ?thesis using assms(4) by (simp add: Start_go_def)
next
  case (s_stop ctx c)
  then show ?thesis using assms(4) by (auto simp: Stop_def split: option.splits)
next
  case (s_poller i)
  from s_poller(2) show ?thesis
  proof (rule poller_stepE)
    fix ctx p q
    assume p: "i < length (pollers m)" "pollers m ! i = (ctx, p)"
      and r: "records (cache m') = (case p of Fetched c f \<Rightarrow> fst (snd (processFunc (opts (cache m)) ctx
        (processTimeout (opts (cache m))) c f (records (cache m), world m))) | _ \<Rightarrow> records (cache m))"
    note inv = reachable_inv [OF assms(1)]
    have "i < next_ctx m" using p(1) by (simp add: machine_inv_length [OF inv])
    then have ctx: "ctx = i" using machine_inv_nth(1) [OF inv, of i] p(2) by simp
    obtain c f where f: "p = Fetched c f" using r assms(4) by (cases p) auto
    obtain err recs w' where pf: "processFunc (opts (cache m)) i (processTimeout (opts (cache m))) c f
        (records (cache m), world m) = (err, recs, w')" by (metis prod.exhaust)
    show ?thesis
      by (intro exI [of _ i] exI [of _ c] exI [of _ f] exI [of _ err] exI [of _ w'])
        (use s_poller(1) p(2) r pf in \<open>simp add: ctx f\<close>)
  qed
qed (use assms in auto)

lemma superseded_step:
  assumes "step K g a m m'" "machine_inv m" "Suc i < next_ctx m" "i \<notin> cancelled m" "a \<noteq> Cancel i"
  shows "i \<notin> cancelled m'"
  using assms(1)
proof cases
  case (s_stop ctx c)
  then have "ctx = next_ctx m - 1" using assms(2) by (auto simp: Stop_def machine_inv_def split: option.splits if_splits)
  then show ?thesis using s_stop assms(3,4) by simp
next
  case (s_poller j)
  from s_poller(2) show ?thesis by (rule poller_stepE) (use assms(4) in simp)
qed (use assms in auto)

lemma superseded_run:
  "runs (step K g) m as m' \<Longrightarrow> machine_inv m \<Longrightarrow> Suc i < next_ctx m \<Longrightarrow> i \<notin> cancelled m \<Longrightarrow> Cancel i \<notin> set as \<Longrightarrow> i \<notin> cancelled m'"
proof (induction rule: runs.induct)
  case (run_step as m' a m'')
  then show ?case
    using superseded_step [OF run_step.hyps(2) machine.runs_inv [OF run_step.hyps(1)]] machine.runs_rel [OF run_step.hyps(1)] by fastforce
qed simp

text \<open>
  A second \<open>Start\<close> that passes its check before the first goroutine has set the status replaces the
  \<open>cancelFunc\<close>: from then on no \<open>Stop\<close> ends the first goroutine, it goes on polling and writing the
  records until the context that its \<open>Start\<close> was given is cancelled.
\<close>

theorem superseded_goroutine_runs_on:
  assumes "runs (step K g) (initial os w) before m" "Suc i < next_ctx m" "i \<notin> cancelled m"
    and "runs (step K g) m as m'" "Cancel i \<notin> set as"
  shows "i \<notin> cancelled m' \<and> \<not> ended (snd (pollers m' ! i)) \<and> (\<exists>m''. step K g (Poller i) m' m'')"
proof -
  note inv = reachable_inv [OF assms(1)]
  note inv' = machine.runs_inv [OF assms(4) inv]
  have n: "i \<notin> cancelled m'" by (rule superseded_run [OF assms(4) inv assms(2,3,5)])
  have i: "i < next_ctx m'" using assms(2) machine.runs_rel [OF assms(4) inv] by auto
  note ith = machine_inv_nth [OF inv' i]
  then have "(i, snd (pollers m' ! i)) \<in> set (pollers m')" by (metis prod.collapse)
  then have e: "\<not> ended (snd (pollers m' ! i))" using inv' n unfolding machine_inv_def by blast
  then have "snd (pollers m' ! i) \<noteq> Finished" by (auto simp: ended_def)
  then show ?thesis using n e poller_progress [OF inv' i] by (auto simp: step_poller)
qed

section \<open>Runs\<close>

text \<open>The steps that are determined by the state, for concrete runs.\<close>

fun exec :: "(kgo_opt list \<Rightarrow> error + ('r, 'w) KafkaClient) \<Rightarrow> string \<Rightarrow> action
    \<Rightarrow> ('k, 'v, 'r, 'w) machine \<Rightarrow> ('k, 'v, 'r, 'w) machine option" where
  "exec K g DoInit m = Some (m\<lparr>cache := snd (Init K g (cache m))\<rparr>)"
| "exec K g StartCheck m = (if Start_check (cache m) = None then Some (m\<lparr>starting := Suc (starting m)\<rparr>) else None)"
| "exec K g StartGo m = (if starting m = 0 then None
     else Some (m\<lparr>cache := Start_go (next_ctx m) (cache m), next_ctx := Suc (next_ctx m), starting := starting m - 1,
       pollers := pollers m @ [(next_ctx m, Enter)]\<rparr>))"
| "exec K g DoStop m = (case Stop (cache m) of (None, c) \<Rightarrow> None
     | (Some ctx, c) \<Rightarrow> Some (m\<lparr>cache := c, cancelled := insert ctx (cancelled m)\<rparr>))"
| "exec K g DoRecords m = Some (m\<lparr>leaked := True\<rparr>)"
| "exec K g Write_Records m = (if leaked m then Some (m\<lparr>cache := (cache m)\<lparr>records := Map.empty\<rparr>\<rparr>) else None)"
| "exec K g (Cancel ctx) m = (if ctx < next_ctx m then Some (m\<lparr>cancelled := insert ctx (cancelled m)\<rparr>) else None)"
| "exec K g (Poller i) m = poller_step i m"
| "exec K g World m = Some m"

fun exec_all :: "(kgo_opt list \<Rightarrow> error + ('r, 'w) KafkaClient) \<Rightarrow> string \<Rightarrow> action list
    \<Rightarrow> ('k, 'v, 'r, 'w) machine \<Rightarrow> ('k, 'v, 'r, 'w) machine option" where
  "exec_all K g [] m = Some m"
| "exec_all K g (a # as) m = (case exec K g a m of None \<Rightarrow> None | Some m \<Rightarrow> exec_all K g as m)"

lemma exec_step: "exec K g a m = Some m' \<Longrightarrow> step K g a m m'"
proof (cases a)
  case World
  assume "exec K g a m = Some m'"
  then have "m' = m\<lparr>world := world m\<rparr>" using World by simp
  then show ?thesis using World by (metis s_world)
next
  case DoStop
  assume "exec K g a m = Some m'"
  then obtain ctx c where "Stop (cache m) = (Some ctx, c)" "m' = m\<lparr>cache := c, cancelled := insert ctx (cancelled m)\<rparr>"
    using DoStop by (auto split: prod.splits option.splits)
  then show ?thesis using DoStop by (simp add: s_stop)
qed (auto intro: step.intros simp: gr0_conv_Suc prod_eq_iff split: if_splits option.splits)

lemma exec_all_run: "exec_all K g as m = Some m' \<Longrightarrow> runs (step K g) m0 before m \<Longrightarrow> runs (step K g) m0 (before @ as) m'"
proof (induction as arbitrary: m before)
  case (Cons a as)
  then obtain m1 where m1: "exec K g a m = Some m1" "exec_all K g as m1 = Some m'" by (auto split: option.splits)
  then show ?case using Cons.IH [OF m1(2) run_step [OF Cons.prems(2) exec_step [OF m1(1)]]] by simp
qed simp

lemmas exec_run = exec_all_run [OF _ run_none, simplified]

definition demo_client :: "(nat, nat) KafkaClient" where
  "demo_client = \<lparr>PollRecords = \<lambda>ctx t n w. ([[\<lparr>TopicName = ''t'', Partitions = [\<lparr>PartitionNr = 0, Err = None, Records = [w]\<rparr>]\<rparr>]], Suc w),
     CommitUncommittedOffsets = \<lambda>ctx w. (None, w), CommitMarkedOffsets = \<lambda>ctx w. (None, w),
     MarkCommitRecords = \<lambda>rs w. w, CloseClient = \<lambda>w. w\<rparr>"

definition demo_process :: "(nat, nat, nat, nat) ProcessRecordsFunc" where
  "demo_process ctx timeout c fetches = (\<lambda>(recs, w). (None, recs(w \<mapsto> ctx), w))"

abbreviation demo_initial :: "(nat, nat, nat, nat) machine" where
  "demo_initial \<equiv> initial [WithClient (Some demo_client), WithProcessFunc demo_process] 0"

abbreviation demo_exec :: "action list \<Rightarrow> (nat, nat, nat, nat) machine \<Rightarrow> (nat, nat, nat, nat) machine option" where
  "demo_exec \<equiv> exec_all (\<lambda>_. Inl (ErrorString ''no brokers'')) ''g''"

lemmas exec_defs = poller_step_def Init_def Start_check_def Start_go_def Stop_def initial_def New_def applyOptions_def
  defaultOptions_def WithClient_def WithProcessFunc_def demo_client_def demo_process_def

text \<open>A cache that is started twice, with both goroutines about to process records.\<close>

abbreviation started_twice :: "action list" where
  "started_twice \<equiv> [DoInit, StartCheck, StartCheck, StartGo, StartGo, Poller 0, Poller 1, Poller 0, Poller 1]"

lemma demo_started_twice:
  "\<exists>m. demo_exec started_twice demo_initial = Some m \<and> next_ctx m = 2 \<and> cancelled m = {} \<and> \<not> leaked m
     \<and> records (cache m) = Map.empty
     \<and> (\<exists>m'. demo_exec [Poller 0] m = Some m' \<and> records (cache m') = [2 \<mapsto> 0])
     \<and> (\<exists>m'. demo_exec [DoStop, Poller 0, Poller 1] m = Some m' \<and> cancelled m' = {1})"
  by (simp add: exec_defs numeral_2_eq_2)

lemma demo_stopped:
  "\<exists>m. demo_exec (started_twice @ [DoStop]) demo_initial = Some m \<and> next_ctx m = 2 \<and> cancelled m = {1}
     \<and> (\<exists>m'. demo_exec [Poller 1, Poller 0, Poller 1, Poller 1] m = Some m')"
  by (simp add: exec_defs)

theorem cache_reachable_witness:
  "\<exists>m. demo_exec started_twice demo_initial = Some m \<and> machine_inv m"
proof -
  obtain m where m: "demo_exec started_twice demo_initial = Some m" using demo_started_twice by (elim exE conjE)
  show ?thesis by (rule exI [of _ m]) (simp only: m cache_reachable [OF exec_run [OF m]] simp_thms)
qed

theorem cancelled_goroutine_ends_witness:
  "\<exists>m m'. demo_exec (started_twice @ [DoStop]) demo_initial = Some m
    \<and> demo_exec [Poller 1, Poller 0, Poller 1, Poller 1] m = Some m' \<and> snd (pollers m' ! 1) = Finished"
proof -
  obtain m m' where m: "demo_exec (started_twice @ [DoStop]) demo_initial = Some m" "next_ctx m = 2" "cancelled m = {1}"
    "demo_exec [Poller 1, Poller 0, Poller 1, Poller 1] m = Some m'" using demo_stopped by blast
  have "count_list [Poller 1, Poller 0, Poller 1, Poller 1] (Poller 1) = 3" by simp
  then show ?thesis
    using cancelled_goroutine_ends [OF exec_run [OF m(1)] _ _ exec_run [OF m(4)], of 1] m by auto
qed

theorem records_guarded_witness:
  "\<exists>m c fetches err w'. demo_exec started_twice demo_initial = Some m \<and> pollers m ! 0 = (0, Fetched c fetches)
    \<and> processFunc (opts (cache m)) 0 (processTimeout (opts (cache m))) c fetches (records (cache m), world m) = (err, [2 \<mapsto> 0], w')"
proof -
  obtain m m' where m: "demo_exec started_twice demo_initial = Some m" "\<not> leaked m" "records (cache m) = Map.empty"
    "demo_exec [Poller 0] m = Some m'" "records (cache m') = [2 \<mapsto> 0]" using demo_started_twice by blast
  then have "step (\<lambda>_. Inl (ErrorString ''no brokers'')) ''g'' (Poller 0) m m'"
    by (intro exec_step) (simp split: option.splits)
  from records_guarded [OF exec_run [OF m(1)] this] m show ?thesis by auto
qed

theorem superseded_goroutine_runs_on_witness:
  "\<exists>m m'. demo_exec started_twice demo_initial = Some m \<and> demo_exec [DoStop, Poller 0, Poller 1] m = Some m'
    \<and> cancelled m' = {1} \<and> \<not> ended (snd (pollers m' ! 0))"
proof -
  obtain m m' where m: "demo_exec started_twice demo_initial = Some m" "next_ctx m = 2" "cancelled m = {}"
    "demo_exec [DoStop, Poller 0, Poller 1] m = Some m'" "cancelled m' = {1}" using demo_started_twice by blast
  then show ?thesis
    using superseded_goroutine_runs_on [OF exec_run [OF m(1)] _ _ exec_run [OF m(4)], of 0] by auto
qed

section \<open>Starting and stopping\<close>

text \<open>
  \<open>Stop\<close> before the first \<open>Start\<close> panics, and it has set the status by then: a caller that recovers can start
  a cache that was never initialised, whose goroutine has no client. A \<open>Stop\<close> that comes before the goroutine has set the status is
  overwritten by it: the goroutine ends, but the cache stays \<open>StatusRunning\<close> and cannot be started
  again until it is stopped once more.
\<close>

lemma Stop_before_Start_panics: "fst (Stop (snd (Init K g (New os)))) = None"
  by (simp add: Stop_def Init_def New_def split: sum.splits)

lemma recovered_Stop_skips_Init:
  "Stop (New os) = (None, c) \<Longrightarrow> Start_check c = None \<and> client (opts c) = client (applyOptions os)"
  by (auto simp: Stop_def New_def Start_check_def)

lemma early_Stop_is_overwritten:
  "\<exists>m. demo_exec [DoInit, StartCheck, StartGo, DoStop, Poller 0, Poller 0, Poller 0] demo_initial = Some m
     \<and> pollers m = [(0, Finished)] \<and> status (cache m) = StatusRunning
     \<and> Start_check (cache m) = Some (ErrorString ''cache already running'')"
  by (simp add: exec_defs)

section \<open>The default process function\<close>

text \<open>It commits partition by partition and stops at the first error; the cache stays as it is.\<close>

lemma process_topics_concat:
  "process_topics ctx c ts w = process_partitions ctx c (concat (map Partitions ts)) w"
proof (induction ts arbitrary: w)
  case (Cons t ts)
  have "process_partitions ctx c (ps @ qs) w = (case process_partitions ctx c ps w of
      (Some err, w) \<Rightarrow> (Some err, w) | (None, w) \<Rightarrow> process_partitions ctx c qs w)" for ps qs
    by (induction ps arbitrary: w) (auto split: option.splits prod.splits)
  then show ?case using Cons by (auto split: option.splits prod.splits)
qed simp

lemma processRecordsFunc_keeps_cache:
  "fst (snd (processRecordsFunc ctx timeout c fetches (recs, w))) = recs"
  by (simp add: processRecordsFunc_def split: prod.splits)

end
