(* ===== verification/Metrics.thy ===== *)
theory Metrics
  imports GoErrors Prelude
begin

text \<open>
  \<open>src/metrics\<close>: the metrics server with its options, the registry of collectors, and the functions
  that count and time a call. The Prometheus library is modelled as documented: a counter vector holds
  a count for every list of label values, a histogram vector the list of its observations, and
  \<open>WithLabelValues\<close> panics when the number of values is not that of the labels. The HTTP server, the
  registry, the clock and the conversion of a duration to seconds are parameters. The logger is left
  out. \<open>None\<close> is a panic.
\<close>

section \<open>Instrumentation\<close>

type_synonym InstrumentationType = uint64

definition InstrumentationTypeVersion :: InstrumentationType where "InstrumentationTypeVersion = 0"
definition InstrumentationTypeHttpRequestCount :: InstrumentationType where "InstrumentationTypeHttpRequestCount = 1"
definition InstrumentationTypeHttpRequestDuration :: InstrumentationType where "InstrumentationTypeHttpRequestDuration = 2"
definition InstrumentationTypeHttpRequestSuccess :: InstrumentationType where "InstrumentationTypeHttpRequestSuccess = 3"
definition InstrumentationTypeHttpRequestFailure :: InstrumentationType where "InstrumentationTypeHttpRequestFailure = 4"
definition InstrumentationTypeGrpcRequestCount :: InstrumentationType where "InstrumentationTypeGrpcRequestCount = 5"
definition InstrumentationTypeGrpcRequestDuration :: InstrumentationType where "InstrumentationTypeGrpcRequestDuration = 6"
definition InstrumentationTypeGrpcRequestSuccess :: InstrumentationType where "InstrumentationTypeGrpcRequestSuccess = 7"
definition InstrumentationTypeGrpcRequestFailure :: InstrumentationType where "InstrumentationTypeGrpcRequestFailure = 8"
definition InstrumentationTypeDbRequestCount :: InstrumentationType where "InstrumentationTypeDbRequestCount = 9"
definition InstrumentationTypeDbRequestDuration :: InstrumentationType where "InstrumentationTypeDbRequestDuration = 10"
definition InstrumentationTypeDbRequestSuccess :: InstrumentationType where "InstrumentationTypeDbRequestSuccess = 11"
definition InstrumentationTypeDbRequestFailure :: InstrumentationType where "InstrumentationTypeDbRequestFailure = 12"
definition InstrumentationTypeCacheRequestCount :: InstrumentationType where "InstrumentationTypeCacheRequestCount = 13"
definition InstrumentationTypeCacheRequestDuration :: InstrumentationType where "InstrumentationTypeCacheRequestDuration = 14"
definition InstrumentationTypeCacheRequestSuccess :: InstrumentationType where "InstrumentationTypeCacheRequestSuccess = 15"
definition InstrumentationTypeCacheRequestFailure :: InstrumentationType where "InstrumentationTypeCacheRequestFailure = 16"
definition InstrumentationTypeSubscriberCount :: InstrumentationType where "InstrumentationTypeSubscriberCount = 17"
definition InstrumentationTypeNetworkRequestCount :: InstrumentationType where "InstrumentationTypeNetworkRequestCount = 18"
definition InstrumentationTypeNetworkRequestDuration :: InstrumentationType where "InstrumentationTypeNetworkRequestDuration = 19"
definition InstrumentationTypeNetworkRequestSuccess :: InstrumentationType where "InstrumentationTypeNetworkRequestSuccess = 20"
definition InstrumentationTypeNetworkRequestFailure :: InstrumentationType where "InstrumentationTypeNetworkRequestFailure = 21"

text \<open>The kinds of collectors are numbered from 1.\<close>

type_synonym CollectorType = "8 word"

definition CollectorTypeCounter :: CollectorType where "CollectorTypeCounter = 1"
definition CollectorTypeCounterVec :: CollectorType where "CollectorTypeCounterVec = 2"
definition CollectorTypeGauge :: CollectorType where "CollectorTypeGauge = 3"
definition CollectorTypeGaugeVec :: CollectorType where "CollectorTypeGaugeVec = 4"
definition CollectorTypeHistogram :: CollectorType where "CollectorTypeHistogram = 5"
definition CollectorTypeHistogramVec :: CollectorType where "CollectorTypeHistogramVec = 6"
definition CollectorTypeSummary :: CollectorType where "CollectorTypeSummary = 7"
definition CollectorTypeSummaryVec :: CollectorType where "CollectorTypeSummaryVec = 8"

text \<open>
  A metric is a pointer to a new object with its options: \<open>ref\<close> is the identity of the object,
  \<open>labels\<close> is empty for the metrics without labels, and \<open>params\<close> holds the buckets of a histogram and the
  objectives of a summary.
\<close>

record 'b metric =
  ref :: nat
  Namespace :: string
  Name :: string
  Help :: string
  labels :: "string list"
  params :: "'b option"

type_synonym 'b metrics = "(InstrumentationType, 'b metric) gomap"

record 'b Instrumentation =
  namespace :: string
  Counters :: "'b metrics"
  CounterVecs :: "'b metrics"
  Gauges :: "'b metrics"
  GaugeVecs :: "'b metrics"
  Histograms :: "'b metrics"
  HistogramVecs :: "'b metrics"
  Summaries :: "'b metrics"
  SummaryVecs :: "'b metrics"

text \<open>An option is run with the identity of the object that it makes.\<close>

type_synonym 'b InstrumentationOption = "nat \<Rightarrow> 'b Instrumentation \<Rightarrow> 'b Instrumentation"

abbreviation new_metric :: "nat \<Rightarrow> 'b Instrumentation \<Rightarrow> string \<Rightarrow> string \<Rightarrow> string list \<Rightarrow> 'b option \<Rightarrow> 'b metric" where
  "new_metric r i name help ls ps \<equiv>
     \<lparr>ref = r, Namespace = namespace i, Name = name, Help = help, labels = ls, params = ps\<rparr>"

definition WithCounter :: "InstrumentationType \<Rightarrow> string \<Rightarrow> string \<Rightarrow> 'b InstrumentationOption" where
  "WithCounter t name help = (\<lambda>r i. i\<lparr>Counters := mput t (new_metric r i name help [] None) (Counters i)\<rparr>)"

definition WithCounterVec :: "InstrumentationType \<Rightarrow> string \<Rightarrow> string \<Rightarrow> string list \<Rightarrow> 'b InstrumentationOption" where
  "WithCounterVec t name help ls = (\<lambda>r i. i\<lparr>CounterVecs := mput t (new_metric r i name help ls None) (CounterVecs i)\<rparr>)"

definition WithGauge :: "InstrumentationType \<Rightarrow> string \<Rightarrow> string \<Rightarrow> 'b InstrumentationOption" where
  "WithGauge t name help = (\<lambda>r i. i\<lparr>Gauges := mput t (new_metric r i name help [] None) (Gauges i)\<rparr>)"

definition WithGaugeVec :: "InstrumentationType \<Rightarrow> string \<Rightarrow> string \<Rightarrow> string list \<Rightarrow> 'b InstrumentationOption" where
  "WithGaugeVec t name help ls = (\<lambda>r i. i\<lparr>GaugeVecs := mput t (new_metric r i name help ls None) (GaugeVecs i)\<rparr>)"

definition WithHistogram :: "InstrumentationType \<Rightarrow> string \<Rightarrow> string \<Rightarrow> 'b \<Rightarrow> 'b InstrumentationOption" where
  "WithHistogram t name help buckets =
     (\<lambda>r i. i\<lparr>Histograms := mput t (new_metric r i name help [] (Some buckets)) (Histograms i)\<rparr>)"

definition WithHistogramVec :: "InstrumentationType \<Rightarrow> string \<Rightarrow> string \<Rightarrow> string list \<Rightarrow> 'b \<Rightarrow> 'b InstrumentationOption" where
  "WithHistogramVec t name help ls buckets =
     (\<lambda>r i. i\<lparr>HistogramVecs := mput t (new_metric r i name help ls (Some buckets)) (HistogramVecs i)\<rparr>)"

definition WithSummary :: "InstrumentationType \<Rightarrow> string \<Rightarrow> string \<Rightarrow> 'b \<Rightarrow> 'b InstrumentationOption" where
  "WithSummary t name help objectives =
     (\<lambda>r i. i\<lparr>Summaries := mput t (new_metric r i name help [] (Some objectives)) (Summaries i)\<rparr>)"

definition WithSummaryVec :: "InstrumentationType \<Rightarrow> string \<Rightarrow> string \<Rightarrow> string list \<Rightarrow> 'b \<Rightarrow> 'b InstrumentationOption" where
  "WithSummaryVec t name help ls objectives =
     (\<lambda>r i. i\<lparr>SummaryVecs := mput t (new_metric r i name help ls (Some objectives)) (SummaryVecs i)\<rparr>)"

fun apply_options :: "'b InstrumentationOption list \<Rightarrow> nat \<Rightarrow> 'b Instrumentation \<Rightarrow> 'b Instrumentation" where
  "apply_options [] r i = i"
| "apply_options (opt # os) r i = apply_options os (Suc r) (opt r i)"

definition NewInstrumentation :: "string \<Rightarrow> 'b InstrumentationOption list \<Rightarrow> 'b Instrumentation" where
  "NewInstrumentation ns os = apply_options os 0
     \<lparr>namespace = ns, Counters = [], CounterVecs = [], Gauges = [], GaugeVecs = [], Histograms = [],
      HistogramVecs = [], Summaries = [], SummaryVecs = []\<rparr>"

definition Collectors :: "'b Instrumentation \<Rightarrow> 'b metric list" where
  "Collectors i = map snd (Counters i) @ map snd (CounterVecs i) @ map snd (Gauges i) @ map snd (GaugeVecs i)
     @ map snd (Histograms i) @ map snd (HistogramVecs i) @ map snd (Summaries i) @ map snd (SummaryVecs i)"

section \<open>Counting and timing calls\<close>

record ('d, 'w) prom =
  counts :: "nat \<Rightarrow> string list \<Rightarrow> nat"
  observations :: "nat \<Rightarrow> string list \<Rightarrow> 'd list"
  env :: 'w

definition Inc :: "'b metric option \<Rightarrow> string list \<Rightarrow> ('d, 'w) prom \<Rightarrow> ('d, 'w) prom option" where
  "Inc v ls s = (case v of None \<Rightarrow> None
     | Some v \<Rightarrow> if length ls \<noteq> length (labels v) then None
         else Some (s\<lparr>counts := (counts s)(ref v := (counts s (ref v))(ls := Suc (counts s (ref v) ls)))\<rparr>))"

definition Observe :: "'b metric option \<Rightarrow> string list \<Rightarrow> 'd \<Rightarrow> ('d, 'w) prom \<Rightarrow> ('d, 'w) prom option" where
  "Observe v ls d s = (case v of None \<Rightarrow> None
     | Some v \<Rightarrow> if length ls \<noteq> length (labels v) then None
         else Some (s\<lparr>observations := (observations s)(ref v := (observations s (ref v))(ls := observations s (ref v) ls @ [d]))\<rparr>))"

text \<open>
  The five functions below have the same body with different metrics. \<open>f\<close> is the call: it returns a
  response and an error, or panics, and may do anything to the environment and to other metrics.
\<close>

definition record_call ::
  "(int \<Rightarrow> 'd) \<Rightarrow> ('w \<Rightarrow> int) \<Rightarrow> InstrumentationType \<Rightarrow> InstrumentationType \<Rightarrow> InstrumentationType \<Rightarrow> InstrumentationType
    \<Rightarrow> 'b Instrumentation \<Rightarrow> string list \<Rightarrow> (('d, 'w) prom \<Rightarrow> ('a \<times> error option \<times> ('d, 'w) prom) option)
    \<Rightarrow> ('d, 'w) prom \<Rightarrow> ('a \<times> error option \<times> ('d, 'w) prom) option" where
  "record_call Seconds now cnt dur succ failure i ls f s =
     (case Inc (map_of (CounterVecs i) cnt) ls s of None \<Rightarrow> None
      | Some s \<Rightarrow>
        let start = now (env s)
        in case f s of None \<Rightarrow> None
        | Some (resp, err, s) \<Rightarrow>
          let duration = Seconds (now (env s) - start)
          in case Observe (map_of (HistogramVecs i) dur) ls duration s of None \<Rightarrow> None
          | Some s \<Rightarrow>
            (case Inc (map_of (CounterVecs i) (if err \<noteq> None then failure else succ)) ls s of None \<Rightarrow> None
             | Some s \<Rightarrow> Some (resp, err, s)))"

definition RecordDbMetric where
  "RecordDbMetric Seconds now f i ls =
     record_call Seconds now InstrumentationTypeDbRequestCount InstrumentationTypeDbRequestDuration
       InstrumentationTypeDbRequestSuccess InstrumentationTypeDbRequestFailure i ls f"

definition RecordCacheMetric where
  "RecordCacheMetric Seconds now f i ls =
     record_call Seconds now InstrumentationTypeCacheRequestCount InstrumentationTypeCacheRequestDuration
       InstrumentationTypeCacheRequestSuccess InstrumentationTypeCacheRequestFailure i ls f"

definition RecordNetworkMetric where
  "RecordNetworkMetric Seconds now f i ls =
     record_call Seconds now InstrumentationTypeNetworkRequestCount InstrumentationTypeNetworkRequestDuration
       InstrumentationTypeNetworkRequestSuccess InstrumentationTypeNetworkRequestFailure i ls f"

definition NewConnectInterceptor where
  "NewConnectInterceptor Seconds now i nxt HTTPMethod Procedure =
     record_call Seconds now InstrumentationTypeHttpRequestCount InstrumentationTypeHttpRequestDuration
       InstrumentationTypeHttpRequestSuccess InstrumentationTypeHttpRequestFailure i [HTTPMethod, Procedure] nxt"

definition NewGrpcInterceptor where
  "NewGrpcInterceptor Seconds now i handler FullMethod =
     record_call Seconds now InstrumentationTypeGrpcRequestCount InstrumentationTypeGrpcRequestDuration
       InstrumentationTypeGrpcRequestSuccess InstrumentationTypeGrpcRequestFailure i [FullMethod] handler"

record 'b HttpMiddleware =
  instrumentationType :: InstrumentationType
  instrumentation :: "'b Instrumentation"

definition NewHttpMiddleware :: "InstrumentationType \<Rightarrow> 'b Instrumentation \<Rightarrow> 'b HttpMiddleware" where
  "NewHttpMiddleware t i = \<lparr>instrumentationType = t, instrumentation = i\<rparr>"

definition HttpMiddleware_Handle ::
  "(int \<Rightarrow> 'd) \<Rightarrow> ('w \<Rightarrow> int) \<Rightarrow> 'b HttpMiddleware \<Rightarrow> (('d, 'w) prom \<Rightarrow> ('d, 'w) prom option)
    \<Rightarrow> string \<Rightarrow> string \<Rightarrow> ('d, 'w) prom \<Rightarrow> ('d, 'w) prom option" where
  "HttpMiddleware_Handle Seconds now m ServeHTTP meth path s =
     (let t = instrumentationType m; i = instrumentation m
      in case Inc (map_of (CounterVecs i) t) [meth, path] s of None \<Rightarrow> None
      | Some s \<Rightarrow>
        let start = now (env s)
        in case ServeHTTP s of None \<Rightarrow> None
        | Some s \<Rightarrow> Observe (map_of (HistogramVecs i) t) [meth, path] (Seconds (now (env s) - start)) s)"

section \<open>The server\<close>

definition ErrMetricsDisabled :: error where "ErrMetricsDisabled = ErrorString ''metrics server is disabled''"
definition ErrMetricsRunning :: error where "ErrMetricsRunning = ErrorString ''metrics server is already running''"
definition ErrMetricsNotRunning :: error where "ErrMetricsNotRunning = ErrorString ''metrics server is not running''"

record MetricsConfig =
  Enabled :: bool
  ConfigPath :: string
  Host :: string
  Port :: int64
  HttpTimeout :: int64
  HttpHeaderTimeout :: int64

definition Minute :: int64 where "Minute = 60000000000"

definition DefaultMetricsConfig :: MetricsConfig where
  "DefaultMetricsConfig = \<lparr>Enabled = True, ConfigPath = ''/metrics'', Host = '''', Port = 8081,
     HttpTimeout = Minute, HttpHeaderTimeout = Minute\<rparr>"

text \<open>The handler of a server is the path that it answers with the registry and the handler options.\<close>

record ('g, 'o) http_server =
  Addr :: string
  Handler :: "string \<times> 'g \<times> 'o"
  ReadTimeout :: int64
  ReadHeaderTimeout :: int64

record ('g, 'o) Server =
  srv :: "('g, 'o) http_server option"
  reg :: 'g
  enabled :: bool
  handler_opts :: 'o
  host :: string
  port :: int64
  path :: string
  isRunning :: bool
  httpReadTimeout :: int64
  httpReadHeaderTimeout :: int64

definition defaultReadTimeout :: int64 where "defaultReadTimeout = Minute"
definition defaultReadHeaderTimeout :: int64 where "defaultReadHeaderTimeout = Minute"
definition defaultPort :: int64 where "defaultPort = 8080"

definition defaultServer :: "'g \<Rightarrow> 'o \<Rightarrow> ('g, 'o) Server" where
  "defaultServer NewRegistry no_opts =
     \<lparr>srv = None, reg = NewRegistry, enabled = True, handler_opts = no_opts, host = '''', port = defaultPort,
      path = ''/metrics'', isRunning = False, httpReadTimeout = defaultReadTimeout,
      httpReadHeaderTimeout = defaultReadHeaderTimeout\<rparr>"

type_synonym ('g, 'o) ServerOption = "('g, 'o) Server \<Rightarrow> ('g, 'o) Server"

definition applyOpts :: "('g, 'o) Server \<Rightarrow> ('g, 'o) ServerOption list \<Rightarrow> ('g, 'o) Server" where
  "applyOpts s os = fold (\<lambda>opt. opt) os s"

definition NewServer :: "'g \<Rightarrow> 'o \<Rightarrow> ('g, 'o) ServerOption list \<Rightarrow> ('g, 'o) Server" where
  "NewServer NewRegistry no_opts os = applyOpts (defaultServer NewRegistry no_opts) os"

definition WithEnabled :: "bool \<Rightarrow> ('g, 'o) ServerOption" where "WithEnabled b = (\<lambda>s. s\<lparr>enabled := b\<rparr>)"
definition WithRegistry :: "'g \<Rightarrow> ('g, 'o) ServerOption" where "WithRegistry r = (\<lambda>s. s\<lparr>reg := r\<rparr>)"
definition WithServer :: "('g, 'o) http_server option \<Rightarrow> ('g, 'o) ServerOption" where "WithServer server = (\<lambda>s. s\<lparr>srv := server\<rparr>)"
definition WithPrometheusHandlerOpts :: "'o \<Rightarrow> ('g, 'o) ServerOption" where
  "WithPrometheusHandlerOpts o' = (\<lambda>s. s\<lparr>handler_opts := o'\<rparr>)"
definition WithPath :: "string \<Rightarrow> ('g, 'o) ServerOption" where "WithPath p = (\<lambda>s. s\<lparr>path := p\<rparr>)"
definition WithPort :: "int64 \<Rightarrow> ('g, 'o) ServerOption" where "WithPort p = (\<lambda>s. s\<lparr>port := p\<rparr>)"
definition WithHost :: "string \<Rightarrow> ('g, 'o) ServerOption" where "WithHost h = (\<lambda>s. s\<lparr>host := h\<rparr>)"
definition WithHttpTimeout :: "int64 \<Rightarrow> ('g, 'o) ServerOption" where "WithHttpTimeout t = (\<lambda>s. s\<lparr>httpReadTimeout := t\<rparr>)"
definition WithHttpHeaderTimeout :: "int64 \<Rightarrow> ('g, 'o) ServerOption" where
  "WithHttpHeaderTimeout t = (\<lambda>s. s\<lparr>httpReadHeaderTimeout := t\<rparr>)"

lemmas server_option_defs = WithEnabled_def WithRegistry_def WithServer_def WithPrometheusHandlerOpts_def
  WithPath_def WithPort_def WithHost_def WithHttpTimeout_def WithHttpHeaderTimeout_def

definition Path :: "('g, 'o) Server \<Rightarrow> string" where
  "Path s = (if path s = '''' then ''/metrics'' else path s)"

definition Registry :: "('g, 'o) Server \<Rightarrow> 'g" where
  "Registry s = reg s"

definition HttpServer :: "('g, 'o) Server \<Rightarrow> ('g, 'o) http_server option" where
  "HttpServer s = srv s"

text \<open>
  The patterns that a \<open>ServeMux\<close> of Go 1.23 takes: \<open>[METHOD ][HOST]/[PATH]\<close>, where a segment of the path may be
  a wildcard. \<open>wildcard\<close> tells whether a name is a Go identifier, by the tables of the package \<open>unicode\<close>.
\<close>

definition method_char :: "char \<Rightarrow> bool" where
  "method_char c \<longleftrightarrow> CHR ''a'' \<le> c \<and> c \<le> CHR ''z'' \<or> CHR ''A'' \<le> c \<and> c \<le> CHR ''Z'' \<or> is_digit c
     \<or> c \<in> {CHR 0x27, CHR 0x60} \<or> c \<in> set ''!#$%&*+-.^_|~''"

fun valid_segments :: "(string \<Rightarrow> bool) \<Rightarrow> string list \<Rightarrow> string list \<Rightarrow> bool" where
  "valid_segments wildcard seen [] = True"
| "valid_segments wildcard seen (seg # segs) =
     (if CHR 0x7B \<notin> set seg then valid_segments wildcard seen segs
      else hd seg = CHR 0x7B \<and> last seg = CHR 0x7D \<and>
        (let name = butlast (tl seg)
         in if name = ''$'' then segs = []
            else let multi = HasSuffix name ''...''; name = (if multi then take (length name - 3) name else name)
              in (multi \<longrightarrow> segs = []) \<and> name \<noteq> '''' \<and> wildcard name \<and> name \<notin> set seen
                 \<and> valid_segments wildcard (name # seen) segs))"

definition clean_segments :: "string list \<Rightarrow> bool" where
  "clean_segments segs \<longleftrightarrow> list_all (\<lambda>s. s \<notin> {'''', ''.'', ''..''}) (butlast segs) \<and> last segs \<notin> {''.'', ''..''}"

definition valid_pattern :: "(string \<Rightarrow> bool) \<Rightarrow> string \<Rightarrow> bool" where
  "valid_pattern wildcard s =
     (let separator = (\<lambda>c. c = CHR '' '' \<or> c = CHR 0x09);
          word = takeWhile (\<lambda>c. \<not> separator c) s;
          (method, rest) = (if word = s then ('''', s) else (word, dropWhile separator (drop (length word) s)));
          host = takeWhile (\<lambda>c. c \<noteq> CHR ''/'') rest;
          segs = Split (CHR ''/'') (drop (Suc (length host)) rest)
      in list_all method_char method \<and> CHR ''/'' \<in> set rest \<and> CHR 0x7B \<notin> set host
         \<and> (method \<noteq> '''' \<and> method \<noteq> ''CONNECT'' \<longrightarrow> clean_segments segs) \<and> valid_segments wildcard [] segs)"

text \<open>
  \<open>None\<close> is a panic, which leaves the server as it was: \<open>mux.Handle\<close> panics on a pattern that is not valid, and
  \<open>promhttp.HandlerFor\<close> when it cannot register its own metrics with a registry that the handler options
  name (\<open>handler_ok\<close> tells whether it returns).
\<close>

definition Start :: "(string \<Rightarrow> bool) \<Rightarrow> bool \<Rightarrow> ('g, 'o) Server \<Rightarrow> (error option \<times> ('g, 'o) Server) option" where
  "Start wildcard handler_ok s =
     (if \<not> enabled s then Some (Some ErrMetricsDisabled, s)
      else if srv s \<noteq> None \<and> isRunning s then Some (Some ErrMetricsRunning, s)
      else if \<not> handler_ok then None
      else if \<not> valid_pattern wildcard (Path s) then None
      else Some (None, s\<lparr>srv := Some \<lparr>Addr = host s @ '':'' @ FormatInt (port s), Handler = (Path s, reg s, handler_opts s),
                       ReadTimeout = httpReadTimeout s, ReadHeaderTimeout = httpReadHeaderTimeout s\<rparr>,
                     isRunning := True\<rparr>))"

text \<open>What the goroutine of \<open>Start\<close> logs when \<open>ListenAndServe\<close> returns; \<open>errors.Is\<close> looks at all causes.\<close>

definition ErrServerClosed :: error where "ErrServerClosed = ErrorString ''http: Server closed''"

definition serve_log :: "error option \<Rightarrow> string option" where
  "serve_log ListenAndServe = (case ListenAndServe of None \<Rightarrow> None
     | Some err \<Rightarrow> if ErrServerClosed \<in> set (chain err) then Some ''failed to start metrics server'' else None)"

text \<open>\<open>Close\<close> is the result of closing the HTTP server.\<close>

definition Stop :: "error option \<Rightarrow> ('g, 'o) Server \<Rightarrow> error option \<times> ('g, 'o) Server" where
  "Stop Close s =
     (if \<not> enabled s then (Some ErrMetricsDisabled, s)
      else if srv s = None \<or> \<not> isRunning s then (Some ErrMetricsNotRunning, s)
      else if Close \<noteq> None then (Close, s)
      else (None, s\<lparr>isRunning := False\<rparr>))"

fun register_all :: "('b metric \<Rightarrow> 'g \<Rightarrow> error option \<times> 'g) \<Rightarrow> 'b metric list \<Rightarrow> 'g \<Rightarrow> error option \<times> 'g" where
  "register_all Reg [] g = (None, g)"
| "register_all Reg (c # cs) g =
     (case Reg c g of (Some err, g) \<Rightarrow> (Some (WrapError ''failed to register collector'' err), g)
      | (None, g) \<Rightarrow> register_all Reg cs g)"

definition Register :: "('b metric \<Rightarrow> 'g \<Rightarrow> error option \<times> 'g) \<Rightarrow> 'b Instrumentation \<Rightarrow> ('g, 'o) Server
    \<Rightarrow> error option \<times> ('g, 'o) Server" where
  "Register Reg i s = (case register_all Reg (Collectors i) (reg s) of (err, g) \<Rightarrow> (err, s\<lparr>reg := g\<rparr>))"

text \<open>
  \<open>SetGauge\<close> sets the gauge of the version; there is a panic when it is missing or has other labels. The
  handler options are the default ones, which name no registry: \<open>HandlerFor\<close> returns.
\<close>

definition StartMetricsServer ::
  "(string \<Rightarrow> bool) \<Rightarrow> ('b metric \<Rightarrow> 'g \<Rightarrow> error option \<times> 'g) \<Rightarrow> (nat \<Rightarrow> string \<Rightarrow> 'g \<Rightarrow> 'g) \<Rightarrow> 'g \<Rightarrow> 'o \<Rightarrow> MetricsConfig
    \<Rightarrow> 'b Instrumentation \<Rightarrow> string \<Rightarrow> (error option \<times> ('g, 'o) Server) option" where
  "StartMetricsServer wildcard Reg SetGauge NewRegistry no_opts config i version =
     (let metricsSvr = NewServer NewRegistry no_opts [WithEnabled (Enabled config), WithHost (Host config),
            WithPort (Port config), WithHttpTimeout (HttpTimeout config), WithHttpHeaderTimeout (HttpHeaderTimeout config)]
      in case Register Reg i metricsSvr of
           (Some err, metricsSvr) \<Rightarrow> Some (Some err, metricsSvr)
         | (None, metricsSvr) \<Rightarrow>
           (case map_of (GaugeVecs i) InstrumentationTypeVersion of None \<Rightarrow> None
            | Some v \<Rightarrow>
              if labels v \<noteq> [''version''] then None
              else Start wildcard True (metricsSvr\<lparr>reg := SetGauge (ref v) version (reg metricsSvr)\<rparr>)))"

section \<open>The server is a switch\<close>

text \<open>The options of the package, and a sequence of calls on a server.\<close>

inductive server_option :: "('g, 'o) ServerOption \<Rightarrow> bool" where
  "server_option (WithEnabled b)"
| "server_option (WithRegistry r)"
| "server_option (WithServer server)"
| "server_option (WithPrometheusHandlerOpts o')"
| "server_option (WithPath p)"
| "server_option (WithPort n)"
| "server_option (WithHost h)"
| "server_option (WithHttpTimeout t)"
| "server_option (WithHttpHeaderTimeout t)"

datatype server_call = CallStart bool | CallStop "error option"

text \<open>
  A result is \<open>None\<close> for a call that panicked. The mutex is released by a deferred call, so a caller that
  recovers from the panic can go on using the server.
\<close>

definition server_call :: "(string \<Rightarrow> bool) \<Rightarrow> server_call \<Rightarrow> ('g, 'o) Server \<Rightarrow> error option option \<times> ('g, 'o) Server" where
  "server_call wildcard c s = (case c of
     CallStart handler_ok \<Rightarrow> (case Start wildcard handler_ok s of None \<Rightarrow> (None, s) | Some (r, s) \<Rightarrow> (Some r, s))
   | CallStop close_result \<Rightarrow> (case Stop close_result s of (r, s) \<Rightarrow> (Some r, s)))"

fun server_calls :: "(string \<Rightarrow> bool) \<Rightarrow> server_call list \<Rightarrow> ('g, 'o) Server \<Rightarrow> error option option list \<times> ('g, 'o) Server" where
  "server_calls wildcard [] s = ([], s)"
| "server_calls wildcard (c # cs) s =
     (let (r, s) = server_call wildcard c s; (rs, s) = server_calls wildcard cs s in (r # rs, s))"

text \<open>The specification: a switch that is off at first, and that cannot be turned on when its path is not valid.\<close>

fun switch :: "bool \<Rightarrow> bool \<Rightarrow> bool \<Rightarrow> server_call list \<Rightarrow> error option option list \<times> bool" where
  "switch en valid on [] = ([], on)"
| "switch en valid on (c # cs) =
     (let (r, on) =
        (if \<not> en then (Some (Some ErrMetricsDisabled), on)
         else case c of
           CallStart h \<Rightarrow> (if on then (Some (Some ErrMetricsRunning), on)
             else if h \<and> valid then (Some None, True) else (None, False))
         | CallStop e \<Rightarrow> (if \<not> on then (Some (Some ErrMetricsNotRunning), on) else (Some e, e \<noteq> None)));
          (rs, on) = switch en valid on cs
      in (r # rs, on))"

lemma options_not_running:
  "list_all server_option os \<Longrightarrow> \<not> isRunning s \<Longrightarrow> \<not> isRunning (applyOpts s os)"
proof (induction os arbitrary: s)
  case (Cons opt os)
  have "\<not> isRunning (opt s)"
    using Cons.prems by (auto simp: server_option_defs elim: server_option.cases)
  then show ?case using Cons.IH [of "opt s"] Cons.prems(1) by (simp add: applyOpts_def)
qed (simp add: applyOpts_def)

lemma server_calls_switch:
  "isRunning s \<longrightarrow> srv s \<noteq> None \<Longrightarrow> server_calls wildcard cs s = (rs, s') \<Longrightarrow>
     switch (enabled s) (valid_pattern wildcard (Path s)) (isRunning s) cs = (rs, isRunning s')
     \<and> enabled s' = enabled s \<and> (isRunning s' \<longrightarrow> srv s' \<noteq> None)"
proof (induction cs arbitrary: s rs)
  case (Cons c cs)
  obtain r s1 where 1: "server_call wildcard c s = (r, s1)" by fastforce
  obtain rs1 where 2: "server_calls wildcard cs s1 = (rs1, s')" "rs = r # rs1"
    using Cons.prems(2) 1 by (auto simp: Let_def split: prod.splits)
  note defs = server_call_def Start_def Stop_def
  have s1: "isRunning s1 \<longrightarrow> srv s1 \<noteq> None" "enabled s1 = enabled s" "Path s1 = Path s"
    using 1 Cons.prems(1) by (auto simp: defs Path_def split: server_call.splits if_splits)
  have "(if \<not> enabled s then (Some (Some ErrMetricsDisabled), isRunning s)
         else case c of
           CallStart h \<Rightarrow> (if isRunning s then (Some (Some ErrMetricsRunning), isRunning s)
             else if h \<and> valid_pattern wildcard (Path s) then (Some None, True) else (None, False))
         | CallStop e \<Rightarrow> (if \<not> isRunning s then (Some (Some ErrMetricsNotRunning), isRunning s) else (Some e, e \<noteq> None)))
      = (r, isRunning s1)"
    using 1 Cons.prems(1) by (auto simp: defs split: server_call.splits if_splits)
  then show ?case using Cons.IH [OF s1(1) 2(1)] by (simp add: s1(2,3) 2(2))
qed simp

text \<open>
  C34: the metrics server refines a switch: for every choice of options and every sequence of calls, the
  results of \<open>Start\<close> and \<open>Stop\<close> are those of a switch that is off at first, that reports the disabled
  server, a second start and a stop that has nothing to stop, and that stays on when closing fails;
  starting panics, and the switch stays off, exactly when the path is not a pattern of \<open>net/http\<close> or the
  handler cannot be made; and a running server has its HTTP server, so that closing it never meets a nil
  pointer.
\<close>

theorem Server_refines_switch:
  assumes "list_all server_option os" "server_calls wildcard cs (NewServer NewRegistry no_opts os) = (rs, s)"
  shows "switch (enabled (NewServer NewRegistry no_opts os)) (valid_pattern wildcard (Path (NewServer NewRegistry no_opts os))) False cs
      = (rs, isRunning s) \<and> (isRunning s \<longrightarrow> srv s \<noteq> None)"
proof -
  have "\<not> isRunning (NewServer NewRegistry no_opts os)"
    unfolding NewServer_def by (rule options_not_running [OF assms(1)]) (simp add: defaultServer_def)
  then show ?thesis using server_calls_switch [OF _ assms(2)] by simp
qed

lemma valid_patterns:
  "valid_pattern wildcard ''/metrics''" "valid_pattern wildcard ''GET example.com/metrics/''"
  "\<not> valid_pattern wildcard ''metrics''" "\<not> valid_pattern wildcard ''GET /a//b''" "\<not> valid_pattern wildcard ''/a{b}''"
  by code_simp+

abbreviation path_server :: "string \<Rightarrow> (unit, unit) Server" where
  "path_server p \<equiv> NewServer () () [WithPort 9090, WithPath p]"

text \<open>With a path the server goes on and off; without the leading slash every start panics.\<close>

theorem Server_refines_switch_witness:
  "fst (server_calls (\<lambda>_. False) [CallStop None, CallStart True, CallStart True, CallStop (Some ErrServerClosed), CallStop None]
     (path_server ''/metrics''))
   = [Some (Some ErrMetricsNotRunning), Some None, Some (Some ErrMetricsRunning), Some (Some ErrServerClosed), Some None]
   \<and> fst (server_calls (\<lambda>_. False) [CallStart True, CallStop None] (path_server ''metrics'')) = [None, Some (Some ErrMetricsNotRunning)]"
proof -
  have opt: "list_all server_option [WithPort 9090 :: (unit, unit) ServerOption, WithPath p]" for p
    by (simp add: server_option.intros)
  have s: "enabled (path_server p)" "p \<noteq> [] \<Longrightarrow> Path (path_server p) = p" for p
    by (simp_all add: NewServer_def applyOpts_def defaultServer_def WithPort_def WithPath_def Path_def)
  have sw: "fst (switch True (valid_pattern (\<lambda>_. False) p) False cs) = fst (server_calls (\<lambda>_. False) cs (path_server p))"
    if "p \<noteq> []" for p cs
    using Server_refines_switch [where wildcard = "\<lambda>_. False" and NewRegistry = "()" and no_opts = "()", OF opt [of p] surjective_pairing, of cs] s that by simp
  show ?thesis
    using sw [of "''/metrics''" "[CallStop None, CallStart True, CallStart True, CallStop (Some ErrServerClosed), CallStop None]"]
      sw [of "''metrics''" "[CallStart True, CallStop None]"] by (simp add: valid_patterns)
qed

text \<open>The path of the configuration is not used: the server always answers the default path.\<close>

lemma StartMetricsServer_ignores_path:
  "StartMetricsServer wildcard Reg SetGauge g o' (config\<lparr>ConfigPath := p\<rparr>) i version = StartMetricsServer wildcard Reg SetGauge g o' config i version"
  by (simp add: StartMetricsServer_def)

lemma StartMetricsServer_path:
  assumes "StartMetricsServer wildcard Reg SetGauge g o' config i version = Some (None, s)"
  shows "\<exists>hs. srv s = Some hs \<and> fst (Handler hs) = ''/metrics'' \<and> isRunning s"
proof -
  let ?s = "NewServer g o' [WithEnabled (Enabled config), WithHost (Host config), WithPort (Port config),
    WithHttpTimeout (HttpTimeout config), WithHttpHeaderTimeout (HttpHeaderTimeout config)]"
  have "path ?s = ''/metrics''"
    by (simp add: NewServer_def applyOpts_def defaultServer_def server_option_defs)
  then show ?thesis using assms
    by (auto simp: StartMetricsServer_def Register_def Start_def Path_def Let_def
        split: prod.splits option.splits if_splits)
qed

text \<open>A server that fails to listen leaves no message; the message comes when it is closed as intended.\<close>

lemma serve_log_inverted:
  "serve_log (Some (ErrorString ''listen tcp :8080: bind: address already in use'')) = None"
  "serve_log (Some ErrServerClosed) \<noteq> None"
  by (simp_all add: serve_log_def ErrServerClosed_def)

section \<open>No call is lost\<close>

inductive instrumentation_option :: "'b InstrumentationOption \<Rightarrow> bool" where
  "instrumentation_option (WithCounter t name help)"
| "instrumentation_option (WithCounterVec t name help ls)"
| "instrumentation_option (WithGauge t name help)"
| "instrumentation_option (WithGaugeVec t name help ls)"
| "instrumentation_option (WithHistogram t name help bs)"
| "instrumentation_option (WithHistogramVec t name help ls bs)"
| "instrumentation_option (WithSummary t name help os)"
| "instrumentation_option (WithSummaryVec t name help ls os)"

lemmas instrumentation_option_defs = WithCounter_def WithCounterVec_def WithGauge_def WithGaugeVec_def
  WithHistogram_def WithHistogramVec_def WithSummary_def WithSummaryVec_def

definition refs :: "'b metrics \<Rightarrow> nat list" where
  "refs m = map (\<lambda>(t, v). ref v) m"

definition fresh_refs :: "nat \<Rightarrow> 'b Instrumentation \<Rightarrow> bool" where
  "fresh_refs r i \<longleftrightarrow> distinct (map ref (Collectors i)) \<and> (\<forall>v \<in> set (Collectors i). ref v < r)"

lemma refs_simps [simp]:
  "refs [] = []" "refs (a # m) = ref (snd a) # refs m"
  by (simp_all add: refs_def case_prod_unfold)

lemma refs_mput:
  "set (refs (mput t v m)) \<subseteq> insert (ref v) (set (refs m))"
  "distinct (refs m) \<Longrightarrow> ref v \<notin> set (refs m) \<Longrightarrow> distinct (refs (mput t v m))"
proof -
  have mput: "mput t v (a # m) = (if fst a = t then (t, v) # m else a # mput t v m)" for a m
    by (cases a) (simp add: mput_def)
  show 1: "set (refs (mput t v m)) \<subseteq> insert (ref v) (set (refs m))" for m
  proof (induction m)
    case (Cons a m)
    then show ?case by (auto simp: mput)
  qed (simp add: mput_def)
  show "distinct (refs m) \<Longrightarrow> ref v \<notin> set (refs m) \<Longrightarrow> distinct (refs (mput t v m))"
  proof (induction m)
    case (Cons a m)
    then show ?case using 1 [of m] by (auto simp: mput)
  qed (simp add: mput_def)
qed

definition kinds :: "'b Instrumentation \<Rightarrow> 'b metrics list" where
  "kinds i = [Counters i, CounterVecs i, Gauges i, GaugeVecs i, Histograms i, HistogramVecs i, Summaries i, SummaryVecs i]"

lemma Collectors_refs: "map ref (Collectors i) = concat (map refs (kinds i))"
  by (simp add: Collectors_def kinds_def refs_def comp_def case_prod_unfold)

lemma fresh_refs_alt:
  "fresh_refs r i \<longleftrightarrow> distinct (concat (map refs (kinds i))) \<and> (\<forall>x \<in> set (concat (map refs (kinds i))). x < r)"
  unfolding Collectors_refs [symmetric] by (auto simp: fresh_refs_def)

text \<open>Every option enters one new metric into one of the eight maps.\<close>

lemma option_kinds:
  assumes "instrumentation_option opt"
  shows "\<exists>k t v. k < length (kinds i) \<and> ref v = r \<and> kinds (opt r i) = (kinds i)[k := mput t v (kinds i ! k)]"
  using assms
proof cases
  case (1 t nm hlp)
  then show ?thesis
    by (intro exI [of _ "0 :: nat"] exI [of _ t] exI [of _ "new_metric r i nm hlp [] None"]) (simp add: kinds_def WithCounter_def)
next
  case (2 t nm hlp ls)
  then show ?thesis
    by (intro exI [of _ "1 :: nat"] exI [of _ t] exI [of _ "new_metric r i nm hlp ls None"]) (simp add: kinds_def WithCounterVec_def)
next
  case (3 t nm hlp)
  then show ?thesis
    by (intro exI [of _ "2 :: nat"] exI [of _ t] exI [of _ "new_metric r i nm hlp [] None"]) (simp add: kinds_def WithGauge_def)
next
  case (4 t nm hlp ls)
  then show ?thesis
    by (intro exI [of _ "3 :: nat"] exI [of _ t] exI [of _ "new_metric r i nm hlp ls None"]) (simp add: kinds_def WithGaugeVec_def)
next
  case (5 t nm hlp bs)
  then show ?thesis
    by (intro exI [of _ "4 :: nat"] exI [of _ t] exI [of _ "new_metric r i nm hlp [] (Some bs)"]) (simp add: kinds_def WithHistogram_def)
next
  case (6 t nm hlp ls bs)
  then show ?thesis
    by (intro exI [of _ "5 :: nat"] exI [of _ t] exI [of _ "new_metric r i nm hlp ls (Some bs)"]) (simp add: kinds_def WithHistogramVec_def)
next
  case (7 t nm hlp bs)
  then show ?thesis
    by (intro exI [of _ "6 :: nat"] exI [of _ t] exI [of _ "new_metric r i nm hlp [] (Some bs)"]) (simp add: kinds_def WithSummary_def)
next
  case (8 t nm hlp ls bs)
  then show ?thesis
    by (intro exI [of _ "7 :: nat"] exI [of _ t] exI [of _ "new_metric r i nm hlp ls (Some bs)"]) (simp add: kinds_def WithSummaryVec_def)
qed

lemma distinct_concat_update:
  fixes r :: nat
  assumes "k < length Ls" "distinct (concat Ls)" "\<forall>x \<in> set (concat Ls). x < r"
    and "set ys \<subseteq> insert r (set (Ls ! k))" "distinct ys"
  shows "distinct (concat (Ls[k := ys]))" "\<forall>x \<in> set (concat (Ls[k := ys])). x < Suc r"
proof -
  let ?A = "concat (take k Ls)" and ?C = "concat (drop (Suc k) Ls)"
  have old: "concat Ls = ?A @ Ls ! k @ ?C"
    using arg_cong [OF id_take_nth_drop [OF assms(1)], of concat] by simp
  have new: "concat (Ls[k := ys]) = ?A @ ys @ ?C"
    by (simp add: upd_conv_take_nth_drop [OF assms(1)])
  have d: "distinct (?A @ Ls ! k @ ?C)" "\<forall>x \<in> set (?A @ Ls ! k @ ?C). x < r"
    using assms(2,3) unfolding old by blast+
  have r: "r \<notin> set (?A @ Ls ! k @ ?C)" using d(2) by blast
  show "distinct (concat (Ls[k := ys]))"
    unfolding new using d(1) r assms(4,5) by (simp only: distinct_append set_append) blast
  show "\<forall>x \<in> set (concat (Ls[k := ys])). x < Suc r"
    unfolding new using d(2) assms(4) by (simp only: set_append) (auto simp del: set_concat intro: less_SucI)
qed

lemma fresh_option:
  assumes "instrumentation_option opt" "fresh_refs r i"
  shows "fresh_refs (Suc r) (opt r i)"
proof -
  obtain k t v where k: "k < length (kinds i)" "ref v = r" "kinds (opt r i) = (kinds i)[k := mput t v (kinds i ! k)]"
    using option_kinds [OF assms(1)] by blast
  let ?L = "map refs (kinds i)"
  have kL: "k < length ?L" using k(1) by simp
  have f: "distinct (concat ?L)" "\<forall>x \<in> set (concat ?L). x < r" using assms(2) by (simp_all add: fresh_refs_alt)
  have L: "refs (kinds i ! k) \<in> set ?L" using k(1) by simp
  have "distinct (refs (kinds i ! k))" using f(1) L by (simp only: distinct_concat_iff)
  moreover have "set (refs (kinds i ! k)) \<subseteq> set (concat ?L)" using L by auto
  then have "r \<notin> set (refs (kinds i ! k))" using f(2) by blast
  ultimately have "distinct (refs (mput t v (kinds i ! k)))" using refs_mput(2) k(2) by metis
  moreover have "set (refs (mput t v (kinds i ! k))) \<subseteq> insert r (set (?L ! k))" using refs_mput(1) k(1,2) by fastforce
  ultimately show ?thesis
    using distinct_concat_update [OF kL f] unfolding fresh_refs_alt k(3) map_update by blast
qed

lemma fresh_options:
  "list_all instrumentation_option os \<Longrightarrow> fresh_refs r i \<Longrightarrow> fresh_refs (r + length os) (apply_options os r i)"
proof (induction os arbitrary: r i)
  case (Cons opt os)
  then show ?case using fresh_option [of opt r i] Cons.IH [of "Suc r" "opt r i"] by simp
qed simp

lemma NewInstrumentation_distinct:
  assumes "list_all instrumentation_option os"
  shows "distinct (map ref (Collectors (NewInstrumentation ns os)))"
  unfolding NewInstrumentation_def
  by (rule conjunct1 [OF iffD1 [OF fresh_refs_def fresh_options [OF assms]]])
    (simp add: fresh_refs_def Collectors_def)

lemma refs_differ:
  assumes "distinct (refs m)" "map_of m t = Some v" "map_of m t' = Some v'" "t \<noteq> t'"
  shows "ref v \<noteq> ref v'"
proof
  assume eq: "ref v = ref v'"
  have in_m: "(t, v) \<in> set m" "(t', v') \<in> set m" using assms(2,3) map_of_SomeD by fast+
  have "inj_on (\<lambda>(t, v). ref v) (set m)" using assms(1) by (simp add: refs_def distinct_map)
  then have "(t, v) = (t', v')" by (rule inj_onD) (use eq in_m in simp_all)
  then show False using assms(4) by simp
qed

lemma vec_refs_differ:
  assumes "list_all instrumentation_option os" "i = NewInstrumentation ns os"
    and "map_of (CounterVecs i) t = Some v" "map_of (CounterVecs i) t' = Some v'" "t \<noteq> t'"
  shows "ref v \<noteq> ref v'"
proof -
  have "distinct (refs (CounterVecs i))"
    using NewInstrumentation_distinct [OF assms(1), of ns] by (simp add: Collectors_refs kinds_def assms(2))
  then show ?thesis using refs_differ assms(3-5) by blast
qed

text \<open>The call leaves the three counters of the request alone and returns.\<close>

definition well_behaved :: "nat set \<Rightarrow> (('d, 'w) prom \<Rightarrow> ('a \<times> error option \<times> ('d, 'w) prom) option) \<Rightarrow> bool" where
  "well_behaved R f \<longleftrightarrow> (\<forall>s. \<exists>resp err s'. f s = Some (resp, err, s') \<and> (\<forall>r \<in> R. counts s' r = counts s r))"

definition count :: "'b Instrumentation \<Rightarrow> InstrumentationType \<Rightarrow> string list \<Rightarrow> ('d, 'w) prom \<Rightarrow> nat" where
  "count i t ls s = (case map_of (CounterVecs i) t of None \<Rightarrow> 0 | Some v \<Rightarrow> counts s (ref v) ls)"

definition has_vecs :: "'b Instrumentation \<Rightarrow> InstrumentationType list \<Rightarrow> InstrumentationType \<Rightarrow> string list \<Rightarrow> bool" where
  "has_vecs i ts dur ls \<longleftrightarrow>
     (\<forall>t \<in> set ts. \<exists>v. map_of (CounterVecs i) t = Some v \<and> length (labels v) = length ls)
   \<and> (\<exists>v. map_of (HistogramVecs i) dur = Some v \<and> length (labels v) = length ls)"

definition vec_refs :: "'b Instrumentation \<Rightarrow> InstrumentationType list \<Rightarrow> nat set" where
  "vec_refs i ts = {ref v |v t. t \<in> set ts \<and> map_of (CounterVecs i) t = Some v}"

lemma record_call_counts:
  assumes "list_all instrumentation_option os" "i = NewInstrumentation ns os"
    and "distinct [cnt, succ, failure]" "has_vecs i [cnt, succ, failure] dur ls"
    and "well_behaved (vec_refs i [cnt, succ, failure]) f"
  shows "\<exists>resp err s'. record_call Seconds now cnt dur succ failure i ls f s = Some (resp, err, s')
    \<and> count i cnt ls s' = Suc (count i cnt ls s)
    \<and> count i succ ls s' = count i succ ls s + (if err = None then 1 else 0)
    \<and> count i failure ls s' = count i failure ls s + (if err = None then 0 else 1)"
proof -
  from assms(4) obtain c sv fv h where v: "map_of (CounterVecs i) cnt = Some c" "map_of (CounterVecs i) succ = Some sv"
    "map_of (CounterVecs i) failure = Some fv" "map_of (HistogramVecs i) dur = Some h"
    and l: "length (labels c) = length ls" "length (labels sv) = length ls" "length (labels fv) = length ls" "length (labels h) = length ls"
    by (auto simp: has_vecs_def)
  have ne: "ref c \<noteq> ref sv" "ref c \<noteq> ref fv" "ref sv \<noteq> ref fv"
    using vec_refs_differ [OF assms(1,2)] v assms(3) by auto
  let ?s1 = "s\<lparr>counts := (counts s)(ref c := (counts s (ref c))(ls := Suc (counts s (ref c) ls)))\<rparr>"
  obtain resp err s2 where f: "f ?s1 = Some (resp, err, s2)" "\<forall>r \<in> vec_refs i [cnt, succ, failure]. counts s2 r = counts ?s1 r"
    using assms(5) unfolding well_behaved_def by blast
  have "{ref c, ref sv, ref fv} \<subseteq> vec_refs i [cnt, succ, failure]" using v by (auto simp: vec_refs_def)
  then have c2: "counts s2 (ref c) = counts ?s1 (ref c)" "counts s2 (ref sv) = counts s (ref sv)" "counts s2 (ref fv) = counts s (ref fv)"
    using f(2) ne by auto
  show ?thesis using v l ne f(1) c2
    by (cases err) (simp_all add: record_call_def Inc_def Observe_def Let_def count_def)
qed

abbreviation db_counters :: "InstrumentationType list" where
  "db_counters \<equiv> [InstrumentationTypeDbRequestCount, InstrumentationTypeDbRequestSuccess, InstrumentationTypeDbRequestFailure]"

lemma RecordDbMetric_counts:
  assumes "list_all instrumentation_option os" "i = NewInstrumentation ns os"
    and "has_vecs i db_counters InstrumentationTypeDbRequestDuration ls" "well_behaved (vec_refs i db_counters) f"
  shows "\<exists>resp err s'. RecordDbMetric Seconds now f i ls s = Some (resp, err, s')
    \<and> count i InstrumentationTypeDbRequestCount ls s' = Suc (count i InstrumentationTypeDbRequestCount ls s)
    \<and> count i InstrumentationTypeDbRequestSuccess ls s' = count i InstrumentationTypeDbRequestSuccess ls s + (if err = None then 1 else 0)
    \<and> count i InstrumentationTypeDbRequestFailure ls s' = count i InstrumentationTypeDbRequestFailure ls s + (if err = None then 0 else 1)"
  unfolding RecordDbMetric_def
  by (rule record_call_counts [OF assms(1,2) _ assms(3,4)])
    (simp add: InstrumentationTypeDbRequestCount_def InstrumentationTypeDbRequestSuccess_def InstrumentationTypeDbRequestFailure_def)

text \<open>Calls one after the other.\<close>

fun db_calls :: "(int \<Rightarrow> 'd) \<Rightarrow> ('w \<Rightarrow> int) \<Rightarrow> 'b Instrumentation \<Rightarrow> string list
    \<Rightarrow> (('d, 'w) prom \<Rightarrow> ('a \<times> error option \<times> ('d, 'w) prom) option) list \<Rightarrow> ('d, 'w) prom \<Rightarrow> ('d, 'w) prom option" where
  "db_calls Seconds now i ls [] s = Some s"
| "db_calls Seconds now i ls (f # fs) s =
     (case RecordDbMetric Seconds now f i ls s of None \<Rightarrow> None | Some (resp, err, s) \<Rightarrow> db_calls Seconds now i ls fs s)"

text \<open>
  C35: no request is lost and none is counted twice: with an instrumentation that the package's options
  have built, and that has the four database metrics with as many labels as are given, any number of
  recorded calls never panics, raises the requests by that number, and raises the successes and the
  failures together by that number; the metrics of an instrumentation never share their counters.
\<close>

theorem RecordDbMetric_accounts:
  assumes "list_all instrumentation_option os" "i = NewInstrumentation ns os"
    and "has_vecs i db_counters InstrumentationTypeDbRequestDuration ls"
    and "\<forall>f \<in> set fs. well_behaved (vec_refs i db_counters) f"
  shows "distinct (map ref (Collectors i)) \<and> (\<exists>s'. db_calls Seconds now i ls fs s = Some s'
    \<and> count i InstrumentationTypeDbRequestCount ls s' = count i InstrumentationTypeDbRequestCount ls s + length fs
    \<and> count i InstrumentationTypeDbRequestSuccess ls s' + count i InstrumentationTypeDbRequestFailure ls s'
      = count i InstrumentationTypeDbRequestSuccess ls s + count i InstrumentationTypeDbRequestFailure ls s + length fs)"
proof (rule conjI)
  show "distinct (map ref (Collectors i))" using NewInstrumentation_distinct [OF assms(1)] by (simp add: assms(2))
  show "\<exists>s'. db_calls Seconds now i ls fs s = Some s'
    \<and> count i InstrumentationTypeDbRequestCount ls s' = count i InstrumentationTypeDbRequestCount ls s + length fs
    \<and> count i InstrumentationTypeDbRequestSuccess ls s' + count i InstrumentationTypeDbRequestFailure ls s'
      = count i InstrumentationTypeDbRequestSuccess ls s + count i InstrumentationTypeDbRequestFailure ls s + length fs"
    using assms(4)
  proof (induction fs arbitrary: s)
    case (Cons f fs)
    then have "well_behaved (vec_refs i db_counters) f" by simp
    from RecordDbMetric_counts [OF assms(1-3) this, of Seconds now s] obtain resp err s1 where
      s1: "RecordDbMetric Seconds now f i ls s = Some (resp, err, s1)"
      "count i InstrumentationTypeDbRequestCount ls s1 = Suc (count i InstrumentationTypeDbRequestCount ls s)"
      "count i InstrumentationTypeDbRequestSuccess ls s1 + count i InstrumentationTypeDbRequestFailure ls s1
        = Suc (count i InstrumentationTypeDbRequestSuccess ls s + count i InstrumentationTypeDbRequestFailure ls s)"
      by (auto split: if_splits)
    from Cons have "\<forall>f \<in> set fs. well_behaved (vec_refs i db_counters) f" by simp
    from Cons.IH [OF this, of s1] s1 show ?case by auto
  qed simp
qed

abbreviation demo_instrumentation :: "unit InstrumentationOption list" where
  "demo_instrumentation \<equiv>
     [WithCounterVec InstrumentationTypeDbRequestCount ''db_requests'' '''' [''op''],
      WithCounterVec InstrumentationTypeDbRequestSuccess ''db_success'' '''' [''op''],
      WithCounterVec InstrumentationTypeDbRequestFailure ''db_failure'' '''' [''op''],
      WithHistogramVec InstrumentationTypeDbRequestDuration ''db_duration'' '''' [''op''] ()]"

theorem RecordDbMetric_accounts_witness:
  "\<exists>s'. db_calls (\<lambda>d. d) (\<lambda>(w :: int). w) (NewInstrumentation ''app'' demo_instrumentation) [''read'']
       [\<lambda>s. Some ((), None, s\<lparr>env := env s + 3\<rparr>), \<lambda>s. Some ((), Some ErrInvalidInput, s)]
       \<lparr>counts = \<lambda>r ls. 0, observations = \<lambda>r ls. [], env = 0\<rparr> = Some s'
     \<and> count (NewInstrumentation ''app'' demo_instrumentation) InstrumentationTypeDbRequestCount [''read''] s' = 2"
proof -
  let ?s0 = "\<lparr>counts = \<lambda>r ls. 0, observations = \<lambda>r ls. [], env = 0\<rparr> :: (int, int) prom"
  let ?i = "NewInstrumentation ''app'' demo_instrumentation"
  have os: "list_all instrumentation_option demo_instrumentation"
    by (simp add: instrumentation_option.intros)
  have vecs: "has_vecs ?i db_counters InstrumentationTypeDbRequestDuration [''read'']"
    by (simp add: has_vecs_def NewInstrumentation_def WithCounterVec_def WithHistogramVec_def gomap_simps
        InstrumentationTypeDbRequestCount_def InstrumentationTypeDbRequestSuccess_def
        InstrumentationTypeDbRequestFailure_def InstrumentationTypeDbRequestDuration_def)
  let ?fs = "[\<lambda>s :: (int, int) prom. Some ((), None :: error option, s\<lparr>env := env s + 3\<rparr>), \<lambda>s. Some ((), Some ErrInvalidInput, s)]"
  have "\<forall>f \<in> set ?fs. well_behaved (vec_refs ?i db_counters) f" by (simp add: well_behaved_def)
  from RecordDbMetric_accounts [OF os refl vecs this, of "\<lambda>d. d" "\<lambda>w. w" ?s0]
  obtain s' where s': "db_calls (\<lambda>d. d) (\<lambda>w. w) ?i [''read''] ?fs ?s0 = Some s'"
    "count ?i InstrumentationTypeDbRequestCount [''read''] s'
      = count ?i InstrumentationTypeDbRequestCount [''read''] ?s0 + length ?fs"
    by (elim conjE exE) (rule that, assumption+)
  have "count ?i InstrumentationTypeDbRequestCount [''read''] ?s0 = 0"
    by (simp add: count_def split: option.splits)
  then have "count ?i InstrumentationTypeDbRequestCount [''read''] s' = 2" unfolding s'(2) by simp
  then show ?thesis using s'(1) by (intro exI [of _ s'] conjI)
qed

end
