(* ===== verification/Validation.thy ===== *)
theory Validation
  imports GoErrors Prelude Complex_Main
begin

text \<open>
  \<open>src/validation/validation.go\<close>, \<open>src/math/decimal/decimal.go\<close> and \<open>src/ptr/from.go\<close>: the validators of
  request fields and the comparisons of decimals. The decimal type \<open>'d\<close> is a parameter with its
  operations; a value of type \<open>interface{}\<close> is a decimal, a string or something else.
\<close>

record 'd decimal_ops =
  IsInt :: "'d \<Rightarrow> bool"
  IsNeg :: "'d \<Rightarrow> bool"
  IsZero :: "'d \<Rightarrow> bool"
  Cmp :: "'d \<Rightarrow> 'd \<Rightarrow> int"

datatype 'd interface = DecimalValue 'd | StringValue string | OtherValue

definition decimalValueIsInt :: "'d decimal_ops \<Rightarrow> 'd interface \<Rightarrow> error + 'd" where
  "decimalValueIsInt D v =
     (case v of DecimalValue d \<Rightarrow> if \<not> IsInt D d then Inl ErrValueMustBeExpressedAsInteger else Inr d
      | _ \<Rightarrow> Inl ErrInvalidInput)"

definition ValidateDecimalIsInt :: "'d decimal_ops \<Rightarrow> 'd interface \<Rightarrow> error option" where
  "ValidateDecimalIsInt D v = (case decimalValueIsInt D v of Inl err \<Rightarrow> Some err | Inr _ \<Rightarrow> None)"

definition ValidateDecimalIsPositiveInt :: "'d decimal_ops \<Rightarrow> 'd interface \<Rightarrow> error option" where
  "ValidateDecimalIsPositiveInt D val0 =
     (case decimalValueIsInt D val0 of Inl err \<Rightarrow> Some err
      | Inr v \<Rightarrow> if IsNeg D v \<or> IsZero D v then Some ErrAmountMustBePositive else None)"

definition ValidatePositiveDecimal :: "'d decimal_ops \<Rightarrow> 'd interface \<Rightarrow> error option" where
  "ValidatePositiveDecimal D val0 =
     (case val0 of
        DecimalValue v \<Rightarrow> if IsNeg D v \<or> IsZero D v then Some ErrAmountMustBePositive else None
      | _ \<Rightarrow> Some ErrInvalidInput)"

definition HasHyphen :: "'d interface \<Rightarrow> error option" where
  "HasHyphen val0 =
     (case val0 of
        StringValue v \<Rightarrow> if Contains v ''-'' then Some ErrAssetIDMustNotContainHyphen else None
      | _ \<Rightarrow> Some ErrInvalidInput)"

definition EQ :: "'d decimal_ops \<Rightarrow> 'd \<Rightarrow> 'd \<Rightarrow> bool" where "EQ D a b = (Cmp D a b = 0)"
definition GT :: "'d decimal_ops \<Rightarrow> 'd \<Rightarrow> 'd \<Rightarrow> bool" where "GT D a b = (Cmp D a b > 0)"
definition LT :: "'d decimal_ops \<Rightarrow> 'd \<Rightarrow> 'd \<Rightarrow> bool" where "LT D a b = (Cmp D a b < 0)"
definition GTE :: "'d decimal_ops \<Rightarrow> 'd \<Rightarrow> 'd \<Rightarrow> bool" where "GTE D a b = (Cmp D a b \<ge> 0)"
definition LTE :: "'d decimal_ops \<Rightarrow> 'd \<Rightarrow> 'd \<Rightarrow> bool" where "LTE D a b = (Cmp D a b \<le> 0)"

text \<open>\<open>ptr.From\<close> allocates a new cell: the store maps addresses to values.\<close>

definition From :: "'a \<Rightarrow> nat \<times> (nat \<rightharpoonup> 'a) \<Rightarrow> nat \<times> nat \<times> (nat \<rightharpoonup> 'a)" where
  "From v = (\<lambda>(next_free, store). (next_free, Suc next_free, store(next_free \<mapsto> v)))"

text \<open>What the documentation of the decimals says, with \<open>val\<close> as the number that a decimal denotes.\<close>

definition decimal_laws :: "('d \<Rightarrow> rat) \<Rightarrow> 'd decimal_ops \<Rightarrow> bool" where
  "decimal_laws val D \<longleftrightarrow>
     (\<forall>d. IsInt D d = (val d \<in> \<int>)) \<and> (\<forall>d. IsNeg D d = (val d < 0)) \<and> (\<forall>d. IsZero D d = (val d = 0))
   \<and> (\<forall>a b. Cmp D a b = (if val a < val b then -1 else if val a = val b then 0 else 1))"

text \<open>
  The validators accept exactly what their names say, and name the first thing that is wrong:
  a value that is no decimal is invalid, one that is no integer must be expressed as one, and zero and
  negative amounts must be positive; the comparisons are those of the numbers.
\<close>

theorem validators_spec:
  assumes "decimal_laws val D"
  shows "(ValidateDecimalIsPositiveInt D v = None \<longleftrightarrow> (\<exists>d n. v = DecimalValue d \<and> val d = of_nat (Suc n)))
    \<and> (ValidateDecimalIsInt D v = None \<longleftrightarrow> (\<exists>d n. v = DecimalValue d \<and> val d = of_int n))
    \<and> (ValidatePositiveDecimal D v = None \<longleftrightarrow> (\<exists>d. v = DecimalValue d \<and> 0 < val d))
    \<and> (ValidateDecimalIsPositiveInt D v = Some ErrAmountMustBePositive \<longleftrightarrow> (\<exists>d n. v = DecimalValue d \<and> val d = of_int n \<and> n \<le> 0))
    \<and> (LT D a b = (val a < val b) \<and> LTE D a b = (val a \<le> val b) \<and> EQ D a b = (val a = val b)
        \<and> GTE D a b = (val a \<ge> val b) \<and> GT D a b = (val a > val b))"
proof -
  have laws: "IsInt D d = (val d \<in> \<int>)" "IsNeg D d = (val d < 0)" "IsZero D d = (val d = 0)"
    "Cmp D a b = (if val a < val b then -1 else if val a = val b then 0 else 1)" for d a b
    using assms unfolding decimal_laws_def by blast+
  have neq: "ErrInvalidInput \<noteq> ErrAmountMustBePositive" "ErrValueMustBeExpressedAsInteger \<noteq> ErrAmountMustBePositive"
    by (simp_all add: ErrInvalidInput_def ErrAmountMustBePositive_def ErrValueMustBeExpressedAsInteger_def New_def Data_def
        error_type_defs)
  have ints: "x \<in> \<int> \<longleftrightarrow> (\<exists>n. x = of_int n)" for x :: rat by (auto simp: Ints_def)
  have pos: "(x \<in> \<int> \<and> 0 < x) \<longleftrightarrow> (\<exists>n. x = of_nat (Suc n))" for x :: rat
  proof
    assume "x \<in> \<int> \<and> 0 < x"
    then obtain n where n: "x = of_int n" "0 < n" by (auto simp: ints)
    then have "x = of_nat (Suc (nat n - 1))" by (simp add: of_nat_diff)
    then show "\<exists>n. x = of_nat (Suc n)" by blast
  next
    assume "\<exists>n. x = of_nat (Suc n)"
    then show "x \<in> \<int> \<and> 0 < x" by (auto simp del: of_nat_Suc)
  qed
  have "ValidateDecimalIsPositiveInt D v = None \<longleftrightarrow> (\<exists>d. v = DecimalValue d \<and> val d \<in> \<int> \<and> 0 < val d)"
    by (cases v) (auto simp: ValidateDecimalIsPositiveInt_def decimalValueIsInt_def laws)
  then have "ValidateDecimalIsPositiveInt D v = None \<longleftrightarrow> (\<exists>d. v = DecimalValue d \<and> (\<exists>n. val d = of_nat (Suc n)))"
    by (simp only: pos)
  moreover have "ValidateDecimalIsInt D v = None \<longleftrightarrow> (\<exists>d. v = DecimalValue d \<and> val d \<in> \<int>)"
    by (cases v) (auto simp: ValidateDecimalIsInt_def decimalValueIsInt_def laws)
  moreover have "ValidatePositiveDecimal D v = None \<longleftrightarrow> (\<exists>d. v = DecimalValue d \<and> 0 < val d)"
    by (cases v) (auto simp: ValidatePositiveDecimal_def laws)
  moreover have "ValidateDecimalIsPositiveInt D v = Some ErrAmountMustBePositive \<longleftrightarrow>
      (\<exists>d. v = DecimalValue d \<and> val d \<in> \<int> \<and> val d \<le> 0)"
    using neq by (cases v) (auto simp: ValidateDecimalIsPositiveInt_def decimalValueIsInt_def laws)
  ultimately show ?thesis
    unfolding ints by (auto simp: LT_def LTE_def EQ_def GTE_def GT_def laws simp del: of_nat_Suc)
qed

text \<open>Integers with a scale of two decimal places.\<close>

theorem validators_spec_witness:
  "ValidateDecimalIsPositiveInt \<lparr>IsInt = \<lambda>d :: int. of_int d / 100 \<in> (\<int> :: rat set), IsNeg = \<lambda>d. d < 0, IsZero = \<lambda>d. d = 0,
     Cmp = \<lambda>a b. if a < b then -1 else if a = b then 0 else 1\<rparr> (DecimalValue 300) = None"
proof -
  let ?D = "\<lparr>IsInt = \<lambda>d :: int. of_int d / 100 \<in> (\<int> :: rat set), IsNeg = \<lambda>d. d < 0, IsZero = \<lambda>d. d = 0,
     Cmp = \<lambda>a b. if a < b then -1 else if a = b then 0 else 1\<rparr>"
  have "decimal_laws (\<lambda>d. of_int d / 100) ?D" by (simp add: decimal_laws_def divide_less_cancel)
  then have "ValidateDecimalIsPositiveInt ?D (DecimalValue 300) = None \<longleftrightarrow>
      (\<exists>d n. DecimalValue (300 :: int) = DecimalValue d \<and> (of_int d / 100 :: rat) = of_nat (Suc n))"
    by (rule conjunct1 [OF validators_spec])
  moreover have "(of_int 300 / 100 :: rat) = of_nat (Suc 2)" by simp
  ultimately show ?thesis by blast
qed

end
