(* ===== verification/Logger.thy ===== *)
theory Logger
  imports GoErrors Prelude
begin

text \<open>
  \<open>src/logger/logger.go\<close>: loggers that share one file, which the package opens once. The state is the
  package variable \<open>logFile\<close>, a handle or nil; opening the file and parsing a level are parameters, and
  a logger is its writers and its level. \<open>ConsoleWriter\<close>, \<open>FileWriter\<close> and the buffering \<open>DiodeWriter\<close>
  stand for the writers of zerolog.
\<close>

datatype 'f writer = ConsoleWriter | FileWriter 'f | DiodeWriter 'f

type_synonym level = int

definition DebugLevel :: level where "DebugLevel = 0"
definition InfoLevel :: level where "InfoLevel = 1"

text \<open>\<open>Nop\<close> is the disabled logger.\<close>

datatype 'f logger = Nop | Logger "'f writer list" level

definition file_logger :: "'f writer \<Rightarrow> level \<Rightarrow> bool \<Rightarrow> 'f logger" where
  "file_logger wr lvl writeToConsole =
     (if \<not> writeToConsole then Logger [wr] lvl else Logger [ConsoleWriter, wr] lvl)"

text \<open>
  The level of the logger for a new file: the parsed one, or \<open>InfoLevel\<close> when the text has an error or
  gives a level without a name. A logger for the file that is open already has the zero value.
\<close>

definition parsed_level :: "(string \<Rightarrow> error + level) \<Rightarrow> (level \<Rightarrow> string) \<Rightarrow> string \<Rightarrow> level" where
  "parsed_level ParseLevel level_name logLevel =
     (case ParseLevel logLevel of Inl err \<Rightarrow> InfoLevel
      | Inr lvl \<Rightarrow> if length (level_name lvl) = 0 then InfoLevel else lvl)"

definition New_with ::
  "('f \<Rightarrow> 'f writer) \<Rightarrow> (string \<Rightarrow> error + 'f) \<Rightarrow> (string \<Rightarrow> error + level) \<Rightarrow> (level \<Rightarrow> string)
    \<Rightarrow> string \<Rightarrow> string \<Rightarrow> bool \<Rightarrow> 'f option \<Rightarrow> ('f logger \<times> error option) \<times> 'f option" where
  "New_with mk OpenFile ParseLevel level_name logLevel logFilePath writeToConsole logFile =
     (case logFile of
        Some f \<Rightarrow> ((file_logger (mk f) DebugLevel writeToConsole, None), logFile)
      | None \<Rightarrow>
        (case OpenFile logFilePath of
           Inl err \<Rightarrow> ((Nop, Some err), None)
         | Inr f \<Rightarrow> ((file_logger (mk f) (parsed_level ParseLevel level_name logLevel) writeToConsole, None), Some f)))"

definition New where
  "New OpenFile ParseLevel level_name = New_with FileWriter OpenFile ParseLevel level_name"

definition NewThreadSafeLogger where
  "NewThreadSafeLogger OpenFile ParseLevel level_name = New_with DiodeWriter OpenFile ParseLevel level_name"

text \<open>\<open>Close\<close> closes the file and keeps the handle; a nil handle is an error of \<open>os\<close>.\<close>

definition ErrInvalid :: error where "ErrInvalid = ErrorString ''invalid argument''"

definition Close :: "('f \<Rightarrow> error option) \<Rightarrow> 'f option \<Rightarrow> error option \<times> 'f option" where
  "Close close_file logFile =
     (case logFile of None \<Rightarrow> (Some ErrInvalid, logFile) | Some f \<Rightarrow> (close_file f, logFile))"

definition TestLogger :: "'f logger" where
  "TestLogger = Logger [ConsoleWriter] DebugLevel"

fun level_of :: "'f logger \<Rightarrow> level option" where
  "level_of Nop = None"
| "level_of (Logger ws l) = Some l"

text \<open>
  Only the first logger has the level that was asked for; every later one has the lowest level, whatever
  it asks for, and after \<open>Close\<close> new loggers still write to the closed file.
\<close>

lemma first_level:
  "OpenFile p = Inr f \<Longrightarrow> ParseLevel l = Inr lvl \<Longrightarrow> level_name lvl \<noteq> ''''
   \<Longrightarrow> New OpenFile ParseLevel level_name l p c None = ((file_logger (FileWriter f) lvl c, None), Some f)"
  by (simp add: New_def New_with_def parsed_level_def)

lemma later_level:
  "level_of (fst (fst (New OpenFile ParseLevel level_name l p c (Some f)))) = Some DebugLevel"
  "level_of (fst (fst (NewThreadSafeLogger OpenFile ParseLevel level_name l p c (Some f)))) = Some DebugLevel"
  by (simp_all add: New_def NewThreadSafeLogger_def New_with_def file_logger_def)

lemma closed_file_is_used:
  "snd (Close close_file (Some f)) = Some f
   \<and> fst (New OpenFile ParseLevel level_name l p c (snd (Close close_file (Some f)))) = (file_logger (FileWriter f) DebugLevel c, None)"
  by (simp add: Close_def New_def New_with_def)

end
