(* ===== verification/Spec2Isabelle.thy ===== *)
theory Spec2Isabelle
  imports BalancesLaws PoolRuns AssetData BalancesJSON Module Position Stablecoin Tracking
    StoreFrames ConcurrentWrites PositionSafety SpannerClient Secrets CacheMachine Metrics Validation Logger
begin

text \<open>
  Verification library of \<open>dora-service-utils\<close>, the Go package that the services of the DORA network
  share. This theory imports the others; each of them opens with what it holds.

  \<^bold>\<open>The program.\<close> A ledger of positions keeps, for every user and for the module account, several
  \<open>Balances\<close>: maps from asset identifiers to signed amounts. Liquidity pools exchange two assets.
  The asset registry gives assets their decimals, prices and coupons, and with them values positions.
  Redis holds positions, interest, pools and prices in hashes that optimistic transactions update.
  Kafka carries messages, and a cache goroutine folds what it polls into a map. A migration tool brings a
  Spanner database to the version of a set of SQL files. Secrets come from a Secret Manager. A metrics
  server and instrumentation, loggers and validators are shared by all services.

  \<^bold>\<open>Theories and sources\<close> (below \<open>src/\<close>).

  \<^item> Values: \<open>Prelude\<close> (words, Go maps as association lists whose order stands for the iteration
    order), \<open>Runs\<close> (runs of labelled steps, used by pools, stores and caches), \<open>GoStrings\<close> (\<open>strings\<close>, \<open>strconv\<close>), \<open>GoErrors\<close> (\<open>errors/error.go\<close>), \<open>SafeMath\<close>
    (\<open>math/safemath.go\<close>), \<open>GoFloat\<close> and \<open>FloatOps\<close> (IEEE rounding, \<open>big.Float\<close>), \<open>BigMath\<close>
    (\<open>math/arithmetic.go\<close>, \<open>math.go\<close>, \<open>exponential.go\<close>, \<open>string.go\<close>), \<open>Validation\<close>
    (\<open>validation\<close>, \<open>math/decimal\<close>, \<open>ptr\<close>).
  \<^item> Ledger: \<open>Amounts\<close>, \<open>Balance\<close>, \<open>AssetID\<close>, \<open>Balances\<close> with its laws in \<open>BalancesLaws\<close>,
    \<open>BalancesJSON\<close>, \<open>Tracking\<close> (what positions and the module share: the original text and the
    sequence number), \<open>Position\<close> and \<open>Module\<close>; all of \<open>ledger/types\<close>.
  \<^item> Assets: \<open>AssetData\<close> (\<open>helpers/asset.go\<close>, \<open>math/date.go\<close>), \<open>Stablecoin\<close> (\<open>helpers/users.go\<close>) and
    \<open>PositionSafety\<close> (which positions services hold, and that operations on them do not panic).
  \<^item> Pools: \<open>Pools\<close> (\<open>pools/types/pools.go\<close>) with the laws of single operations in \<open>PoolsLaws\<close> and of
    sequences of them in \<open>PoolRuns\<close>.
  \<^item> Stores: \<open>RedisTx\<close> (\<open>redis/*.go\<close>, \<open>orderbook/orderbook.go\<close>: keys, clients, \<open>TryTransaction\<close>),
    \<open>PositionStore\<close> and \<open>ModuleStore\<close> (\<open>ledger/redis/positions.go\<close>), \<open>InterestStore\<close>
    (\<open>ledger/redis/interest.go\<close>), \<open>PoolStore\<close> (\<open>pools/redis/pools.go\<close>), \<open>PriceStore\<close>
    (\<open>prices\<close>), \<open>RetryLiveness\<close> (when retries succeed), and over all stores together \<open>StoreKeys\<close> (their
    keys), \<open>StoreFrames\<close> (what a write leaves alone, runs of operations of all stores) and
    \<open>ConcurrentWrites\<close> (the single commands of many calls of \<open>SetUsersPosition\<close>, interleaved).
  \<^item> Migrations: \<open>MigrationParser\<close> (\<open>migration/parser.go\<close>), \<open>Migration\<close> (\<open>migration/migration.go\<close>,
    \<open>spanner/config.go\<close>) and \<open>SpannerClient\<close> (\<open>spanner/client.go\<close>).
  \<^item> Services: \<open>Kafka\<close> (\<open>kafka/*.go\<close>), \<open>CacheMachine\<close> (\<open>cache/*.go\<close>), \<open>Metrics\<close>
    (\<open>metrics/*.go\<close>), \<open>Logger\<close> (\<open>logger/logger.go\<close>) and \<open>Secrets\<close> (\<open>secrets/secrets.go\<close>).

  \<^bold>\<open>How code is modelled.\<close> A struct is a record, a function returns its results and the state that it
  changed, \<open>(T, error)\<close> is \<open>error + T\<close>, and a panic is \<open>None\<close> where one can happen. 64-bit integers are
  words and wrap; \<open>big.Int\<close> is \<open>int\<close>; \<open>float64\<close> is a rational with the special values, every operation
  being rounded. A pointer that may be nil is an option. What is not below \<open>src/\<close> is a parameter: the
  Redis, Kafka, Spanner, Secret Manager and Prometheus clients, the JSON library, the decimal type, the
  clock, the file system. What the theorems need of them is a named hypothesis that states documented
  behaviour: \<open>retries\<close> and \<open>watches\<close> of the backoff library and of \<open>Watch\<close>, \<open>persistent\<close> and
  \<open>watches_live\<close> of those that get through, \<open>hash_server\<close> and \<open>transient\<close> of the Redis commands and
  their faults, \<open>lawful_clients\<close> of both together, \<open>version_db\<close>, \<open>secret_service\<close>, \<open>decimal_laws\<close>,
  \<open>well_behaved\<close>. Every theorem with such a hypothesis is instantiated with concrete functions.

  \<^bold>\<open>Interfaces.\<close> \<open>checked_op\<close> (\<open>SafeMath\<close>) is the contract of checked arithmetic, interpreted for addition,
  subtraction and multiplication; \<open>ledger\<close> (\<open>Balances\<close>) the contract of amounts and their addition;
  \<open>tracked\<close> (\<open>Tracking\<close>) that of values with an original and a sequence number, interpreted for
  positions and the module; \<open>transaction\<close> and \<open>restartable\<close> (\<open>RedisTx\<close>) carry the reasoning about retries:
  an invariant that every attempt of a transaction keeps holds of the result of all attempts. They are
  interpreted for transactions of all stores. \<open>live_transaction\<close> (\<open>RetryLiveness\<close>) adds that an attempt
  either succeeds or uses up a fault, interpreted for reading and writing positions; \<open>confined\<close>
  (\<open>StoreFrames\<close>) is the contract of a transaction that writes only certain keys, interpreted for every
  writing transaction. \<open>invariant\<close> and \<open>progress\<close> (\<open>Runs\<close>) lift what a step keeps to runs, and are interpreted for
  the cache machine, the life of a pool, the runs of the stores and the interleaved writers.

  \<^bold>\<open>What the lemmas show.\<close>

  \<^item> Ledger: addition and subtraction of balances are pointwise and independent of the order of
    iteration; subtraction to zero conserves value; safe subtraction fails exactly when it should;
    identifiers are those of a grammar; the JSON text is read back; sequence numbers advance once.
  \<^item> Pools: product swaps never lower the product of reserves below \<open>2^63\<close>, liquidity is pro rata up to one unit,
    the time factor of yield pools is monotone, and what happens on overflow and after maturity. Over
    any run of trades and deposits with such reserves their product never falls, and a deposit that is
    withdrawn at once gives back what was put in, up to rounding by an explicit bound.
  \<^item> Assets: the tables of the registry stay consistent, coupon ranges split, and stablecoin
    equivalence only moves amounts together with its record. Positions made by the package keep all of
    their balances, except in the copy of fields that JSON cannot write, and on positions that have
    them no valuation and no conversion panics.
  \<^item> Stores: each store refines a map from its entities to their values, across retries and
    partial writes; a written position is read back when faults are transient, which is total
    correctness; the commands of concurrent calls mix per user and never within a position, and a call
    during which all others stand still is a run of these commands;
    keys never collide, so runs of operations of the other stores leave an entity alone;
    and where the accrual of interest does not do what it means to.
  \<^item> Migrations: the parser yields the marked statements, with markers in any case and text in between;
    a run is idempotent; and when the files come in the order of their versions, a version that a later
    run skips has been recorded only after all statements of its file were executed.
  \<^item> Services: an invariant of the cache over all interleavings, the termination of a cancelled goroutine,
    what a double start does; the metrics server is a switch that panics on a path that is no pattern; no
    recorded call is lost; the lag of a consumer group is the end offset minus the committed one; a created secret is read back and every client is closed.

  \<^bold>\<open>Bounds and fuel.\<close> There is no fuel: retries are bounded by the parameter that models the backoff
  library (\<open>bounded_client\<close> gives up after its attempts, and one that retries for ever has no result),
  and all other loops are structural. For success a \<open>budget\<close> of the server state bounds the faults that are
  left, and a client that is \<open>persistent\<close> for that many retries gets through. The scanner of the migration parser stops at lines of 64 KiB, as
  \<open>bufio.Scanner\<close> does. Hypotheses on sizes (offsets below the largest integer, reserves below \<open>2^63\<close> in
  runs of a pool and below \<open>2^53\<close> where floating point must be exact) are stated in the theorems, with the
  behaviour beyond them where it differs (\<open>large_reserve_is_drained\<close>).

  \<^bold>\<open>Not modelled.\<close> \<open>redis/redisfakes\<close>, \<open>kafka/kafkafakes\<close> and \<open>spanner/spannerfakes\<close> are generated by
  counterfeiter, and make up most of the lines of the repository; \<open>testing\<close> and \<open>tools\<close> start containers
  and pin build tools. The binary marshalling methods call the JSON library, which is a parameter; only
  the hand written encoder of \<open>Balances\<close> is modelled in full. Log messages are left out, and so are data
  races of the Go memory model: the interleavings of the cache are those of its critical sections, with
  \<open>Cache.Init\<close>, which takes no lock, as one step, and end with a panic. Of \<open>http.ServeMux\<close> the patterns
  that \<open>Handle\<close> accepts are modelled; which names are identifiers for a wildcard is a parameter. A nil
  position or interest in a request is the panic of the code; a nil module or pool handed to a store is
  left out. Everything else below \<open>src/\<close> that is not
  an import or an interface has its definition here.
\<close>

end
